(* ===== verification/Prelude.thy ===== *)
theory Prelude
  imports Main "HOL-Library.Word" "HOL-Library.AList" "HOL-Library.List_Lexorder" "HOL-Library.Char_ord"
begin

text \<open>
  What every component of the development shares.
  The machine integers of the Rust sources; the \<open>Result\<close>-returning, state-changing
  actions in which the stateful code is written, with the rules (collection \<open>wp\<close>) that
  compute their outcome; frame relations that such actions keep; and the parts of Rust's
  string library the sources use.

  A Rust \<open>String\<close> is its UTF-8 bytes, so it is a list of 8-bit characters here and
  \<open>length\<close> is \<open>str::len\<close>. Where the source walks over \<open>chars()\<close>, the model walks
  over \<open>utf8_chars\<close>, the byte groups that make up one character each.
\<close>

named_theorems wp \<comment> \<open>how an action computes its result and its final state\<close>
named_theorems str_simps \<comment> \<open>facts on the string helpers\<close>

section \<open>Machine integers\<close>

type_synonym u8 = "8 word"
type_synonym u16 = "16 word"
type_synonym u32 = "32 word"
type_synonym u64 = "64 word"
type_synonym u128 = "128 word"

section \<open>Actions: state passing with errors\<close>

text \<open>
  An action is a method that may change the state and returns a Rust \<open>Result\<close>.
  The state is returned on both branches: an early return keeps what was written before it.
  \<open>and_then\<close> is the \<open>?\<close> operator, \<open>ignore_result\<close> is \<open>let _ = ...\<close>.
\<close>

type_synonym ('s, 'e, 'a) action = "'s \<Rightarrow> ('e + 'a) \<times> 's"

definition ok :: "'a \<Rightarrow> ('s, 'e, 'a) action" where
  "ok x s = (Inr x, s)"

definition err :: "'e \<Rightarrow> ('s, 'e, 'a) action" where
  "err e s = (Inl e, s)"

definition and_then :: "('s, 'e, 'a) action \<Rightarrow> ('a \<Rightarrow> ('s, 'e, 'b) action) \<Rightarrow> ('s, 'e, 'b) action" where
  "and_then m f s = (case m s of (Inl e, s') \<Rightarrow> (Inl e, s') | (Inr x, s') \<Rightarrow> f x s')"

definition ignore_result :: "('s, 'e, 'a) action \<Rightarrow> ('s, 'e, unit) action" where
  "ignore_result m s = (Inr (), snd (m s))"

definition of_result :: "'e + 'a \<Rightarrow> ('s, 'e, 'a) action" where
  "of_result r s = (r, s)"

definition modify :: "('s \<Rightarrow> 's) \<Rightarrow> ('s, 'e, unit) action" where
  "modify f s = (Inr (), f s)"

definition match_result ::
  "('s, 'e, 'a) action \<Rightarrow> ('e \<Rightarrow> ('s, 'f, 'b) action) \<Rightarrow> ('a \<Rightarrow> ('s, 'f, 'b) action) \<Rightarrow> ('s, 'f, 'b) action" where
  "match_result m h f s = (case m s of (Inl e, s') \<Rightarrow> h e s' | (Inr x, s') \<Rightarrow> f x s')"

definition if_ok :: "bool \<Rightarrow> 'e \<Rightarrow> 'e + unit" where
  "if_ok b e = (if b then Inr () else Inl e)"

lemma ok_run [wp]: "ok x s = (Inr x, s)"
  by (simp add: ok_def)

lemma err_run [wp]: "err e s = (Inl e, s)"
  by (simp add: err_def)

lemma of_result_run [wp]: "of_result r s = (r, s)"
  by (simp add: of_result_def)

lemma modify_run [wp]: "modify f s = (Inr (), f s)"
  by (simp add: modify_def)

lemma ignore_result_run [wp]: "ignore_result m s = (Inr (), snd (m s))"
  by (simp add: ignore_result_def)

lemma and_then_run [wp]:
  "and_then m f s = (case fst (m s) of Inl e \<Rightarrow> (Inl e, snd (m s)) | Inr x \<Rightarrow> f x (snd (m s)))"
  by (simp add: and_then_def split: prod.split sum.split)

lemma match_result_run [wp]:
  "match_result m h f s = (case fst (m s) of Inl e \<Rightarrow> h e (snd (m s)) | Inr x \<Rightarrow> f x (snd (m s)))"
  by (simp add: match_result_def split: prod.split sum.split)

lemma if_ok_Inr [simp]: "if_ok b e = Inr u \<longleftrightarrow> b"
  by (simp add: if_ok_def)

lemma if_ok_Inl [simp]: "if_ok b e = Inl e' \<longleftrightarrow> \<not> b \<and> e' = e"
  by (auto simp: if_ok_def)

lemma and_then_assoc: "and_then (and_then m f) g = and_then m (\<lambda>x. and_then (f x) g)"
  by (rule ext) (simp add: and_then_def split: prod.split sum.split)

lemma and_then_ok_left: "and_then (ok x) f = f x"
  by (rule ext) (simp add: wp)

lemma and_then_ok_right: "and_then m ok = m"
  by (rule ext) (simp add: and_then_def ok_def split: prod.split sum.split)

section \<open>Frame relations\<close>

text \<open>
  \<open>keeps R m\<close>: whatever \<open>m\<close> returns, its final state is related to its initial one.
  Where \<open>R\<close> is reflexive and transitive, a composite action keeps it as soon as its
  parts do; the locale holds these rules once, for every such relation.
\<close>

definition keeps :: "('s \<Rightarrow> 's \<Rightarrow> bool) \<Rightarrow> ('s \<Rightarrow> 'r \<times> 's) \<Rightarrow> bool" where
  "keeps R m \<longleftrightarrow> (\<forall>s. R s (snd (m s)))"

lemma keepsI: "(\<And>s. R s (snd (m s))) \<Longrightarrow> keeps R m"
  by (simp add: keeps_def)

lemma keepsD: "keeps R m \<Longrightarrow> R s (snd (m s))"
  by (simp add: keeps_def)

locale frame_relation =
  fixes R :: "'s \<Rightarrow> 's \<Rightarrow> bool"
  assumes frame_refl: "R s s"
    and frame_trans: "R s t \<Longrightarrow> R t u \<Longrightarrow> R s u"
begin

lemma keeps_ok: "keeps R (ok x)"
  by (simp add: keeps_def ok_def frame_refl)

lemma keeps_err: "keeps R (err e)"
  by (simp add: keeps_def err_def frame_refl)

lemma keeps_of_result: "keeps R (of_result r)"
  by (simp add: keeps_def of_result_def frame_refl)

lemma keeps_and_then:
  assumes "keeps R m" and "\<And>x. keeps R (f x)"
  shows "keeps R (and_then m f)"
proof (rule keepsI)
  fix s
  show "R s (snd (and_then m f s))"
  proof (cases "fst (m s)")
    case (Inl e)
    then show ?thesis using keepsD [OF assms(1), of s] by (simp add: wp)
  next
    case (Inr x)
    have "R s (snd (m s))" by (rule keepsD [OF assms(1)])
    moreover have "R (snd (m s)) (snd (f x (snd (m s))))" by (rule keepsD [OF assms(2)])
    ultimately show ?thesis using Inr by (simp add: wp frame_trans)
  qed
qed

lemma keeps_match_result:
  assumes "keeps R m" and "\<And>e. keeps R (h e)" and "\<And>x. keeps R (f x)"
  shows "keeps R (match_result m h f)"
proof (rule keepsI)
  fix s
  have "R s (snd (m s))" by (rule keepsD [OF assms(1)])
  moreover have "R (snd (m s)) (snd (h e (snd (m s))))" for e by (rule keepsD [OF assms(2)])
  moreover have "R (snd (m s)) (snd (f x (snd (m s))))" for x by (rule keepsD [OF assms(3)])
  ultimately show "R s (snd (match_result m h f s))"
    by (simp add: wp split: sum.split) (blast intro: frame_trans)
qed

lemma keeps_ignore_result: "keeps R m \<Longrightarrow> keeps R (ignore_result m)"
  by (simp add: keeps_def ignore_result_def)

lemma keeps_if: "keeps R m \<Longrightarrow> keeps R n \<Longrightarrow> keeps R (if b then m else n)"
  by simp

lemma keeps_case_option:
  "keeps R m \<Longrightarrow> (\<And>x. keeps R (f x)) \<Longrightarrow> keeps R (case v of None \<Rightarrow> m | Some x \<Rightarrow> f x)"
  by (cases v) simp_all

text \<open>
  The same from a given initial state, where the later action may rely on what the earlier
  one returned.
\<close>

lemma run_and_then:
  assumes "R s (snd (m s))"
    and "\<And>x. fst (m s) = Inr x \<Longrightarrow> R (snd (m s)) (snd (f x (snd (m s))))"
  shows "R s (snd (and_then m f s))"
  using assms by (cases "fst (m s)") (auto simp: wp intro: frame_trans)

lemma run_match_result:
  assumes "R s (snd (m s))"
    and "\<And>e. fst (m s) = Inl e \<Longrightarrow> R (snd (m s)) (snd (h e (snd (m s))))"
    and "\<And>x. fst (m s) = Inr x \<Longrightarrow> R (snd (m s)) (snd (f x (snd (m s))))"
  shows "R s (snd (match_result m h f s))"
  using assms by (cases "fst (m s)") (auto simp: wp intro: frame_trans)

lemma run_ignore_result: "R s (snd (m s)) \<Longrightarrow> R s (snd (ignore_result m s))"
  by (simp add: wp)

lemma run_modify: "R s (f s) \<Longrightarrow> R s (snd (modify f s))"
  by (simp add: wp)

lemma run_ok: "R s (snd (ok x s))"
  by (simp add: wp frame_refl)

lemma run_err: "R s (snd (err e s))"
  by (simp add: wp frame_refl)

lemma run_of_result: "R s (snd (of_result r s))"
  by (simp add: wp frame_refl)

lemma run_if:
  "(b \<Longrightarrow> R s (snd (m s))) \<Longrightarrow> (\<not> b \<Longrightarrow> R s (snd (n s))) \<Longrightarrow> R s (snd ((if b then m else n) s))"
  by simp

lemma run_case_option:
  "(v = None \<Longrightarrow> R s (snd (m s))) \<Longrightarrow> (\<And>x. v = Some x \<Longrightarrow> R s (snd (f x s))) \<Longrightarrow>
     R s (snd ((case v of None \<Rightarrow> m | Some x \<Rightarrow> f x) s))"
  by (cases v) simp_all

lemmas run_rules = run_and_then run_match_result run_ignore_result run_modify run_ok run_err
  run_of_result run_if run_case_option

lemmas frame_rules = keeps_ok keeps_err keeps_of_result keeps_and_then
  keeps_match_result keeps_ignore_result keeps_if keeps_case_option

end

text \<open>
  \<open>m\<close> changes nothing: reading a file, checking an identifier. Such an action is
  described by its result alone.
\<close>

definition read_only :: "('s \<Rightarrow> 'r \<times> 's) \<Rightarrow> bool" where
  "read_only m \<longleftrightarrow> (\<forall>s. snd (m s) = s)"

lemma read_only_snd: "read_only m \<Longrightarrow> snd (m s) = s"
  by (simp add: read_only_def)

text \<open>
  \<open>runs_to m s Q\<close>: from \<open>s\<close> the action succeeds, with a result and a final state that satisfy
  \<open>Q\<close>: neither an error nor a panic.
\<close>

definition runs_to :: "('s, 'e, 'a) action \<Rightarrow> 's \<Rightarrow> ('a \<Rightarrow> 's \<Rightarrow> bool) \<Rightarrow> bool" where
  "runs_to m s Q \<longleftrightarrow> (\<exists>x s'. m s = (Inr x, s') \<and> Q x s')"

lemma runs_to_ok: "Q x s \<Longrightarrow> runs_to (ok x) s Q"
  by (simp add: runs_to_def ok_def)

lemma runs_to_of_result: "r = Inr x \<Longrightarrow> Q x s \<Longrightarrow> runs_to (of_result r) s Q"
  by (simp add: runs_to_def of_result_def)

lemma runs_to_modify: "Q () (f s) \<Longrightarrow> runs_to (modify f) s Q"
  by (simp add: runs_to_def modify_def)

lemma runs_to_and_then:
  "runs_to m s P \<Longrightarrow> (\<And>x s'. P x s' \<Longrightarrow> runs_to (f x) s' Q) \<Longrightarrow> runs_to (and_then m f) s Q"
  by (force simp: runs_to_def and_then_def)

lemma runs_to_result_then: "r = Inr x \<Longrightarrow> runs_to (f x) s Q \<Longrightarrow> runs_to (and_then (of_result r) f) s Q"
  by (simp add: runs_to_def wp)

lemma runs_to_mono: "runs_to m s P \<Longrightarrow> (\<And>x s'. P x s' \<Longrightarrow> Q x s') \<Longrightarrow> runs_to m s Q"
  by (auto simp: runs_to_def)

lemma runs_to_case_option:
  "(v = None \<Longrightarrow> runs_to m s Q) \<Longrightarrow> (\<And>x. v = Some x \<Longrightarrow> runs_to (f x) s Q) \<Longrightarrow>
     runs_to (case v of None \<Rightarrow> m | Some x \<Rightarrow> f x) s Q"
  by (cases v) simp_all

section \<open>Rust strings\<close>

definition byte_of :: "char \<Rightarrow> nat" where
  "byte_of c = of_char c"

definition is_continuation :: "char \<Rightarrow> bool" where
  "is_continuation c \<longleftrightarrow> 128 \<le> byte_of c \<and> byte_of c < 192"

text \<open>\<open>str::chars\<close>: the byte groups of a UTF-8 string, one per character.\<close>

function utf8_chars :: "string \<Rightarrow> string list" where
  "utf8_chars [] = []"
| "utf8_chars (c # cs) = (c # takeWhile is_continuation cs) # utf8_chars (dropWhile is_continuation cs)"
  by pat_completeness auto
termination
  by (relation "measure length") (auto simp: le_imp_less_Suc length_dropWhile_le)

lemma concat_utf8_chars [simp, str_simps]: "concat (utf8_chars s) = s"
  by (induction s rule: utf8_chars.induct) auto

lemma utf8_chars_eq_Nil [simp, str_simps]: "utf8_chars s = [] \<longleftrightarrow> s = []"
  by (cases s) auto

definition is_ascii_alphanumeric :: "char \<Rightarrow> bool" where
  "is_ascii_alphanumeric c \<longleftrightarrow>
     (48 \<le> byte_of c \<and> byte_of c \<le> 57) \<or> (65 \<le> byte_of c \<and> byte_of c \<le> 90)
       \<or> (97 \<le> byte_of c \<and> byte_of c \<le> 122)"

text \<open>
  \<open>char::is_whitespace\<close>, the Unicode property \<open>White_Space\<close>, on the UTF-8 bytes of one
  character: U+0009 to U+000D, U+0020, U+0085, U+00A0, U+1680, U+2000 to U+200A, U+2028,
  U+2029, U+202F, U+205F and U+3000.
\<close>

definition is_whitespace :: "string \<Rightarrow> bool" where
  "is_whitespace ch \<longleftrightarrow>
     (case map byte_of ch of
        [a] \<Rightarrow> (9 \<le> a \<and> a \<le> 13) \<or> a = 32
      | [a, b] \<Rightarrow> a = 194 \<and> (b = 133 \<or> b = 160)
      | [a, b, c] \<Rightarrow>
          (a = 225 \<and> b = 154 \<and> c = 128)
          \<or> (a = 226 \<and> b = 128 \<and> ((128 \<le> c \<and> c \<le> 138) \<or> c = 168 \<or> c = 169 \<or> c = 175))
          \<or> (a = 226 \<and> b = 129 \<and> c = 159)
          \<or> (a = 227 \<and> b = 128 \<and> c = 128)
      | _ \<Rightarrow> False)"

definition trim_start :: "string \<Rightarrow> string" where
  "trim_start s = concat (dropWhile is_whitespace (utf8_chars s))"

definition trim :: "string \<Rightarrow> string" where
  "trim s = concat (rev (dropWhile is_whitespace (rev (dropWhile is_whitespace (utf8_chars s)))))"

definition all_whitespace :: "string \<Rightarrow> bool" where
  "all_whitespace s \<longleftrightarrow> list_all is_whitespace (utf8_chars s)"

lemma utf8_chars_single: "list_all (\<lambda>c. \<not> is_continuation c) s \<Longrightarrow> utf8_chars s = map (\<lambda>c. [c]) s"
proof (induction s)
  case (Cons c s)
  then have "takeWhile is_continuation s = []" "dropWhile is_continuation s = s"
    by (cases s; simp)+
  then show ?case using Cons by simp
qed simp

lemma utf8_chars_nonempty: "ch \<in> set (utf8_chars s) \<Longrightarrow> ch \<noteq> []"
  by (induction s rule: utf8_chars.induct) auto

lemma Ball_dropWhile: "(\<forall>x \<in> set (dropWhile P xs). P x) \<longleftrightarrow> (\<forall>x \<in> set xs. P x)"
  by (induction xs) auto

lemma concat_Nil_nonempty: "(\<And>x. x \<in> set xs \<Longrightarrow> x \<noteq> []) \<Longrightarrow> concat xs = [] \<longleftrightarrow> xs = []"
  by (cases xs) auto

text \<open>\<open>s.trim().is_empty()\<close> says that every character is white space.\<close>

lemma trim_eq_Nil [str_simps]: "trim s = [] \<longleftrightarrow> all_whitespace s"
proof -
  let ?ds = "dropWhile is_whitespace (utf8_chars s)"
  have "ch \<noteq> []" if "ch \<in> set (rev (dropWhile is_whitespace (rev ?ds)))" for ch
    using that by (auto dest!: set_dropWhileD utf8_chars_nonempty)
  then have "trim s = [] \<longleftrightarrow> dropWhile is_whitespace (rev ?ds) = []"
    unfolding trim_def by (subst concat_Nil_nonempty) auto
  also have "\<dots> \<longleftrightarrow> (\<forall>x \<in> set ?ds. is_whitespace x)"
    by (simp add: dropWhile_eq_Nil_conv)
  also have "\<dots> \<longleftrightarrow> all_whitespace s"
    by (simp only: Ball_dropWhile all_whitespace_def list_all_iff)
  finally show ?thesis .
qed

lemma trim_Nil [simp, str_simps]: "trim [] = []"
  by (simp add: trim_def)

definition starts_with :: "string \<Rightarrow> string \<Rightarrow> bool" where
  "starts_with s p \<longleftrightarrow> take (length p) s = p"

definition strip_prefix :: "string \<Rightarrow> string \<Rightarrow> string option" where
  "strip_prefix s p = (if starts_with s p then Some (drop (length p) s) else None)"

lemma starts_with_iff [str_simps]: "starts_with s p \<longleftrightarrow> (\<exists>t. s = p @ t)"
  by (auto simp: starts_with_def) (metis append_take_drop_id)

lemma strip_prefix_Some [str_simps]: "strip_prefix s p = Some t \<longleftrightarrow> s = p @ t"
  by (auto simp: strip_prefix_def starts_with_def) (metis append_take_drop_id)

fun str_contains :: "string \<Rightarrow> string \<Rightarrow> bool" where
  "str_contains [] p = (p = [])"
| "str_contains (c # cs) p = (starts_with (c # cs) p \<or> str_contains cs p)"

lemma str_contains_iff [str_simps]: "str_contains s p \<longleftrightarrow> (\<exists>a b. s = a @ p @ b)"
proof (induction s)
  case Nil
  then show ?case by auto
next
  case (Cons c cs)
  have "(\<exists>a b. c # cs = a @ p @ b) \<longleftrightarrow> (\<exists>b. c # cs = p @ b) \<or> (\<exists>a b. cs = a @ p @ b)"
  proof
    assume "\<exists>a b. c # cs = a @ p @ b"
    then obtain a b where ab: "c # cs = a @ p @ b" by blast
    then show "(\<exists>b. c # cs = p @ b) \<or> (\<exists>a b. cs = a @ p @ b)"
      by (cases a) auto
  next
    assume "(\<exists>b. c # cs = p @ b) \<or> (\<exists>a b. cs = a @ p @ b)"
    then show "\<exists>a b. c # cs = a @ p @ b"
      by (metis append_Cons append_Nil)
  qed
  then show ?case using Cons by (simp add: starts_with_iff)
qed

text \<open>\<open>str::find\<close>: where the first occurrence starts.\<close>

fun str_find :: "string \<Rightarrow> string \<Rightarrow> nat option" where
  "str_find [] p = (if p = [] then Some 0 else None)"
| "str_find (c # cs) p = (if starts_with (c # cs) p then Some 0 else map_option Suc (str_find cs p))"

definition occurs_at :: "string \<Rightarrow> string \<Rightarrow> nat \<Rightarrow> bool" where
  "occurs_at p s i \<longleftrightarrow> i \<le> length s \<and> take (length p) (drop i s) = p"

lemma str_find_Some: "str_find s p = Some i \<Longrightarrow> occurs_at p s i \<and> i + length p \<le> length s \<and> (\<forall>j < i. \<not> occurs_at p s j)"
proof (induction s arbitrary: i)
  case Nil
  then show ?case by (auto simp: occurs_at_def split: if_splits)
next
  case (Cons c cs)
  show ?case
  proof (cases "starts_with (c # cs) p")
    case True
    then obtain t where t: "c # cs = p @ t" by (auto simp: starts_with_iff)
    then have "length p \<le> length (c # cs)" "take (length p) (c # cs) = p" by (metis le_add1 length_append, metis append_eq_conv_conj)
    moreover have "i = 0" using True Cons.prems by simp
    ultimately show ?thesis by (simp add: occurs_at_def)
  next
    case False
    then obtain k where k: "str_find cs p = Some k" "i = Suc k" using Cons.prems by auto
    have "\<not> occurs_at p (c # cs) 0" using False append_take_drop_id [of "length p" "c # cs"] by (metis drop0 occurs_at_def starts_with_iff)
    then have "\<not> occurs_at p (c # cs) j" if "j < Suc k" for j
      using that Cons.IH [OF k(1)] by (cases j) (auto simp: occurs_at_def)
    then show ?thesis using Cons.IH [OF k(1)] k(2) by (auto simp: occurs_at_def)
  qed
qed

lemma str_find_None: "str_find s p = None \<Longrightarrow> \<not> occurs_at p s i"
proof (induction s arbitrary: i)
  case Nil
  then show ?case by (auto simp: occurs_at_def split: if_splits)
next
  case (Cons c cs)
  then have "\<not> starts_with (c # cs) p" "str_find cs p = None" by (auto split: if_splits)
  moreover from this(1) have "\<not> occurs_at p (c # cs) 0"
    using append_take_drop_id [of "length p" "c # cs"] by (metis drop0 occurs_at_def starts_with_iff)
  ultimately show ?case using Cons.IH by (cases i) (auto simp: occurs_at_def)
qed

text \<open>\<open>split_once\<close> at the first, \<open>rsplit_once\<close> at the last occurrence of a separator byte.\<close>

fun split_once :: "char \<Rightarrow> string \<Rightarrow> (string \<times> string) option" where
  "split_once d [] = None"
| "split_once d (c # cs) =
     (if c = d then Some ([], cs)
      else map_option (\<lambda>(a, b). (c # a, b)) (split_once d cs))"

lemma split_once_Some [str_simps]:
  "split_once d s = Some (a, b) \<longleftrightarrow> s = a @ d # b \<and> d \<notin> set a"
proof (induction s arbitrary: a)
  case Nil
  then show ?case by simp
next
  case (Cons c cs)
  show ?case
  proof (cases a)
    case Nil
    then show ?thesis by auto
  next
    case (Cons x a')
    then show ?thesis using Cons.IH [of a'] by auto
  qed
qed

definition rsplit_once :: "char \<Rightarrow> string \<Rightarrow> (string \<times> string) option" where
  "rsplit_once d s = map_option (\<lambda>(a, b). (rev b, rev a)) (split_once d (rev s))"

text \<open>\<open>str::split\<close> at a separator byte: at least one piece.\<close>

fun split_on :: "char \<Rightarrow> string \<Rightarrow> string list" where
  "split_on d [] = [[]]"
| "split_on d (c # cs) =
     (if c = d then [] # split_on d cs
      else (case split_on d cs of [] \<Rightarrow> [[c]] | p # ps \<Rightarrow> (c # p) # ps))"

lemma split_on_ne [simp]: "split_on d s \<noteq> []"
  by (cases s) (auto split: list.split)

lemma split_on_no_sep [str_simps]: "d \<notin> set s \<Longrightarrow> split_on d s = [s]"
  by (induction s) auto

definition newline :: char where
  "newline = CHR 0x0A"

definition carriage_return :: char where
  "carriage_return = CHR 0x0D"

text \<open>
  \<open>str::lines\<close>: split after every newline, an empty last piece dropped, one trailing
  carriage return of each piece removed.
\<close>

definition strip_cr :: "string \<Rightarrow> string" where
  "strip_cr l = (if l \<noteq> [] \<and> last l = carriage_return then butlast l else l)"

text \<open>
  The last piece, which no newline ends, keeps its carriage return.
\<close>

definition lines :: "string \<Rightarrow> string list" where
  "lines s =
     (let ps = split_on newline s in
      map strip_cr (butlast ps) @ (if last ps = [] then [] else [last ps]))"

fun join_with :: "string \<Rightarrow> string list \<Rightarrow> string" where
  "join_with sep [] = []"
| "join_with sep [p] = p"
| "join_with sep (p # q # ps) = p @ sep @ join_with sep (q # ps)"

definition ascii_lower :: "char \<Rightarrow> char" where
  "ascii_lower c = (if 65 \<le> byte_of c \<and> byte_of c \<le> 90 then char_of (byte_of c + 32) else c)"

definition to_ascii_lowercase :: "string \<Rightarrow> string" where
  "to_ascii_lowercase s = map ascii_lower s"

definition eq_ignore_ascii_case :: "string \<Rightarrow> string \<Rightarrow> bool" where
  "eq_ignore_ascii_case a b \<longleftrightarrow> to_ascii_lowercase a = to_ascii_lowercase b"

section \<open>Numbers as text\<close>

definition hex_digit :: "nat \<Rightarrow> char" where
  "hex_digit n = (if n < 10 then char_of (48 + n) else char_of (87 + n))"

text \<open>\<open>{:x}\<close>: lower-case hexadecimal without leading zeros.\<close>

fun to_hex :: "nat \<Rightarrow> string" where
  "to_hex n = (if n < 16 then [hex_digit n] else to_hex (n div 16) @ [hex_digit (n mod 16)])"

declare to_hex.simps [simp del]

text \<open>\<open>{:0w x}\<close>: the \<open>w\<close> low hexadecimal digits, padded with zeros.\<close>

fun hex_pad :: "nat \<Rightarrow> nat \<Rightarrow> string" where
  "hex_pad 0 n = []"
| "hex_pad (Suc w) n = hex_pad w (n div 16) @ [hex_digit (n mod 16)]"

definition is_digit :: "char \<Rightarrow> bool" where
  "is_digit c \<longleftrightarrow> 48 \<le> byte_of c \<and> byte_of c \<le> 57"

definition digits_value :: "string \<Rightarrow> nat" where
  "digits_value s = foldl (\<lambda>n c. 10 * n + (byte_of c - 48)) 0 s"

text \<open>\<open>str::parse\<close> for an unsigned integer below \<open>bound\<close>: an optional plus sign, then digits.\<close>

definition parse_unsigned :: "nat \<Rightarrow> string \<Rightarrow> nat option" where
  "parse_unsigned bound s =
     (let ds = (case s of [] \<Rightarrow> [] | c # cs \<Rightarrow> if c = CHR ''+'' then cs else s) in
      if ds = [] \<or> \<not> list_all is_digit ds \<or> bound \<le> digits_value ds then None
      else Some (digits_value ds))"

text \<open>\<open>{}\<close> of an unsigned integer.\<close>

fun to_dec :: "nat \<Rightarrow> string" where
  "to_dec n = (if n < 10 then [char_of (48 + n)] else to_dec (n div 10) @ [char_of (48 + n mod 10)])"

declare to_dec.simps [simp del]

lemma byte_of_char_of [simp]: "n < 256 \<Longrightarrow> byte_of (char_of n) = n"
  by (simp add: byte_of_def)

lemma byte_of_less: "byte_of c < 256"
  by (simp add: byte_of_def)

lemma byte_of_inj: "byte_of a = byte_of b \<longleftrightarrow> a = b"
  by (simp add: byte_of_def)

lemma digits_value_snoc: "digits_value (s @ [c]) = 10 * digits_value s + (byte_of c - 48)"
  by (simp add: digits_value_def)

lemma to_dec_digits: "list_all is_digit (to_dec n) \<and> digits_value (to_dec n) = n \<and> to_dec n \<noteq> []"
proof (induction n rule: to_dec.induct)
  case (1 n)
  show ?case
  proof (cases "n < 10")
    case True
    then show ?thesis by (simp add: to_dec.simps [of n] is_digit_def digits_value_def)
  next
    case False
    then show ?thesis using 1 [OF False] by (simp add: to_dec.simps [of n] is_digit_def digits_value_snoc)
  qed
qed

lemma to_dec_inj: "to_dec m = to_dec n \<longleftrightarrow> m = n"
  by (metis to_dec_digits)

lemma to_dec_no_dot: "CHR ''.'' \<notin> set (to_dec n)"
  using to_dec_digits [of n] by (auto simp: list_all_iff is_digit_def byte_of_def)

lemma hex_digit_byte:
  "n < 16 \<Longrightarrow> byte_of (hex_digit n) = (if n < 10 then 48 + n else 87 + n)"
  by (simp add: hex_digit_def)

lemma hex_digit_inj: "a < 16 \<Longrightarrow> b < 16 \<Longrightarrow> hex_digit a = hex_digit b \<longleftrightarrow> a = b"
  by (auto simp: byte_of_inj [symmetric] hex_digit_byte split: if_splits)

lemma hex_digit_alnum: "n < 16 \<Longrightarrow> is_ascii_alphanumeric (hex_digit n)"
  by (simp add: is_ascii_alphanumeric_def hex_digit_byte)

lemma to_hex_alnum: "list_all is_ascii_alphanumeric (to_hex n)"
proof (induction n rule: to_hex.induct)
  case (1 n)
  then show ?case
    by (cases "n < 16") (simp_all add: to_hex.simps [of n] hex_digit_alnum)
qed

lemma to_hex_nonempty [simp]: "to_hex n \<noteq> []"
  by (subst to_hex.simps) simp

lemma to_hex_inj: "to_hex m = to_hex n \<longleftrightarrow> m = n"
proof
  show "to_hex m = to_hex n \<Longrightarrow> m = n"
  proof (induction m arbitrary: n rule: to_hex.induct)
    case (1 m)
    show ?case
    proof (cases "m < 16 \<or> n < 16")
      case True
      then show ?thesis using "1.prems" to_hex_nonempty [of "n div 16"] to_hex_nonempty [of "m div 16"]
        by (auto simp: to_hex.simps [of m] to_hex.simps [of n] hex_digit_inj simp del: to_hex_nonempty
            split: if_splits)
    next
      case False
      then have "to_hex (m div 16) = to_hex (n div 16)" and "hex_digit (m mod 16) = hex_digit (n mod 16)"
        using "1.prems" by (auto simp: to_hex.simps [of m] to_hex.simps [of n])
      then have "m div 16 = n div 16" and "m mod 16 = n mod 16"
        using "1.IH" False by (auto simp: hex_digit_inj)
      then show ?thesis by (metis div_mult_mod_eq)
    qed
  qed
qed simp

lemma to_hex_length: "n < 16 ^ w \<Longrightarrow> 0 < w \<Longrightarrow> length (to_hex n) \<le> w"
proof (induction w arbitrary: n)
  case 0
  then show ?case by simp
next
  case (Suc w)
  show ?case
  proof (cases "n < 16")
    case True
    then show ?thesis by (simp add: to_hex.simps [of n])
  next
    case False
    then have "w \<noteq> 0" using Suc.prems(1) by (cases w) auto
    moreover have "n div 16 < 16 ^ w" using Suc.prems(1) by (simp add: div_less_iff_less_mult mult.commute)
    ultimately have "length (to_hex (n div 16)) \<le> w" using Suc.IH by simp
    with False show ?thesis by (simp add: to_hex.simps [of n])
  qed
qed

lemma hex_pad_length [simp]: "length (hex_pad w n) = w"
  by (induction w arbitrary: n) auto

lemma hex_pad_inj: "m < 16 ^ w \<Longrightarrow> n < 16 ^ w \<Longrightarrow> hex_pad w m = hex_pad w n \<longleftrightarrow> m = n"
proof (induction w arbitrary: m n)
  case 0
  then show ?case by simp
next
  case (Suc w)
  have "m div 16 < 16 ^ w" and "n div 16 < 16 ^ w"
    using Suc.prems by (simp_all add: div_less_iff_less_mult mult.commute)
  then have "hex_pad w (m div 16) = hex_pad w (n div 16) \<longleftrightarrow> m div 16 = n div 16"
    by (rule Suc.IH)
  moreover have "m = n \<longleftrightarrow> m div 16 = n div 16 \<and> m mod 16 = n mod 16"
    by (metis div_mult_mod_eq)
  ultimately show ?case by (simp add: hex_digit_inj)
qed

section \<open>Lists and association lists\<close>

lemma map_of_update_eq [simp]:
  "map_of (AList.update k v al) x = (if x = k then Some v else map_of al x)"
  by (simp add: update_conv')

lemma set_update_alist:
  "distinct (map fst al) \<Longrightarrow> (x, y) \<in> set (AList.update k v al) \<longleftrightarrow>
     (x = k \<and> y = v) \<or> (x \<noteq> k \<and> (x, y) \<in> set al)"
  using distinct_update [of al k v] map_of_eq_Some_iff [of "AList.update k v al" x y]
    map_of_eq_Some_iff [of al x y]
  by (auto split: if_splits)

lemma keys_update: "set (map fst (AList.update k v al)) = insert k (set (map fst al))"
  by (induction al) auto

lemma list_all_take: "list_all P xs \<Longrightarrow> list_all P (take n xs)"
  by (auto simp: list_all_iff dest: in_set_takeD)

lemma find_Some_mem: "List.find P xs = Some x \<Longrightarrow> x \<in> set xs \<and> P x"
  by (auto simp: find_Some_iff)

lemma find_None_mem: "List.find P xs = None \<longleftrightarrow> (\<forall>x \<in> set xs. \<not> P x)"
  by (auto simp: find_None_iff)

end
