(* ===== verification/SourceWire.thy ===== *)
theory SourceWire
  imports Prelude
begin

text \<open>
  \<^verbatim>\<open>crates/core/src/source_wire.rs\<close>: the closed vocabularies of the wire (approval
  policies, sandboxes, turn statuses, approval decisions, item types), the parsers that
  reject every other word, and the records the ledger stores.

  Field names carry the type's name where Rust's field name alone would clash
  (\<open>Turn::id\<close> is \<open>turn_id\<close>). A parse error keeps the kind and the offending value,
  which is what its \<open>Display\<close> text is made of.
\<close>

section \<open>Constants\<close>

definition MAX_HTTP_UPGRADE_BYTES :: nat where
  "MAX_HTTP_UPGRADE_BYTES = 16 * 1024"

definition MAX_WEBSOCKET_FRAME_BYTES :: nat where
  "MAX_WEBSOCKET_FRAME_BYTES = 16 * 1024 * 1024"

definition CLIENT_METHODS :: "string list" where
  "CLIENT_METHODS =
     [''initialize'', ''account/read'', ''model/list'', ''thread/start'', ''thread/resume'',
      ''thread/read'', ''thread/fork'', ''turn/start'', ''turn/interrupt'']"

definition NOTIFY_ITEM_STARTED :: string where
  "NOTIFY_ITEM_STARTED = ''item/started''"

definition NOTIFY_ITEM_COMPLETED :: string where
  "NOTIFY_ITEM_COMPLETED = ''item/completed''"

definition NOTIFY_TURN_COMPLETED :: string where
  "NOTIFY_TURN_COMPLETED = ''turn/completed''"

definition NOTIFY_THREAD_STARTED :: string where
  "NOTIFY_THREAD_STARTED = ''thread/started''"

definition REQUEST_COMMAND_APPROVAL :: string where
  "REQUEST_COMMAND_APPROVAL = ''item/commandExecution/requestApproval''"

definition REQUEST_FILE_CHANGE_APPROVAL :: string where
  "REQUEST_FILE_CHANGE_APPROVAL = ''item/fileChange/requestApproval''"

definition FAILURE_WORKER_GONE :: string where
  "FAILURE_WORKER_GONE = ''worker_gone''"

definition ITEM_USER_MESSAGE :: string where "ITEM_USER_MESSAGE = ''userMessage''"
definition ITEM_AGENT_MESSAGE :: string where "ITEM_AGENT_MESSAGE = ''agentMessage''"
definition ITEM_PLAN :: string where "ITEM_PLAN = ''plan''"
definition ITEM_COMMAND_EXECUTION :: string where "ITEM_COMMAND_EXECUTION = ''commandExecution''"
definition ITEM_FILE_CHANGE :: string where "ITEM_FILE_CHANGE = ''fileChange''"
definition ITEM_WEB_SEARCH :: string where "ITEM_WEB_SEARCH = ''webSearch''"

lemmas item_type_defs = ITEM_USER_MESSAGE_def ITEM_AGENT_MESSAGE_def ITEM_PLAN_def
  ITEM_COMMAND_EXECUTION_def ITEM_FILE_CHANGE_def ITEM_WEB_SEARCH_def

definition PUBLIC_ITEM_TYPES :: "string list" where
  "PUBLIC_ITEM_TYPES =
     [ITEM_USER_MESSAGE, ITEM_AGENT_MESSAGE, ITEM_PLAN, ITEM_COMMAND_EXECUTION,
      ITEM_FILE_CHANGE, ITEM_WEB_SEARCH]"

definition EXCLUDED_FATAL_ITEM_TYPES :: "string list" where
  "EXCLUDED_FATAL_ITEM_TYPES = [''collabAgentToolCall'', ''subAgentActivity'']"

section \<open>Closed vocabularies\<close>

datatype approval_policy = Untrusted | OnRequest | Never

fun approval_policy_as_str :: "approval_policy \<Rightarrow> string" where
  "approval_policy_as_str Untrusted = ''untrusted''"
| "approval_policy_as_str OnRequest = ''on-request''"
| "approval_policy_as_str Never = ''never''"

datatype thread_sandbox = ReadOnly | WorkspaceWrite

fun thread_sandbox_as_str :: "thread_sandbox \<Rightarrow> string" where
  "thread_sandbox_as_str ReadOnly = ''read-only''"
| "thread_sandbox_as_str WorkspaceWrite = ''workspace-write''"

definition DEFAULT_APPROVAL_POLICY :: approval_policy where
  "DEFAULT_APPROVAL_POLICY = Never"

definition DEFAULT_THREAD_SANDBOX :: thread_sandbox where
  "DEFAULT_THREAD_SANDBOX = WorkspaceWrite"

definition APP_SERVER_DEFAULT_APPROVAL_POLICY :: approval_policy where
  "APP_SERVER_DEFAULT_APPROVAL_POLICY = Untrusted"

definition APP_SERVER_DEFAULT_THREAD_SANDBOX :: thread_sandbox where
  "APP_SERVER_DEFAULT_THREAD_SANDBOX = ReadOnly"

datatype turn_sandbox_type = TurnReadOnly | TurnWorkspaceWrite

fun turn_sandbox_type_as_str :: "turn_sandbox_type \<Rightarrow> string" where
  "turn_sandbox_type_as_str TurnReadOnly = ''readOnly''"
| "turn_sandbox_type_as_str TurnWorkspaceWrite = ''workspaceWrite''"

fun to_thread_sandbox :: "turn_sandbox_type \<Rightarrow> thread_sandbox" where
  "to_thread_sandbox TurnReadOnly = ReadOnly"
| "to_thread_sandbox TurnWorkspaceWrite = WorkspaceWrite"

datatype turn_status = InProgress | Completed | Interrupted | Failed

fun turn_status_as_str :: "turn_status \<Rightarrow> string" where
  "turn_status_as_str InProgress = ''inProgress''"
| "turn_status_as_str Completed = ''completed''"
| "turn_status_as_str Interrupted = ''interrupted''"
| "turn_status_as_str Failed = ''failed''"

fun is_terminal :: "turn_status \<Rightarrow> bool" where
  "is_terminal InProgress = False"
| "is_terminal Completed = True"
| "is_terminal Interrupted = True"
| "is_terminal Failed = True"

datatype approval_decision = Accept | AcceptForSession | Decline | Cancel

fun approval_decision_as_str :: "approval_decision \<Rightarrow> string" where
  "approval_decision_as_str Accept = ''accept''"
| "approval_decision_as_str AcceptForSession = ''acceptForSession''"
| "approval_decision_as_str Decline = ''decline''"
| "approval_decision_as_str Cancel = ''cancel''"

section \<open>Records\<close>

record user_input =
  input_kind :: string
  input_text :: string

record item =
  item_id :: string
  item_type :: string
  item_text :: string
  item_status :: string

record wire_thread =
  thread_id :: string
  thread_cwd :: string
  thread_model :: string
  thread_sandbox :: thread_sandbox
  thread_approval_policy :: approval_policy
  developer_instructions :: string
  acp_session_id :: string
  in_progress_turn_id :: string

record turn =
  turn_id :: string
  turn_thread_id :: string
  turn_generation_id :: string
  turn_status :: turn_status
  turn_input :: "user_input list"
  turn_model :: string
  turn_effort :: string
  stop_reason :: string
  failure_reason :: string
  client_request_id :: string
  pending_request_id :: string
  pending_decision :: string
  turn_items :: "item list"

definition pending_approval :: "turn \<Rightarrow> bool" where
  "pending_approval t \<longleftrightarrow>
     \<not> is_terminal (turn_status t) \<and> pending_request_id t \<noteq> [] \<and> pending_decision t = []"

record generation =
  gen_id :: string
  gen_turn_id :: string
  owner_pid :: u32
  started_epoch :: u64
  child_pid :: "u32 option"
  child_started_epoch :: "u64 option"
  child_eof :: bool

record unsupported_value_error =
  unsupported_kind :: string
  unsupported_value :: string

section \<open>Parsers\<close>

abbreviation unsupported :: "string \<Rightarrow> string \<Rightarrow> unsupported_value_error + 'a" where
  "unsupported k v \<equiv> Inl \<lparr>unsupported_kind = k, unsupported_value = v\<rparr>"

definition parse_approval_policy :: "string \<Rightarrow> unsupported_value_error + approval_policy" where
  "parse_approval_policy v =
     (if v = ''untrusted'' then Inr Untrusted
      else if v = ''on-request'' then Inr OnRequest
      else if v = ''never'' then Inr Never
      else unsupported ''approvalPolicy'' v)"

definition parse_thread_sandbox :: "string \<Rightarrow> unsupported_value_error + thread_sandbox" where
  "parse_thread_sandbox v =
     (if v = ''read-only'' then Inr ReadOnly
      else if v = ''workspace-write'' then Inr WorkspaceWrite
      else unsupported ''sandbox'' v)"

definition parse_turn_sandbox_type :: "string \<Rightarrow> unsupported_value_error + turn_sandbox_type" where
  "parse_turn_sandbox_type v =
     (if v = ''readOnly'' then Inr TurnReadOnly
      else if v = ''workspaceWrite'' then Inr TurnWorkspaceWrite
      else unsupported ''sandboxPolicy.type'' v)"

definition parse_approval_decision :: "string \<Rightarrow> unsupported_value_error + approval_decision" where
  "parse_approval_decision v =
     (if v = ''accept'' then Inr Accept
      else if v = ''acceptForSession'' then Inr AcceptForSession
      else if v = ''decline'' then Inr Decline
      else if v = ''cancel'' then Inr Cancel
      else unsupported ''approvalDecision'' v)"

definition parse_turn_status :: "string \<Rightarrow> unsupported_value_error + turn_status" where
  "parse_turn_status v =
     (if v = ''inProgress'' then Inr InProgress
      else if v = ''completed'' then Inr Completed
      else if v = ''interrupted'' then Inr Interrupted
      else if v = ''failed'' then Inr Failed
      else unsupported ''turnStatus'' v)"

definition map_stop_reason :: "string \<Rightarrow> turn_status" where
  "map_stop_reason r =
     (if r = ''end_turn'' then Completed
      else if r = ''cancelled'' then Interrupted
      else Failed)"

definition known_item_type :: "string \<Rightarrow> bool \<times> bool" where
  "known_item_type t =
     (if t \<in> set PUBLIC_ITEM_TYPES then (True, False)
      else if t \<in> set EXCLUDED_FATAL_ITEM_TYPES then (False, True)
      else (False, False))"

section \<open>The vocabulary contract\<close>

text \<open>The enums are finite: each is an instance of the class \<open>enum\<close>, with its constructors in the source's order.\<close>

instantiation approval_policy :: enum
begin

definition enum_approval_policy :: "approval_policy list" where
  "enum_approval_policy = [Untrusted, OnRequest, Never]"

definition enum_all_approval_policy :: "(approval_policy \<Rightarrow> bool) \<Rightarrow> bool" where
  "enum_all_approval_policy P \<longleftrightarrow> P Untrusted \<and> P OnRequest \<and> P Never"

definition enum_ex_approval_policy :: "(approval_policy \<Rightarrow> bool) \<Rightarrow> bool" where
  "enum_ex_approval_policy P \<longleftrightarrow> P Untrusted \<or> P OnRequest \<or> P Never"

instance
proof (standard, goal_cases)
  case 1
  then show ?case unfolding enum_approval_policy_def by (auto intro: approval_policy.exhaust)
qed (auto simp: enum_approval_policy_def enum_all_approval_policy_def enum_ex_approval_policy_def intro: approval_policy.induct, metis approval_policy.exhaust)

end

instantiation thread_sandbox :: enum
begin

definition enum_thread_sandbox :: "thread_sandbox list" where
  "enum_thread_sandbox = [ReadOnly, WorkspaceWrite]"

definition enum_all_thread_sandbox :: "(thread_sandbox \<Rightarrow> bool) \<Rightarrow> bool" where
  "enum_all_thread_sandbox P \<longleftrightarrow> P ReadOnly \<and> P WorkspaceWrite"

definition enum_ex_thread_sandbox :: "(thread_sandbox \<Rightarrow> bool) \<Rightarrow> bool" where
  "enum_ex_thread_sandbox P \<longleftrightarrow> P ReadOnly \<or> P WorkspaceWrite"

instance
proof (standard, goal_cases)
  case 1
  then show ?case unfolding enum_thread_sandbox_def by (auto intro: thread_sandbox.exhaust)
qed (auto simp: enum_thread_sandbox_def enum_all_thread_sandbox_def enum_ex_thread_sandbox_def intro: thread_sandbox.induct, metis thread_sandbox.exhaust)

end

instantiation turn_sandbox_type :: enum
begin

definition enum_turn_sandbox_type :: "turn_sandbox_type list" where
  "enum_turn_sandbox_type = [TurnReadOnly, TurnWorkspaceWrite]"

definition enum_all_turn_sandbox_type :: "(turn_sandbox_type \<Rightarrow> bool) \<Rightarrow> bool" where
  "enum_all_turn_sandbox_type P \<longleftrightarrow> P TurnReadOnly \<and> P TurnWorkspaceWrite"

definition enum_ex_turn_sandbox_type :: "(turn_sandbox_type \<Rightarrow> bool) \<Rightarrow> bool" where
  "enum_ex_turn_sandbox_type P \<longleftrightarrow> P TurnReadOnly \<or> P TurnWorkspaceWrite"

instance
proof (standard, goal_cases)
  case 1
  then show ?case unfolding enum_turn_sandbox_type_def by (auto intro: turn_sandbox_type.exhaust)
qed (auto simp: enum_turn_sandbox_type_def enum_all_turn_sandbox_type_def enum_ex_turn_sandbox_type_def intro: turn_sandbox_type.induct, metis turn_sandbox_type.exhaust)

end

instantiation approval_decision :: enum
begin

definition enum_approval_decision :: "approval_decision list" where
  "enum_approval_decision = [Accept, AcceptForSession, Decline, Cancel]"

definition enum_all_approval_decision :: "(approval_decision \<Rightarrow> bool) \<Rightarrow> bool" where
  "enum_all_approval_decision P \<longleftrightarrow> P Accept \<and> P AcceptForSession \<and> P Decline \<and> P Cancel"

definition enum_ex_approval_decision :: "(approval_decision \<Rightarrow> bool) \<Rightarrow> bool" where
  "enum_ex_approval_decision P \<longleftrightarrow> P Accept \<or> P AcceptForSession \<or> P Decline \<or> P Cancel"

instance
proof (standard, goal_cases)
  case 1
  then show ?case unfolding enum_approval_decision_def by (auto intro: approval_decision.exhaust)
qed (auto simp: enum_approval_decision_def enum_all_approval_decision_def enum_ex_approval_decision_def intro: approval_decision.induct, metis approval_decision.exhaust)

end

instantiation turn_status :: enum
begin

definition enum_turn_status :: "turn_status list" where
  "enum_turn_status = [InProgress, Completed, Interrupted, Failed]"

definition enum_all_turn_status :: "(turn_status \<Rightarrow> bool) \<Rightarrow> bool" where
  "enum_all_turn_status P \<longleftrightarrow> P InProgress \<and> P Completed \<and> P Interrupted \<and> P Failed"

definition enum_ex_turn_status :: "(turn_status \<Rightarrow> bool) \<Rightarrow> bool" where
  "enum_ex_turn_status P \<longleftrightarrow> P InProgress \<or> P Completed \<or> P Interrupted \<or> P Failed"

instance
proof (standard, goal_cases)
  case 1
  then show ?case unfolding enum_turn_status_def by (auto intro: turn_status.exhaust)
qed (auto simp: enum_turn_status_def enum_all_turn_status_def enum_ex_turn_status_def intro: turn_status.induct, metis turn_status.exhaust)

end

lemmas enum_defs = enum_approval_policy_def enum_thread_sandbox_def enum_turn_sandbox_type_def enum_approval_decision_def enum_turn_status_def

text \<open>
  What the serialiser and the parser of each closed enum promise each other: different words,
  and a parser that looks its word up among them. The locale states the contract once; every enum of the
  wire interprets it on its own \<open>as_str\<close> and parser.
\<close>

locale closed_vocabulary =
  fixes as_str :: "'a :: enum \<Rightarrow> string"
    and parse :: "string \<Rightarrow> unsupported_value_error + 'a"
    and kind :: string
  assumes words_differ: "distinct (map as_str enum_class.enum)"
    and parse_lookup: "parse v = (case List.find (\<lambda>x. v = as_str x) enum_class.enum of Some x \<Rightarrow> Inr x | None \<Rightarrow> unsupported kind v)"
begin

lemma as_str_inj: "as_str x = as_str y \<longleftrightarrow> x = y"
  using words_differ by (auto simp: distinct_map inj_on_def UNIV_enum [symmetric])

lemma parse_as_str: "parse (as_str x) = Inr x"
proof -
  have "List.find (\<lambda>y. as_str x = as_str y) enum_class.enum = Some x"
  proof (cases "List.find (\<lambda>y. as_str x = as_str y) enum_class.enum")
    case None
    then have "\<not> (\<exists>y. y \<in> set enum_class.enum \<and> as_str x = as_str y)" unfolding find_None_iff .
    then show ?thesis by (auto simp: UNIV_enum [symmetric])
  next
    case (Some y)
    then show ?thesis by (auto simp: find_Some_iff as_str_inj)
  qed
  then show ?thesis by (simp add: parse_lookup)
qed

lemma parse_reject: "v \<notin> range as_str \<Longrightarrow> parse v = unsupported kind v"
  by (auto simp: parse_lookup find_None_iff split: option.split dest: sym)

lemma parse_Inr_iff: "parse v = Inr x \<longleftrightarrow> v = as_str x"
proof
  assume p: "parse v = Inr x"
  then have "v \<in> range as_str" using parse_reject by (metis sum.distinct(1))
  with p show "v = as_str x" by (auto simp: parse_as_str)
qed (simp add: parse_as_str)

lemma parse_total: "(\<exists>x. v = as_str x \<and> parse v = Inr x) \<or> parse v = unsupported kind v"
proof (cases "v \<in> range as_str")
  case True
  then show ?thesis by (auto simp: parse_as_str)
qed (simp add: parse_reject)

end

interpretation approval_policies: closed_vocabulary approval_policy_as_str parse_approval_policy "''approvalPolicy''"
  by unfold_locales (simp_all add: enum_defs parse_approval_policy_def)

interpretation thread_sandboxes: closed_vocabulary thread_sandbox_as_str parse_thread_sandbox "''sandbox''"
  by unfold_locales (simp_all add: enum_defs parse_thread_sandbox_def)

interpretation turn_sandbox_types: closed_vocabulary turn_sandbox_type_as_str parse_turn_sandbox_type "''sandboxPolicy.type''"
  by unfold_locales (simp_all add: enum_defs parse_turn_sandbox_type_def)

interpretation approval_decisions: closed_vocabulary approval_decision_as_str parse_approval_decision "''approvalDecision''"
  by unfold_locales (simp_all add: enum_defs parse_approval_decision_def)

interpretation turn_statuses: closed_vocabulary turn_status_as_str parse_turn_status "''turnStatus''"
  by unfold_locales (simp_all add: enum_defs parse_turn_status_def)

lemma approval_decision_as_str_nonempty [simp]: "approval_decision_as_str d \<noteq> []"
  by (cases d) simp_all

lemma is_terminal_iff: "is_terminal st \<longleftrightarrow> st \<noteq> InProgress"
  by (cases st) simp_all

lemma map_stop_reason_terminal [simp]: "is_terminal (map_stop_reason r)"
  by (simp add: map_stop_reason_def)

end
