(* ===== verification/Home.thy ===== *)
theory Home
  imports Prelude
begin

text \<open>
  \<^verbatim>\<open>crates/core/src/home.rs\<close>: which directory is the ledger home. A path is its
  bytes; on Unix it is absolute when it starts with a slash. The process environment is an
  argument: the values of \<open>GAMCHI_HOME\<close> and \<open>HOME\<close>.
\<close>

definition ENV_HOME :: string where
  "ENV_HOME = ''GAMCHI_HOME''"

definition DEFAULT_DIR_NAME :: string where
  "DEFAULT_DIR_NAME = ''.gamchi''"

text \<open>\<open>Path::is_absolute\<close> and \<open>Path::join\<close> of the standard library.\<close>

definition is_absolute :: "string \<Rightarrow> bool" where
  "is_absolute p \<longleftrightarrow> starts_with p ''/''"

definition path_join :: "string \<Rightarrow> string \<Rightarrow> string" where
  "path_join a b =
     (if is_absolute b then b
      else if a = [] \<or> last a = CHR ''/'' then a @ b
      else a @ ''/'' @ b)"

record home_error =
  home_reason :: string

definition require_absolute :: "string \<Rightarrow> string \<Rightarrow> home_error + string" where
  "require_absolute path label =
     (if path = [] then Inl \<lparr>home_reason = label @ '' is empty''\<rparr>
      else if \<not> is_absolute path then Inl \<lparr>home_reason = label @ '' must be an absolute path''\<rparr>
      else Inr path)"

definition resolve_home :: "string option \<Rightarrow> string option \<Rightarrow> string \<Rightarrow> home_error + string" where
  "resolve_home explicit env_home user_home =
     (case explicit of
        Some path \<Rightarrow> require_absolute path ''--home''
      | None \<Rightarrow>
          (case env_home of
             Some path \<Rightarrow>
               if path \<noteq> [] then require_absolute path ENV_HOME
               else if \<not> is_absolute user_home then Inl \<lparr>home_reason = ''user home must be absolute''\<rparr>
               else Inr (path_join user_home DEFAULT_DIR_NAME)
           | None \<Rightarrow>
               if \<not> is_absolute user_home then Inl \<lparr>home_reason = ''user home must be absolute''\<rparr>
               else Inr (path_join user_home DEFAULT_DIR_NAME)))"

text \<open>\<open>env\<close> is \<open>std::env::var_os\<close> at the time of the call.\<close>

definition resolve_home_from_os :: "(string \<Rightarrow> string option) \<Rightarrow> string option \<Rightarrow> home_error + string" where
  "resolve_home_from_os env explicit =
     (case env ''HOME'' of
        None \<Rightarrow> Inl \<lparr>home_reason = ''HOME is unset''\<rparr>
      | Some user_home \<Rightarrow> resolve_home explicit (env ENV_HOME) user_home)"

lemma is_absolute_Cons: "is_absolute p \<longleftrightarrow> (\<exists>q. p = CHR ''/'' # q)"
  by (auto simp: is_absolute_def str_simps)

lemma is_absolute_append: "is_absolute a \<Longrightarrow> is_absolute (a @ b)"
  by (auto simp: is_absolute_Cons)

lemma path_join_absolute: "is_absolute a \<Longrightarrow> is_absolute (path_join a b)"
  by (simp add: path_join_def is_absolute_append)

lemma require_absolute_Inr: "require_absolute p l = Inr q \<longleftrightarrow> q = p \<and> is_absolute p"
  by (auto simp: require_absolute_def is_absolute_Cons)

end
