(* ===== verification/Liveness.thy ===== *)
theory Liveness
  imports Prelude
begin

text \<open>
  \<^verbatim>\<open>crates/core/src/ledger.rs\<close>, process liveness: does a pid still name the process that
  was started by a given epoch second. What the operating system answers is a record:
  the contents of \<^verbatim>\<open>/proc/<pid>/stat\<close> and \<^verbatim>\<open>/proc/stat\<close>, the clock tick rate, and
  on macOS the two fields of \<^verbatim>\<open>proc_pidinfo\<close> that the code reads.
\<close>

record proc_bsd_info =
  pbi_status :: u32
  pbi_start_tvsec :: u64

record os_procs =
  is_macos :: bool
  pidinfo :: "u32 \<Rightarrow> proc_bsd_info option"
  pid_stat :: "u32 \<Rightarrow> string option"
  stat_file :: "string option"
  clk_tck :: int

definition SZOMB :: u32 where
  "SZOMB = 5"

text \<open>\<open>str::split_whitespace\<close>: the maximal runs of characters that are not white space.\<close>

fun split_ws_from :: "string \<Rightarrow> string list \<Rightarrow> string list" where
  "split_ws_from acc [] = (if acc = [] then [] else [acc])"
| "split_ws_from acc (ch # chs) =
     (if is_whitespace ch then (if acc = [] then split_ws_from [] chs else acc # split_ws_from [] chs)
      else split_ws_from (acc @ ch) chs)"

definition split_whitespace :: "string \<Rightarrow> string list" where
  "split_whitespace s = split_ws_from [] (utf8_chars s)"

definition parse_u64 :: "string \<Rightarrow> u64 option" where
  "parse_u64 s = map_option of_nat (parse_unsigned (2 ^ 64) s)"

text \<open>
  The state letter and the start time (field 22 of the file). The command name, field 2, is in
  parentheses and may hold anything, so the fields are counted after the last one.
\<close>

definition parse_proc_stat :: "string \<Rightarrow> (string \<times> u64) option" where
  "parse_proc_stat body =
     (case rsplit_once (CHR '')'') body of
        None \<Rightarrow> None
      | Some (_, tail) \<Rightarrow>
          (case split_whitespace (trim_start tail) of
             [] \<Rightarrow> None
           | f # flds \<Rightarrow>
               (case utf8_chars f of
                  [] \<Rightarrow> None
                | state # _ \<Rightarrow>
                    if length flds \<le> 18 then None
                    else map_option (\<lambda>start_ticks. (state, start_ticks)) (parse_u64 (flds ! 18)))))"

definition proc_stat_alive :: "string \<Rightarrow> u64 option \<Rightarrow> u64 option \<Rightarrow> bool" where
  "proc_stat_alive body start_epoch_secs not_started_after =
     (case parse_proc_stat body of
        None \<Rightarrow> False
      | Some (state, _) \<Rightarrow>
          if state = ''Z'' then False
          else (case (not_started_after, start_epoch_secs) of
                  (Some epoch, Some started) \<Rightarrow> \<not> started > epoch
                | _ \<Rightarrow> True))"

definition saturating_add_u64 :: "u64 \<Rightarrow> u64 \<Rightarrow> u64" where
  "saturating_add_u64 a b = (if unat a + unat b < 2 ^ 64 then a + b else - 1)"

fun find_map :: "('a \<Rightarrow> 'b option) \<Rightarrow> 'a list \<Rightarrow> 'b option" where
  "find_map f [] = None"
| "find_map f (x # xs) = (case f x of Some y \<Rightarrow> Some y | None \<Rightarrow> find_map f xs)"

definition linux_start_epoch_secs :: "os_procs \<Rightarrow> u64 \<Rightarrow> u64 option" where
  "linux_start_epoch_secs os start_ticks =
     (if clk_tck os \<le> 0 then None
      else case stat_file os of
        None \<Rightarrow> None
      | Some body \<Rightarrow>
          (case find_map (\<lambda>line. case strip_prefix line ''btime '' of
                              None \<Rightarrow> None
                            | Some v \<Rightarrow> parse_u64 (trim v)) (lines body) of
             None \<Rightarrow> None
           | Some btime \<Rightarrow>
               Some (saturating_add_u64 btime (start_ticks div of_int (clk_tck os)))))"

definition proc_bsdinfo :: "os_procs \<Rightarrow> u32 \<Rightarrow> proc_bsd_info option" where
  "proc_bsdinfo os pid = (if is_macos os then pidinfo os pid else None)"

definition process_alive :: "os_procs \<Rightarrow> u32 \<Rightarrow> u64 option \<Rightarrow> bool" where
  "process_alive os pid not_started_after =
     (if pid = 0 then False
      else case proc_bsdinfo os pid of
        Some info \<Rightarrow>
          if pbi_status info = SZOMB then False
          else (case not_started_after of
                  Some epoch \<Rightarrow> \<not> pbi_start_tvsec info > epoch
                | None \<Rightarrow> True)
      | None \<Rightarrow>
          if is_macos os then False
          else (case pid_stat os pid of
                  None \<Rightarrow> False
                | Some body \<Rightarrow>
                    proc_stat_alive body
                      (case parse_proc_stat body of
                         None \<Rightarrow> None
                       | Some (_, start_ticks) \<Rightarrow> linux_start_epoch_secs os start_ticks)
                      not_started_after))"

section \<open>Facts\<close>

lemma rsplit_once_last: "d \<notin> set b \<Longrightarrow> rsplit_once d (a @ d # b) = Some (a, b)"
proof -
  assume "d \<notin> set b"
  then have "split_once d (rev (a @ d # b)) = Some (rev b, rev a)"
    by (simp add: split_once_Some)
  then show ?thesis by (simp add: rsplit_once_def)
qed

text \<open>Only what follows the last closing parenthesis matters: any command name is skipped.\<close>

lemma parse_proc_stat_comm:
  "CHR '')'' \<notin> set tail \<Longrightarrow>
     parse_proc_stat (a @ CHR '')'' # tail) = parse_proc_stat (b @ CHR '')'' # tail)"
  by (simp add: parse_proc_stat_def rsplit_once_last)

lemma process_alive_zero [simp]: "\<not> process_alive os 0 e"
  by (simp add: process_alive_def)

end
