(* ===== verification/Store.thy ===== *)
theory Store
  imports SourceWire Home Liveness
begin

text \<open>
  \<^verbatim>\<open>crates/core/src/ledger.rs\<close>, the layer below the ledger's operations: identifiers,
  file names, the directories of JSON records and the primitive actions that read and write
  them, with the state all of it works on.

  The state holds the four directories of one ledger home, what the operating system can
  answer (faults of single file operations, the clock, the process table) and the state the
  running processes keep in memory. A process may have several open \<open>Ledger\<close> values; each is
  a number, the \<open>self\<close> argument of every operation, and \<open>pid_of\<close> says whose it is. Reading
  the clock consumes one reading of an arbitrary stream.
\<close>

section \<open>Errors\<close>

datatype io_kind = IoNotFound | IoOther

text \<open>
  The messages of \<open>LedgerError::InvalidStatus\<close>; the last is the text of a parse error.
\<close>

datatype status_message =
    NeedsTerminal
  | AlreadyPending string string
  | UnknownRequest string
  | StaleRequest string
  | DuplicateRequest string
  | BadDecision unsupported_value_error

datatype ledger_error =
    Io io_kind
  | Json
  | NotFound string string
  | TurnInProgress string string
  | AlreadyTerminal string turn_status
  | InvalidHome string
  | InvalidId string
  | InvalidStatus status_message

section \<open>Identifiers and file names\<close>

definition id_char :: "char \<Rightarrow> bool" where
  "id_char c \<longleftrightarrow> is_ascii_alphanumeric c \<or> c = CHR ''-'' \<or> c = CHR ''_''"

text \<open>
  The source walks over \<open>chars()\<close>; a character beyond ASCII has bytes from 128 up, none of
  which is alphanumeric, so the test on bytes is the same.
\<close>

definition valid_id :: "string \<Rightarrow> bool" where
  "valid_id i \<longleftrightarrow> \<not> (i = [] \<or> length i > 128 \<or> \<not> list_all id_char i)"

definition validate_id :: "string \<Rightarrow> ledger_error + unit" where
  "validate_id i = if_ok (valid_id i) (InvalidId i)"

unbundle bit_operations_syntax

definition fnv1a :: "string \<Rightarrow> u64" where
  "fnv1a i =
     foldl (\<lambda>h b. (h XOR of_nat (byte_of b)) * 0x100000001b3) 0xcbf29ce484222325 i"

definition client_filename :: "string \<Rightarrow> string" where
  "client_filename i =
     (let s = concat (map (\<lambda>b. hex_pad 2 (byte_of b)) i) in
      if length s \<le> 200 then s else ''h'' @ hex_pad 16 (unat (fnv1a i)))"

definition json_name :: "string \<Rightarrow> string" where
  "json_name i = i @ ''.json''"

text \<open>The files of a home, by role; \<open>render_path\<close> is their path below it.\<close>

datatype fpath =
    ThreadPath string | ThreadLockPath string | TurnPath string
  | GenerationPath string | GenerationLockPath string | GenerationLivePath string
  | ClientPath string | AdmitLockPath | TurnsDirPath | HomeDirs

definition thread_path :: "string \<Rightarrow> string \<Rightarrow> string" where
  "thread_path home i = path_join (path_join home ''threads'') (i @ ''.json'')"

definition thread_lock_path :: "string \<Rightarrow> string \<Rightarrow> string" where
  "thread_lock_path home i = path_join (path_join home ''threads'') (i @ ''.lock'')"

definition turn_path :: "string \<Rightarrow> string \<Rightarrow> string" where
  "turn_path home i = path_join (path_join home ''turns'') (i @ ''.json'')"

definition generation_path :: "string \<Rightarrow> string \<Rightarrow> string" where
  "generation_path home i = path_join (path_join home ''generations'') (i @ ''.json'')"

definition generation_lock_path :: "string \<Rightarrow> string \<Rightarrow> string" where
  "generation_lock_path home i = path_join (path_join home ''generations'') (i @ ''.lock'')"

definition generation_live_path :: "string \<Rightarrow> string \<Rightarrow> string" where
  "generation_live_path home i = path_join (path_join home ''generations'') (i @ ''.live'')"

definition client_path :: "string \<Rightarrow> string \<Rightarrow> string" where
  "client_path home key = path_join (path_join (path_join home ''turns'') ''by-client'') (client_filename key)"

fun render_path :: "string \<Rightarrow> fpath \<Rightarrow> string" where
  "render_path home (ThreadPath i) = thread_path home i"
| "render_path home (ThreadLockPath i) = thread_lock_path home i"
| "render_path home (TurnPath i) = turn_path home i"
| "render_path home (GenerationPath i) = generation_path home i"
| "render_path home (GenerationLockPath i) = generation_lock_path home i"
| "render_path home (GenerationLivePath i) = generation_live_path home i"
| "render_path home (ClientPath key) = client_path home key"
| "render_path home AdmitLockPath = path_join home ''admit.lock''"
| "render_path home TurnsDirPath = path_join home ''turns''"
| "render_path home HomeDirs = home"

text \<open>\<open>Path::extension\<close> of a file name: what follows the last dot, unless the name starts there.\<close>

definition extension :: "string \<Rightarrow> string option" where
  "extension name =
     (case rsplit_once (CHR ''.'') name of
        None \<Rightarrow> None
      | Some (stem, ext) \<Rightarrow> if stem = [] then None else Some ext)"

section \<open>The state\<close>

text \<open>
  A directory entry is a subdirectory, a file whose body is a record of the directory's
  type, or a file whose body is not.
\<close>

datatype 'r node = Subdir | Body 'r | Garbage

datatype io_op = ReadOp fpath | WriteOp fpath | LockOp fpath | ListOp fpath | MkdirOp fpath

record ledger =
  threads_dir :: "(string \<times> wire_thread node) list"
  turns_dir :: "(string \<times> turn node) list"
  generations_dir :: "(string \<times> generation node) list"
  by_client_dir :: "(string \<times> string node) list"
  fault :: "io_op \<Rightarrow> bool"
  procs :: os_procs
  clock :: "nat \<Rightarrow> u128"
  ticks :: nat
  pid_of :: "nat \<Rightarrow> u32"
  id_seq :: "u32 \<Rightarrow> u64"
  live_files :: "(nat \<times> string) set"
  process_live :: "(u32 \<times> string) set"
  live_lock :: "string \<Rightarrow> nat option"
  waiters :: "nat \<Rightarrow> (string \<times> nat) list"
  arc_strong :: "nat \<Rightarrow> nat"
  notified :: "nat \<Rightarrow> nat"
  next_arc :: nat

type_synonym 'a ledger_action = "(ledger, ledger_error, 'a) action"

definition body_of :: "'r node option \<Rightarrow> 'r option" where
  "body_of n = (case n of Some (Body r) \<Rightarrow> Some r | _ \<Rightarrow> None)"

definition thread_at :: "ledger \<Rightarrow> string \<Rightarrow> wire_thread option" where
  "thread_at s i = body_of (map_of (threads_dir s) (json_name i))"

definition turn_at :: "ledger \<Rightarrow> string \<Rightarrow> turn option" where
  "turn_at s i = body_of (map_of (turns_dir s) (json_name i))"

definition generation_at :: "ledger \<Rightarrow> string \<Rightarrow> generation option" where
  "generation_at s i = body_of (map_of (generations_dir s) (json_name i))"

definition put_thread :: "wire_thread \<Rightarrow> ledger \<Rightarrow> ledger" where
  "put_thread th s = s\<lparr>threads_dir := AList.update (json_name (thread_id th)) (Body th) (threads_dir s)\<rparr>"

definition put_turn :: "turn \<Rightarrow> ledger \<Rightarrow> ledger" where
  "put_turn t s = s\<lparr>turns_dir := AList.update (json_name (turn_id t)) (Body t) (turns_dir s)\<rparr>"

definition put_generation_at :: "string \<Rightarrow> generation \<Rightarrow> ledger \<Rightarrow> ledger" where
  "put_generation_at i g s = s\<lparr>generations_dir := AList.update (json_name i) (Body g) (generations_dir s)\<rparr>"

definition put_generation :: "generation \<Rightarrow> ledger \<Rightarrow> ledger" where
  "put_generation g = put_generation_at (gen_id g) g"

definition put_client :: "string \<Rightarrow> string \<Rightarrow> ledger \<Rightarrow> ledger" where
  "put_client key i s = s\<lparr>by_client_dir := AList.update (client_filename key) (Body i) (by_client_dir s)\<rparr>"

section \<open>Primitive actions\<close>

definition fetch_add_id_seq :: "nat \<Rightarrow> u64 ledger_action" where
  "fetch_add_id_seq self s =
     (let p = pid_of s self; n = id_seq s p in (Inr n, s\<lparr>id_seq := (id_seq s)(p := n + 1)\<rparr>))"

definition unix_nanos :: "u128 ledger_action" where
  "unix_nanos s = (Inr (clock s (ticks s)), s\<lparr>ticks := Suc (ticks s)\<rparr>)"

definition unix_epoch_secs :: "u64 ledger_action" where
  "unix_epoch_secs = and_then unix_nanos (\<lambda>n. ok (of_nat (unat n div 10 ^ 9)))"

definition new_id :: "nat \<Rightarrow> string \<Rightarrow> string ledger_action" where
  "new_id self prefix =
     and_then (fetch_add_id_seq self) (\<lambda>n.
     and_then unix_nanos (\<lambda>nanos s.
       ok (prefix @ to_hex (unat (pid_of s self)) @ to_hex (unat nanos) @ to_hex (unat n)) s))"

definition lock_exclusive :: "fpath \<Rightarrow> unit ledger_action" where
  "lock_exclusive p s = (if_ok (\<not> fault s (LockOp p)) (Io IoOther), s)"

definition map_not_found :: "ledger_error + 'a \<Rightarrow> string \<Rightarrow> string \<Rightarrow> ledger_error + 'a" where
  "map_not_found r kind i =
     (case r of Inl (Io IoNotFound) \<Rightarrow> Inl (NotFound kind i) | _ \<Rightarrow> r)"

definition read_json :: "ledger \<Rightarrow> fpath \<Rightarrow> 'r node option \<Rightarrow> ledger_error + 'r" where
  "read_json s p n =
     (if fault s (ReadOp p) then Inl (Io IoOther)
      else case n of
        None \<Rightarrow> Inl (Io IoNotFound)
      | Some Subdir \<Rightarrow> Inl (Io IoOther)
      | Some Garbage \<Rightarrow> Inl Json
      | Some (Body r) \<Rightarrow> Inr r)"

text \<open>
  Writing a record: the body goes to a temporary file (whose name consumes a sequence
  number) and is renamed over the target, so it is either not there or there as a whole.
\<close>

definition write_json_atomic :: "nat \<Rightarrow> fpath \<Rightarrow> (ledger \<Rightarrow> ledger) \<Rightarrow> unit ledger_action" where
  "write_json_atomic self p put =
     and_then (fetch_add_id_seq self) (\<lambda>_ s.
       if fault s (WriteOp p) then err (Io IoOther) s else modify put s)"

definition read_thread :: "string \<Rightarrow> wire_thread ledger_action" where
  "read_thread i =
     and_then (of_result (validate_id i)) (\<lambda>_ s.
       of_result (map_not_found (read_json s (ThreadPath i) (map_of (threads_dir s) (json_name i))) ''thread'' i) s)"

definition read_turn :: "string \<Rightarrow> turn ledger_action" where
  "read_turn i =
     and_then (of_result (validate_id i)) (\<lambda>_ s.
       of_result (map_not_found (read_json s (TurnPath i) (map_of (turns_dir s) (json_name i))) ''turn'' i) s)"

definition read_generation :: "string \<Rightarrow> generation ledger_action" where
  "read_generation i =
     and_then (of_result (validate_id i)) (\<lambda>_ s.
       of_result (map_not_found (read_json s (GenerationPath i) (map_of (generations_dir s) (json_name i))) ''generation'' i) s)"

definition write_thread :: "nat \<Rightarrow> wire_thread \<Rightarrow> unit ledger_action" where
  "write_thread self th = write_json_atomic self (ThreadPath (thread_id th)) (put_thread th)"

definition write_turn :: "nat \<Rightarrow> turn \<Rightarrow> unit ledger_action" where
  "write_turn self t = write_json_atomic self (TurnPath (turn_id t)) (put_turn t)"

definition write_generation :: "nat \<Rightarrow> generation \<Rightarrow> unit ledger_action" where
  "write_generation self g = write_json_atomic self (GenerationPath (gen_id g)) (put_generation g)"

text \<open>\<open>set_child_pid\<close> and \<open>mark_child_eof\<close> write to the path of the identifier they were given.\<close>

definition write_generation_at :: "nat \<Rightarrow> string \<Rightarrow> generation \<Rightarrow> unit ledger_action" where
  "write_generation_at self i g = write_json_atomic self (GenerationPath i) (put_generation_at i g)"

section \<open>The record store contract\<close>

text \<open>
  What the operations rely on: a written record is what the next read of its key returns,
  and no other key changes. Each of the three record directories is such a store.
\<close>

locale record_store =
  fixes get :: "'s \<Rightarrow> string \<Rightarrow> 'r option"
    and put :: "'r \<Rightarrow> 's \<Rightarrow> 's"
    and key :: "'r \<Rightarrow> string"
  assumes get_put: "get (put r s) k = (if k = key r then Some r else get s k)"
begin

definition self_named :: "'s \<Rightarrow> bool" where
  "self_named s \<longleftrightarrow> (\<forall>k r. get s k = Some r \<longrightarrow> key r = k)"

lemma self_named_put: "self_named s \<Longrightarrow> self_named (put r s)"
  by (simp add: self_named_def get_put)

lemma get_put_same: "get (put r s) (key r) = Some r"
  by (simp add: get_put)

lemma get_put_put: "key r = key r' \<Longrightarrow> get (put r (put r' s)) = get (put r s)"
  by (rule ext) (simp add: get_put)

lemma get_put_commute: "key r \<noteq> key r' \<Longrightarrow> get (put r (put r' s)) = get (put r' (put r s))"
  by (rule ext) (simp add: get_put)

end

lemma json_name_inj [simp]: "json_name a = json_name b \<longleftrightarrow> a = b"
  by (simp add: json_name_def)

lemma body_of_simps [simp]:
  "body_of None = None" "body_of (Some Subdir) = None" "body_of (Some Garbage) = None"
  "body_of (Some (Body r)) = Some r"
  by (simp_all add: body_of_def)

lemma body_of_Some: "body_of n = Some r \<longleftrightarrow> n = Some (Body r)"
  by (auto simp: body_of_def split: option.splits node.splits)

interpretation thread_store: record_store thread_at put_thread thread_id
  by unfold_locales (simp add: thread_at_def put_thread_def)

interpretation turn_store: record_store turn_at put_turn turn_id
  by unfold_locales (simp add: turn_at_def put_turn_def)

interpretation generation_store: record_store generation_at put_generation gen_id
  by unfold_locales (simp add: generation_at_def put_generation_def put_generation_at_def)

lemmas store_get_put [simp] =
  thread_store.get_put turn_store.get_put generation_store.get_put

lemma store_frames [simp]:
  "thread_at (put_turn t s) = thread_at s" "thread_at (put_generation g s) = thread_at s"
  "turn_at (put_thread th s) = turn_at s" "turn_at (put_generation g s) = turn_at s"
  "generation_at (put_thread th s) = generation_at s" "generation_at (put_turn t s) = generation_at s"
  "thread_at (put_client k i s) = thread_at s" "turn_at (put_client k i s) = turn_at s"
  "generation_at (put_client k i s) = generation_at s"
  by (auto simp: fun_eq_iff thread_at_def turn_at_def generation_at_def put_thread_def put_turn_def
      put_generation_def put_generation_at_def put_client_def)

section \<open>How the primitives run\<close>

text \<open>The records of a state alone; the primitives' other effects leave them as they are.\<close>

definition same_records :: "ledger \<Rightarrow> ledger \<Rightarrow> bool" where
  "same_records s s' \<longleftrightarrow>
     threads_dir s' = threads_dir s \<and> turns_dir s' = turns_dir s \<and>
     generations_dir s' = generations_dir s \<and> by_client_dir s' = by_client_dir s"

definition thread_result :: "ledger \<Rightarrow> string \<Rightarrow> ledger_error + wire_thread" where
  "thread_result s i = fst (read_thread i s)"

definition turn_result_of :: "ledger \<Rightarrow> string \<Rightarrow> ledger_error + turn" where
  "turn_result_of s i = fst (read_turn i s)"

definition generation_result :: "ledger \<Rightarrow> string \<Rightarrow> ledger_error + generation" where
  "generation_result s i = fst (read_generation i s)"

lemma read_thread_run [wp]: "read_thread i s = (thread_result s i, s)"
  by (simp add: thread_result_def read_thread_def wp split: sum.split)

lemma read_turn_run [wp]: "read_turn i s = (turn_result_of s i, s)"
  by (simp add: turn_result_of_def read_turn_def wp split: sum.split)

lemma read_generation_run [wp]: "read_generation i s = (generation_result s i, s)"
  by (simp add: generation_result_def read_generation_def wp split: sum.split)

lemma lock_exclusive_run [wp]:
  "lock_exclusive p s = (if_ok (\<not> fault s (LockOp p)) (Io IoOther), s)"
  by (simp add: lock_exclusive_def)

lemma map_not_found_Inr [simp]: "map_not_found r k i = Inr x \<longleftrightarrow> r = Inr x"
  by (auto simp: map_not_found_def split: sum.split ledger_error.split io_kind.split)

lemma read_json_Inr [simp]: "read_json s p n = Inr r \<longleftrightarrow> \<not> fault s (ReadOp p) \<and> n = Some (Body r)"
  by (auto simp: read_json_def split: option.split node.split)

lemma turn_result_Inr:
  "turn_result_of s i = Inr t \<longleftrightarrow> valid_id i \<and> \<not> fault s (ReadOp (TurnPath i)) \<and> turn_at s i = Some t"
  by (auto simp: turn_result_of_def read_turn_def wp validate_id_def turn_at_def body_of_Some if_ok_def)

lemma thread_result_Inr:
  "thread_result s i = Inr t \<longleftrightarrow> valid_id i \<and> \<not> fault s (ReadOp (ThreadPath i)) \<and> thread_at s i = Some t"
  by (auto simp: thread_result_def read_thread_def wp validate_id_def thread_at_def body_of_Some if_ok_def)

lemma generation_result_Inr:
  "generation_result s i = Inr t \<longleftrightarrow>
     valid_id i \<and> \<not> fault s (ReadOp (GenerationPath i)) \<and> generation_at s i = Some t"
  by (auto simp: generation_result_def read_generation_def wp validate_id_def generation_at_def
      body_of_Some if_ok_def)

lemmas result_Inr = turn_result_Inr thread_result_Inr generation_result_Inr

definition bump_seq :: "nat \<Rightarrow> ledger \<Rightarrow> ledger" where
  "bump_seq self s = s\<lparr>id_seq := (id_seq s)(pid_of s self := id_seq s (pid_of s self) + 1)\<rparr>"

lemma write_json_atomic_run:
  "write_json_atomic self p put s =
     (if fault s (WriteOp p) then (Inl (Io IoOther), bump_seq self s) else (Inr (), put (bump_seq self s)))"
  by (simp add: write_json_atomic_def fetch_add_id_seq_def wp bump_seq_def Let_def)

lemmas write_run [wp] =
  write_json_atomic_run [of self "ThreadPath (thread_id th)" "put_thread th" for self th, folded write_thread_def]
  write_json_atomic_run [of self "TurnPath (turn_id t)" "put_turn t" for self t, folded write_turn_def]
  write_json_atomic_run [of self "GenerationPath (gen_id g)" "put_generation g" for self g, folded write_generation_def]
  write_json_atomic_run [of self "GenerationPath i" "put_generation_at i g" for self i g, folded write_generation_at_def]

definition tick :: "ledger \<Rightarrow> ledger" where
  "tick s = s\<lparr>ticks := Suc (ticks s)\<rparr>"

definition fresh_id :: "nat \<Rightarrow> string \<Rightarrow> ledger \<Rightarrow> string" where
  "fresh_id self prefix s =
     prefix @ to_hex (unat (pid_of s self)) @ to_hex (unat (clock s (ticks s)))
       @ to_hex (unat (id_seq s (pid_of s self)))"

lemma new_id_run [wp]: "new_id self prefix s = (Inr (fresh_id self prefix s), tick (bump_seq self s))"
  by (simp add: new_id_def fetch_add_id_seq_def unix_nanos_def wp bump_seq_def tick_def fresh_id_def Let_def)

lemma unix_epoch_secs_run [wp]:
  "unix_epoch_secs s = (Inr (of_nat (unat (clock s (ticks s)) div 10 ^ 9)), tick s)"
  by (simp add: unix_epoch_secs_def unix_nanos_def wp tick_def)

lemma same_records_refl [simp]: "same_records s s"
  by (simp add: same_records_def)

lemma same_records_trans: "same_records s t \<Longrightarrow> same_records t u \<Longrightarrow> same_records s u"
  by (simp add: same_records_def)

lemma same_records_bump [simp]: "same_records s (bump_seq self s)" "same_records s (tick s)"
  by (simp_all add: same_records_def bump_seq_def tick_def)

lemma same_records_at:
  "same_records s s' \<Longrightarrow> turn_at s' = turn_at s \<and> thread_at s' = thread_at s \<and> generation_at s' = generation_at s"
  by (auto simp: same_records_def fun_eq_iff turn_at_def thread_at_def generation_at_def)

lemma bump_at [simp]:
  "turn_at (bump_seq self s) = turn_at s" "thread_at (bump_seq self s) = thread_at s"
  "generation_at (bump_seq self s) = generation_at s"
  "turn_at (tick s) = turn_at s" "thread_at (tick s) = thread_at s"
  "generation_at (tick s) = generation_at s"
  using same_records_at same_records_bump by blast+

text \<open>Neither a write nor a draw changes what the operating system answers.\<close>

lemma os_frames [simp]:
  "fault (bump_seq self s) = fault s" "fault (tick s) = fault s" "fault (put_thread th s) = fault s"
  "fault (put_turn t s) = fault s" "fault (put_generation g s) = fault s" "fault (put_client k i s) = fault s"
  "fault (put_generation_at i g s) = fault s"
  "pid_of (bump_seq self s) = pid_of s" "pid_of (tick s) = pid_of s" "pid_of (put_thread th s) = pid_of s"
  "pid_of (put_turn t s) = pid_of s" "pid_of (put_generation g s) = pid_of s" "pid_of (put_client k i s) = pid_of s"
  "procs (bump_seq self s) = procs s" "procs (tick s) = procs s" "procs (put_thread th s) = procs s"
  "procs (put_turn t s) = procs s" "procs (put_generation g s) = procs s" "procs (put_client k i s) = procs s"
  by (simp_all add: bump_seq_def tick_def put_thread_def put_turn_def put_generation_def
      put_generation_at_def put_client_def)

end
