(* ===== verification/AtomicWrite.thy ===== *)
theory AtomicWrite
  imports Store
begin

text \<open>
  \<open>write_json_atomic\<close> of \<^verbatim>\<open>crates/core/src/ledger.rs\<close>, step by step. The directory of the record maps names to
  contents; the serializer writes the body in pieces. Each step may fail (\<open>Go False k\<close>: a failed write may
  have written \<open>k\<close> bytes), and the process may end after any step: what is on disk then is the
  directory reached by the steps so far. \<open>Store\<close> writes a record in one piece; this theory is why it may.
\<close>

section \<open>The steps\<close>

type_synonym directory = "string \<Rightarrow> string option"

definition tmp_name :: "string \<Rightarrow> u32 \<Rightarrow> u64 \<Rightarrow> string" where
  "tmp_name name pid n = name @ ''.'' @ to_dec (unat pid) @ ''.'' @ to_dec (unat n) @ ''.tmp''"

datatype write_pc = AtMkdir | AtCreate | AtWrite "string list" | AtSync | AtRename | AtCleanup | Written | NotWritten

datatype step_result = Go bool nat

definition append_file :: "string \<Rightarrow> string \<Rightarrow> directory \<Rightarrow> directory" where
  "append_file tmp text d = d(tmp := map_option (\<lambda>old. old @ text) (d tmp))"

text \<open>
  The directory is made before the closure runs, so its failure leaves nothing to clean up; every
  later failure removes the temporary file, and an error of that is ignored.
\<close>

fun write_step :: "string \<Rightarrow> string \<Rightarrow> string list \<Rightarrow> step_result \<Rightarrow> write_pc \<times> directory \<Rightarrow> write_pc \<times> directory" where
  "write_step name tmp pieces (Go done k) (AtMkdir, d) = (if done then AtCreate else NotWritten, d)"
| "write_step name tmp pieces (Go done k) (AtCreate, d) =
     (if done then (AtWrite pieces, d(tmp \<mapsto> [])) else (AtCleanup, d))"
| "write_step name tmp pieces (Go done k) (AtWrite [], d) = (AtSync, d)"
| "write_step name tmp pieces (Go done k) (AtWrite (piece # rest), d) =
     (if done then (AtWrite rest, append_file tmp piece d) else (AtCleanup, append_file tmp (take k piece) d))"
| "write_step name tmp pieces (Go done k) (AtSync, d) = (if done then AtRename else AtCleanup, d)"
| "write_step name tmp pieces (Go done k) (AtRename, d) =
     (if done then (Written, (d(name := d tmp))(tmp := None)) else (AtCleanup, d))"
| "write_step name tmp pieces (Go done k) (AtCleanup, d) = (NotWritten, if done then d(tmp := None) else d)"
| "write_step name tmp pieces (Go done k) (Written, d) = (Written, d)"
| "write_step name tmp pieces (Go done k) (NotWritten, d) = (NotWritten, d)"

definition write_file :: "string \<Rightarrow> u32 \<Rightarrow> u64 \<Rightarrow> string list \<Rightarrow> step_result list \<Rightarrow> directory \<Rightarrow> write_pc \<times> directory" where
  "write_file name pid n pieces steps d =
     fold (write_step name (tmp_name name pid n) (pieces @ [[newline]])) steps (AtMkdir, d)"

section \<open>Names\<close>

definition is_tmp :: "string \<Rightarrow> bool" where
  "is_tmp name \<longleftrightarrow> extension name = Some ''tmp''"

text \<open>What readers look at: everything that is not a temporary file.\<close>

definition record_view :: "directory \<Rightarrow> directory" where
  "record_view d = (\<lambda>k. if is_tmp k then None else d k)"

lemma tmp_name_is_tmp: "is_tmp (tmp_name name pid n)"
proof -
  have "tmp_name name pid n = (name @ ''.'' @ to_dec (unat pid) @ ''.'' @ to_dec (unat n)) @ CHR ''.'' # ''tmp''"
    by (simp add: tmp_name_def)
  then show ?thesis
    using rsplit_once_last [of "CHR ''.''" "''tmp''" "name @ ''.'' @ to_dec (unat pid) @ ''.'' @ to_dec (unat n)"]
    by (simp add: is_tmp_def extension_def)
qed

lemma last_dot:
  fixes d :: char
  assumes "d \<notin> set b" "d \<notin> set b'" "a @ d # b = a' @ d # b'"
  shows "a = a' \<and> b = b'"
proof -
  have "Some (a, b) = Some (a', b')"
    unfolding rsplit_once_last [OF assms(1), symmetric, of a] rsplit_once_last [OF assms(2), symmetric, of a'] assms(3) ..
  then show ?thesis by simp
qed

lemma tmp_name_inj: "tmp_name name pid n = tmp_name name' pid' n' \<longleftrightarrow> name = name' \<and> pid = pid' \<and> n = n'"
proof
  assume "tmp_name name pid n = tmp_name name' pid' n'"
  then have "(name @ CHR ''.'' # to_dec (unat pid)) @ CHR ''.'' # to_dec (unat n)
      = (name' @ CHR ''.'' # to_dec (unat pid')) @ CHR ''.'' # to_dec (unat n')"
    by (simp add: tmp_name_def)
  note outer = last_dot [OF to_dec_no_dot to_dec_no_dot this]
  note inner = last_dot [OF to_dec_no_dot to_dec_no_dot outer [THEN conjunct1]]
  show "name = name' \<and> pid = pid' \<and> n = n'"
    using outer inner by (simp add: to_dec_inj word_unat_eq_iff)
qed simp

section \<open>Old or new\<close>

text \<open>How a write stands: the view is the old one until the rename; the temporary file holds the pieces written so far.\<close>

fun write_inv :: "string \<Rightarrow> string \<Rightarrow> string list \<Rightarrow> directory \<Rightarrow> write_pc \<times> directory \<Rightarrow> bool" where
  "write_inv name tmp pieces old (Written, d) \<longleftrightarrow> record_view d = (record_view old)(name \<mapsto> concat pieces)"
| "write_inv name tmp pieces old (AtWrite rest, d) \<longleftrightarrow>
     record_view d = record_view old \<and> (\<exists>sofar. d tmp = Some sofar \<and> sofar @ concat rest = concat pieces)"
| "write_inv name tmp pieces old (AtSync, d) \<longleftrightarrow> record_view d = record_view old \<and> d tmp = Some (concat pieces)"
| "write_inv name tmp pieces old (AtRename, d) \<longleftrightarrow> record_view d = record_view old \<and> d tmp = Some (concat pieces)"
| "write_inv name tmp pieces old (_, d) \<longleftrightarrow> record_view d = record_view old"

lemma record_view_tmp [simp]: "is_tmp tmp \<Longrightarrow> record_view (d(tmp := x)) = record_view d"
  by (auto simp: record_view_def)

lemma record_view_append [simp]: "is_tmp tmp \<Longrightarrow> record_view (append_file tmp text d) = record_view d"
  by (simp add: append_file_def)

lemma write_step_inv:
  assumes "is_tmp tmp" "\<not> is_tmp name" "write_inv name tmp pieces old x"
  shows "write_inv name tmp pieces old (write_step name tmp pieces r x)"
  using assms
proof (induction name tmp pieces r x rule: write_step.induct)
  case (4 name tmp pieces fine k piece rest d)
  then show ?case by (cases fine) (auto simp: append_file_def)
next
  case (6 name tmp pieces fine k d)
  then have "d tmp = Some (concat pieces)" by simp
  then have "record_view (d(name := d tmp)) = (record_view d)(name \<mapsto> concat pieces)"
    using "6.prems"(2) by (auto simp: record_view_def)
  then show ?case using 6 by (cases fine) simp_all
qed auto

lemma write_steps_inv:
  assumes "is_tmp tmp" "\<not> is_tmp name" "write_inv name tmp pieces old x"
  shows "write_inv name tmp pieces old (fold (write_step name tmp pieces) steps x)"
  using assms(3) by (induction steps arbitrary: x) (simp_all add: write_step_inv [OF assms(1,2)])

section \<open>Termination\<close>

fun steps_left :: "nat \<Rightarrow> write_pc \<Rightarrow> nat" where
  "steps_left n AtMkdir = n + 6"
| "steps_left n AtCreate = n + 5"
| "steps_left n (AtWrite rest) = length rest + 4"
| "steps_left n AtSync = 3"
| "steps_left n AtRename = 2"
| "steps_left n AtCleanup = 1"
| "steps_left n Written = 0"
| "steps_left n NotWritten = 0"

definition write_over :: "write_pc \<Rightarrow> bool" where
  "write_over pc \<longleftrightarrow> pc = Written \<or> pc = NotWritten"

lemma steps_left_0 [simp]: "steps_left n pc = 0 \<longleftrightarrow> write_over pc"
  by (cases pc) (simp_all add: write_over_def)

lemma write_step_decreases:
  "steps_left (length pieces) (fst (write_step name tmp pieces r x)) \<le> steps_left (length pieces) (fst x) - 1"
  by (induction name tmp pieces r x rule: write_step.induct) simp_all

lemma write_steps_decrease:
  "steps_left (length pieces) (fst (fold (write_step name tmp pieces) steps x)) \<le> steps_left (length pieces) (fst x) - length steps"
proof (induction steps arbitrary: x)
  case (Cons r steps)
  show ?case
    using Cons.IH [of "write_step name tmp pieces r x"] write_step_decreases [of pieces name tmp r x]
    unfolding fold_simps length_Cons comp_apply by linarith
qed simp

text \<open>A step that succeeds never leads to clean-up.\<close>

definition on_course :: "write_pc \<Rightarrow> bool" where
  "on_course pc \<longleftrightarrow> pc \<noteq> AtCleanup \<and> pc \<noteq> NotWritten"

lemma write_step_on_course: "on_course (fst x) \<Longrightarrow> on_course (fst (write_step name tmp pieces (Go True k) x))"
  by (induction name tmp pieces "Go True k" x rule: write_step.induct) (simp_all add: on_course_def)

lemma write_steps_on_course:
  "on_course (fst x) \<Longrightarrow> (\<And>r. r \<in> set steps \<Longrightarrow> \<exists>k. r = Go True k) \<Longrightarrow>
     on_course (fst (fold (write_step name tmp pieces) steps x))"
proof (induction steps arbitrary: x)
  case (Cons r steps)
  then obtain k where "r = Go True k" by (meson list.set_intros(1))
  then show ?case using Cons write_step_on_course [OF Cons.prems(1)] by simp
qed simp

text \<open>A record file is written as a whole or not at all. Whatever steps fail and wherever the process ends, readers
  see the directory as it was, or, once the rename has happened, with exactly the new body under its name;
  temporary files of different writes never collide and are never taken for records. The
  write is over after a bounded number of steps, and it succeeds when no step fails.\<close>

lemma atomic_write_all_or_nothing:
  assumes "\<not> is_tmp name"
  shows "let (pc, d') = write_file name pid n pieces steps d in
    record_view d' = (if pc = Written then (record_view d)(name \<mapsto> concat pieces @ [newline]) else record_view d) \<and>
    (length pieces + 7 \<le> length steps \<longrightarrow> write_over pc) \<and>
    (length pieces + 7 \<le> length steps \<and> (\<forall>r \<in> set steps. \<exists>k. r = Go True k) \<longrightarrow> pc = Written) \<and>
    is_tmp (tmp_name name pid n) \<and>
    (tmp_name name pid n = tmp_name name' pid' n' \<longleftrightarrow> name = name' \<and> pid = pid' \<and> n = n')"
proof -
  let ?tmp = "tmp_name name pid n" and ?pieces = "pieces @ [[newline]]"
  obtain pc d' where run: "fold (write_step name ?tmp ?pieces) steps (AtMkdir, d) = (pc, d')" by fastforce
  have "write_inv name ?tmp ?pieces d (pc, d')"
    using write_steps_inv [OF tmp_name_is_tmp [of name pid n] assms, where pieces = ?pieces and old = d and x = "(AtMkdir, d)" and steps = steps] by (simp add: run)
  then have "record_view d' = (if pc = Written then (record_view d)(name \<mapsto> concat pieces @ [newline]) else record_view d)"
    by (cases pc) auto
  moreover have over: "write_over pc" if "length pieces + 7 \<le> length steps"
    using write_steps_decrease [of ?pieces name ?tmp steps "(AtMkdir, d)"] that by (simp add: run)
  moreover have "pc = Written" if "length pieces + 7 \<le> length steps" "\<forall>r \<in> set steps. \<exists>k. r = Go True k"
    using write_steps_on_course [of "(AtMkdir, d)" steps name ?tmp ?pieces] that(2) over [OF that(1)]
    by (auto simp: run on_course_def write_over_def)
  ultimately show ?thesis by (simp add: write_file_def run tmp_name_is_tmp tmp_name_inj)
qed

end
