(* ===== verification/Codec.thy ===== *)
theory Codec
  imports Store Json "HOL-Library.Monad_Syntax"
begin

text \<open>
  The JSON form of the wire's enums and of the ledger's records: the \<open>Serialize\<close> and \<open>Deserialize\<close>
  implementations of \<^verbatim>\<open>crates/core/src/source_wire.rs\<close>, those the file writes out and those it derives
  with its field attributes. A document is the tree the parser sees, with the entries of an object in the
  order of the text, repeated names included. Reading answers \<open>None\<close> where serde answers an error.
\<close>

section \<open>The contract of a codec\<close>

fun read_list :: "(json \<Rightarrow> 'a option) \<Rightarrow> json \<Rightarrow> 'a list option" where
  "read_list get (JArr vs) = those (map get vs)"
| "read_list get _ = None"

definition write_list :: "('a \<Rightarrow> json) \<Rightarrow> 'a list \<Rightarrow> json" where
  "write_list put xs = JArr (map put xs)"

text \<open>\<open>Option<T>\<close>: \<open>null\<close> is the absent value.\<close>

definition read_option :: "(json \<Rightarrow> 'a option) \<Rightarrow> json \<Rightarrow> 'a option option" where
  "read_option get v = (if is_null v then Some None else map_option Some (get v))"

locale json_codec =
  fixes put :: "'a \<Rightarrow> json"
    and get :: "json \<Rightarrow> 'a option"
  assumes read_back [simp]: "get (put x) = Some x"
begin

lemma put_inj: "put x = put y \<longleftrightarrow> x = y"
  by (metis option.inject read_back)

lemma list_read_back [simp]: "read_list get (write_list put xs) = Some xs"
  by (induction xs) (simp_all add: write_list_def)

lemma option_read_back [simp]: "\<not> is_null (put x) \<Longrightarrow> read_option get (put x) = Some (Some x)"
  by (simp add: read_option_def)

end

section \<open>Strings, numbers and the closed vocabularies\<close>

fun read_u64 :: "json \<Rightarrow> u64 option" where
  "read_u64 (JNum (PosInt n)) = Some n"
| "read_u64 _ = None"

fun read_u32 :: "json \<Rightarrow> u32 option" where
  "read_u32 (JNum (PosInt n)) = (if n < 2 ^ 32 then Some (ucast n) else None)"
| "read_u32 _ = None"

definition write_u64 :: "u64 \<Rightarrow> json" where
  "write_u64 n = JNum (PosInt n)"

definition write_u32 :: "u32 \<Rightarrow> json" where
  "write_u32 n = JNum (PosInt (ucast n))"

text \<open>An enum of the wire is read as a string and handed to its parser.\<close>

definition write_word :: "('a \<Rightarrow> string) \<Rightarrow> 'a \<Rightarrow> json" where
  "write_word text x = JStr (text x)"

definition read_word :: "(string \<Rightarrow> unsupported_value_error + 'a) \<Rightarrow> json \<Rightarrow> 'a option" where
  "read_word parse v = do { w \<leftarrow> as_str v; case parse w of Inr x \<Rightarrow> Some x | Inl _ \<Rightarrow> None }"

sublocale closed_vocabulary \<subseteq> json: json_codec "write_word as_str" "read_word parse"
  by unfold_locales (simp add: write_word_def read_word_def parse_as_str)

context closed_vocabulary begin

lemma read_word_iff: "read_word parse v = Some x \<longleftrightarrow> v = JStr (as_str x)"
  by (cases v) (auto simp: read_word_def parse_as_str as_str_inj parse_Inr_iff split: sum.splits)

end

definition approval_policy_of_json :: "json \<Rightarrow> approval_policy option" where
  "approval_policy_of_json = read_word parse_approval_policy"

definition thread_sandbox_of_json :: "json \<Rightarrow> thread_sandbox option" where
  "thread_sandbox_of_json = read_word parse_thread_sandbox"

definition turn_status_of_json :: "json \<Rightarrow> turn_status option" where
  "turn_status_of_json = read_word parse_turn_status"

definition approval_policy_to_json :: "approval_policy \<Rightarrow> json" where
  "approval_policy_to_json = write_word approval_policy_as_str"

definition thread_sandbox_to_json :: "thread_sandbox \<Rightarrow> json" where
  "thread_sandbox_to_json = write_word thread_sandbox_as_str"

definition turn_status_to_json :: "turn_status \<Rightarrow> json" where
  "turn_status_to_json = write_word turn_status_as_str"

interpretation strings_json: json_codec JStr as_str
  by unfold_locales simp

interpretation u64s_json: json_codec write_u64 read_u64
  by unfold_locales (simp add: write_u64_def)

lemma ucast_u32_bound: "(ucast (n :: u32) :: u64) < 4294967296"
proof -
  have "unat n < 4294967296" using unsigned_less [of n] by simp
  then show ?thesis by (simp add: word_less_nat_alt unsigned_ucast_eq take_bit_nat_eq_self)
qed

interpretation u32s_json: json_codec write_u32 read_u32
  by unfold_locales (simp add: write_u32_def ucast_u32_bound ucast_up_ucast_id is_up)

interpretation policies_json: json_codec approval_policy_to_json approval_policy_of_json
  unfolding approval_policy_to_json_def approval_policy_of_json_def by unfold_locales

interpretation sandboxes_json: json_codec thread_sandbox_to_json thread_sandbox_of_json
  unfolding thread_sandbox_to_json_def thread_sandbox_of_json_def by unfold_locales

interpretation statuses_json: json_codec turn_status_to_json turn_status_of_json
  unfolding turn_status_to_json_def turn_status_of_json_def by unfold_locales

section \<open>Derived records\<close>

text \<open>
  What the derived \<open>Deserialize\<close> does with a struct. From an object: a name of the struct twice is an error, any
  other name is ignored. From an array: the fields in order, and no more than there are. A
  field with \<open>#[serde(default)]\<close> may be absent; here the fields of a struct are those that may not, then
  those that may, with the value absence stands for.
\<close>

type_synonym fields = "string \<Rightarrow> json option"

fun fields_of :: "string list \<Rightarrow> json \<Rightarrow> fields option" where
  "fields_of names (JObj kvs) =
     (if distinct (filter (\<lambda>k. k \<in> set names) (map fst kvs)) then Some (map_of kvs) else None)"
| "fields_of names (JArr vs) = (if length vs \<le> length names then Some (map_of (zip names vs)) else None)"
| "fields_of names _ = None"

definition required :: "(json \<Rightarrow> 'a option) \<Rightarrow> fields \<Rightarrow> string \<Rightarrow> 'a option" where
  "required get f k = Option.bind (f k) get"

definition defaulted :: "'a \<Rightarrow> (json \<Rightarrow> 'a option) \<Rightarrow> fields \<Rightarrow> string \<Rightarrow> 'a option" where
  "defaulted z get f k = (case f k of None \<Rightarrow> Some z | Some v \<Rightarrow> get v)"

text \<open>\<open>skip_serializing_if = "String::is_empty"\<close> and \<open>"Option::is_none"\<close>.\<close>

definition unless_empty :: "string \<Rightarrow> string \<Rightarrow> (string \<times> json) list" where
  "unless_empty k s = (if s = [] then [] else [(k, JStr s)])"

definition unless_none :: "('a \<Rightarrow> json) \<Rightarrow> string \<Rightarrow> 'a option \<Rightarrow> (string \<times> json) list" where
  "unless_none put k x = (case x of None \<Rightarrow> [] | Some y \<Rightarrow> [(k, put y)])"

lemmas field_defs = required_def defaulted_def unless_empty_def unless_none_def

lemma required_other: "k \<noteq> n \<Longrightarrow> required get (f(k \<mapsto> z)) n = required get f n"
  by (simp add: required_def)

lemma defaulted_other: "k \<noteq> n \<Longrightarrow> defaulted x get (f(k \<mapsto> z)) n = defaulted x get f n"
  by (simp add: defaulted_def)

lemma defaulted_default: "f k = None \<Longrightarrow> get z = Some x \<Longrightarrow> defaulted x get (f(k \<mapsto> z)) k = defaulted x get f k"
  by (simp add: defaulted_def)

lemmas entry_simps = required_other defaulted_other defaulted_default

text \<open>
  The contract of a derived record: what it writes it reads back, from its own fields only, none of the
  required ones may be missing, and a missing optional one reads as its default.
\<close>

definition struct_to_json :: "('a \<Rightarrow> (string \<times> json) list) \<Rightarrow> 'a \<Rightarrow> json" where
  "struct_to_json entries x = JObj (entries x)"

definition struct_of_json :: "string list \<Rightarrow> (fields \<Rightarrow> 'a option) \<Rightarrow> json \<Rightarrow> 'a option" where
  "struct_of_json names of_fields v = Option.bind (fields_of names v) of_fields"

fun without :: "string \<Rightarrow> json \<Rightarrow> json" where
  "without k (JObj kvs) = JObj (filter (\<lambda>e. fst e \<noteq> k) kvs)"
| "without k v = v"

fun with_entry :: "string \<Rightarrow> json \<Rightarrow> json \<Rightarrow> json" where
  "with_entry k x (JObj kvs) = JObj ((k, x) # kvs)"
| "with_entry k x v = v"

locale derived_record =
  fixes names :: "string list"
    and needed :: "string list"
    and optional :: "(string \<times> json) list"
    and entries :: "'a \<Rightarrow> (string \<times> json) list"
    and of_fields :: "fields \<Rightarrow> 'a option"
  assumes all_names: "set names = set needed \<union> fst ` set optional"
    and entries_once: "distinct (map fst (entries x))"
    and entries_read: "of_fields (map_of (entries x)) = Some x"
    and own_fields: "(\<And>n. n \<in> set names \<Longrightarrow> f n = f' n) \<Longrightarrow> of_fields f = of_fields f'"
    and missing: "k \<in> set needed \<Longrightarrow> f k = None \<Longrightarrow> of_fields f = None"
    and absent: "(k, z) \<in> set optional \<Longrightarrow> f k = None \<Longrightarrow> of_fields (f(k \<mapsto> z)) = of_fields f"
begin

lemma struct_read_back [simp]: "struct_of_json names of_fields (struct_to_json entries x) = Some x"
  by (simp add: struct_of_json_def struct_to_json_def entries_once entries_read distinct_filter)

lemma unknown_ignored:
  assumes "k \<notin> set names"
  shows "struct_of_json names of_fields (with_entry k x v) = struct_of_json names of_fields v"
proof (cases v)
  case (JObj kvs)
  have "of_fields ((map_of kvs)(k \<mapsto> x)) = of_fields (map_of kvs)" using assms by (auto intro: own_fields)
  then show ?thesis using assms by (simp add: JObj struct_of_json_def)
qed (simp_all add: struct_of_json_def)

lemma repeated_refused:
  assumes "k \<in> set names" "json_get v k \<noteq> None"
  shows "struct_of_json names of_fields (with_entry k x v) = None"
  using assms by (cases v) (auto simp: struct_of_json_def map_of_eq_None_iff image_iff)

lemma missing_refused:
  assumes "k \<in> set needed"
  shows "struct_of_json names of_fields (without k (JObj kvs)) = None"
proof -
  have "map_of (filter (\<lambda>e. fst e \<noteq> k) kvs) k = None" by (auto simp: map_of_eq_None_iff)
  then show ?thesis using missing [OF assms] by (simp add: struct_of_json_def)
qed

lemma absent_defaults:
  assumes "(k, z) \<in> set optional"
  shows "struct_of_json names of_fields (without k (JObj kvs)) = struct_of_json names of_fields (with_entry k z (without k (JObj kvs)))"
proof -
  have gone: "k \<notin> fst ` {e \<in> set kvs. fst e \<noteq> k}" by auto
  then have no: "map_of (filter (\<lambda>e. fst e \<noteq> k) kvs) k = None" by (simp add: map_of_eq_None_iff)
  show ?thesis using gone no absent [of k z "map_of (filter (\<lambda>e. fst e \<noteq> k) kvs)"] assms by (simp add: struct_of_json_def)
qed

end

sublocale derived_record \<subseteq> json: json_codec "struct_to_json entries" "struct_of_json names of_fields"
  by unfold_locales simp

subsection \<open>\<open>UserInput\<close> and \<open>Item\<close>\<close>

definition user_input_entries :: "user_input \<Rightarrow> (string \<times> json) list" where
  "user_input_entries u = [(''kind'', JStr (input_kind u)), (''text'', JStr (input_text u))]"

definition user_input_of_fields :: "fields \<Rightarrow> user_input option" where
  "user_input_of_fields f = do {
     kind \<leftarrow> required as_str f ''kind'';
     body \<leftarrow> required as_str f ''text'';
     Some \<lparr>input_kind = kind, input_text = body\<rparr> }"

definition user_input_to_json :: "user_input \<Rightarrow> json" where
  "user_input_to_json = struct_to_json user_input_entries"

definition user_input_of_json :: "json \<Rightarrow> user_input option" where
  "user_input_of_json = struct_of_json [''kind'', ''text''] user_input_of_fields"

definition item_entries :: "item \<Rightarrow> (string \<times> json) list" where
  "item_entries it =
     [(''id'', JStr (item_id it)), (''item_type'', JStr (item_type it)),
      (''text'', JStr (item_text it)), (''status'', JStr (item_status it))]"

definition item_of_fields :: "fields \<Rightarrow> item option" where
  "item_of_fields f = do {
     i \<leftarrow> required as_str f ''id'';
     type \<leftarrow> required as_str f ''item_type'';
     body \<leftarrow> required as_str f ''text'';
     status \<leftarrow> required as_str f ''status'';
     Some \<lparr>item_id = i, item_type = type, item_text = body, item_status = status\<rparr> }"

definition item_to_json :: "item \<Rightarrow> json" where
  "item_to_json = struct_to_json item_entries"

definition item_of_json :: "json \<Rightarrow> item option" where
  "item_of_json = struct_of_json [''id'', ''item_type'', ''text'', ''status''] item_of_fields"

interpretation inputs_json: derived_record "[''kind'', ''text'']" "[''kind'', ''text'']" "[]" user_input_entries user_input_of_fields
  rewrites "struct_to_json user_input_entries = user_input_to_json"
    and "struct_of_json [''kind'', ''text''] user_input_of_fields = user_input_of_json"
  by unfold_locales
    (auto simp: user_input_entries_def user_input_of_fields_def field_defs user_input_to_json_def user_input_of_json_def)

interpretation items_json: derived_record "[''id'', ''item_type'', ''text'', ''status'']"
  "[''id'', ''item_type'', ''text'', ''status'']" "[]" item_entries item_of_fields
  rewrites "struct_to_json item_entries = item_to_json"
    and "struct_of_json [''id'', ''item_type'', ''text'', ''status''] item_of_fields = item_of_json"
  by unfold_locales
    (auto simp: item_entries_def item_of_fields_def field_defs item_to_json_def item_of_json_def)

subsection \<open>\<open>Thread\<close>\<close>

definition thread_needed :: "string list" where
  "thread_needed = [''id'', ''cwd'', ''model'', ''sandbox'', ''approval_policy'', ''developer_instructions'', ''acp_session_id'']"

definition thread_optional :: "(string \<times> json) list" where
  "thread_optional = [(''in_progress_turn_id'', JStr [])]"

definition thread_names :: "string list" where
  "thread_names = [''id'', ''cwd'', ''model'', ''sandbox'', ''approval_policy'', ''developer_instructions'',
     ''acp_session_id'', ''in_progress_turn_id'']"

definition thread_entries :: "wire_thread \<Rightarrow> (string \<times> json) list" where
  "thread_entries th =
     [(''id'', JStr (thread_id th)), (''cwd'', JStr (thread_cwd th)), (''model'', JStr (thread_model th)),
      (''sandbox'', thread_sandbox_to_json (thread_sandbox th)),
      (''approval_policy'', approval_policy_to_json (thread_approval_policy th)),
      (''developer_instructions'', JStr (developer_instructions th)),
      (''acp_session_id'', JStr (acp_session_id th)),
      (''in_progress_turn_id'', JStr (in_progress_turn_id th))]"

definition thread_of_fields :: "fields \<Rightarrow> wire_thread option" where
  "thread_of_fields f = do {
     i \<leftarrow> required as_str f ''id'';
     cwd \<leftarrow> required as_str f ''cwd'';
     model \<leftarrow> required as_str f ''model'';
     sandbox \<leftarrow> required thread_sandbox_of_json f ''sandbox'';
     policy \<leftarrow> required approval_policy_of_json f ''approval_policy'';
     instructions \<leftarrow> required as_str f ''developer_instructions'';
     session \<leftarrow> required as_str f ''acp_session_id'';
     live \<leftarrow> defaulted [] as_str f ''in_progress_turn_id'';
     Some \<lparr>thread_id = i, thread_cwd = cwd, thread_model = model, thread_sandbox = sandbox,
       thread_approval_policy = policy, developer_instructions = instructions, acp_session_id = session,
       in_progress_turn_id = live\<rparr> }"

definition thread_to_json :: "wire_thread \<Rightarrow> json" where
  "thread_to_json = struct_to_json thread_entries"

definition thread_of_json :: "json \<Rightarrow> wire_thread option" where
  "thread_of_json = struct_of_json thread_names thread_of_fields"

lemmas thread_codec_defs = thread_needed_def thread_optional_def thread_names_def thread_entries_def thread_of_fields_def

interpretation threads_json: derived_record thread_names thread_needed thread_optional thread_entries thread_of_fields
  rewrites "struct_to_json thread_entries = thread_to_json"
    and "struct_of_json thread_names thread_of_fields = thread_of_json"
proof -
  show "derived_record thread_names thread_needed thread_optional thread_entries thread_of_fields"
  proof
    show "set thread_names = set thread_needed \<union> fst ` set thread_optional"
      by (auto simp: thread_codec_defs)
    show "thread_of_fields (map_of (thread_entries x)) = Some x" "distinct (map fst (thread_entries x))" for x
      by (simp_all add: thread_codec_defs field_defs)
    show "thread_of_fields f = thread_of_fields f'" if "\<And>n. n \<in> set thread_names \<Longrightarrow> f n = f' n" for f f'
      using that by (simp add: thread_codec_defs field_defs)
    show "thread_of_fields f = None" if "k \<in> set thread_needed" "f k = None" for k f
      using that by (auto simp: thread_codec_defs field_defs)
    show "thread_of_fields (f(k \<mapsto> z)) = thread_of_fields f" if "(k, z) \<in> set thread_optional" "f k = None" for k z f
      using that unfolding thread_optional_def list.set insert_iff empty_iff prod.inject
      by (elim disjE conjE FalseE) (simp_all add: thread_of_fields_def entry_simps)
  qed
qed (simp_all only: thread_to_json_def thread_of_json_def)

subsection \<open>\<open>Turn\<close>\<close>

definition turn_needed :: "string list" where
  "turn_needed = [''id'', ''thread_id'', ''generation_id'', ''status'', ''input'', ''model'', ''effort'',
     ''stop_reason'', ''failure_reason'']"

definition turn_optional :: "(string \<times> json) list" where
  "turn_optional = [(''client_request_id'', JStr []), (''pending_request_id'', JStr []),
     (''pending_decision'', JStr []), (''items'', JArr [])]"

definition turn_names :: "string list" where
  "turn_names = [''id'', ''thread_id'', ''generation_id'', ''status'', ''input'', ''model'', ''effort'',
     ''stop_reason'', ''failure_reason'', ''client_request_id'', ''pending_request_id'',
     ''pending_decision'', ''items'']"

definition turn_entries :: "turn \<Rightarrow> (string \<times> json) list" where
  "turn_entries t =
     [(''id'', JStr (turn_id t)), (''thread_id'', JStr (turn_thread_id t)),
      (''generation_id'', JStr (turn_generation_id t)),
      (''status'', turn_status_to_json (turn_status t)),
      (''input'', write_list user_input_to_json (turn_input t)),
      (''model'', JStr (turn_model t)), (''effort'', JStr (turn_effort t)),
      (''stop_reason'', JStr (stop_reason t)), (''failure_reason'', JStr (failure_reason t))]
     @ unless_empty ''client_request_id'' (client_request_id t)
     @ unless_empty ''pending_request_id'' (pending_request_id t)
     @ unless_empty ''pending_decision'' (pending_decision t)
     @ [(''items'', write_list item_to_json (turn_items t))]"

definition turn_of_fields :: "fields \<Rightarrow> turn option" where
  "turn_of_fields f = do {
     i \<leftarrow> required as_str f ''id'';
     thread \<leftarrow> required as_str f ''thread_id'';
     generation \<leftarrow> required as_str f ''generation_id'';
     status \<leftarrow> required turn_status_of_json f ''status'';
     input \<leftarrow> required (read_list user_input_of_json) f ''input'';
     model \<leftarrow> required as_str f ''model'';
     effort \<leftarrow> required as_str f ''effort'';
     stopped \<leftarrow> required as_str f ''stop_reason'';
     failure \<leftarrow> required as_str f ''failure_reason'';
     client \<leftarrow> defaulted [] as_str f ''client_request_id'';
     request \<leftarrow> defaulted [] as_str f ''pending_request_id'';
     decision \<leftarrow> defaulted [] as_str f ''pending_decision'';
     items \<leftarrow> defaulted [] (read_list item_of_json) f ''items'';
     Some \<lparr>turn_id = i, turn_thread_id = thread, turn_generation_id = generation, turn_status = status,
       turn_input = input, turn_model = model, turn_effort = effort, stop_reason = stopped,
       failure_reason = failure, client_request_id = client, pending_request_id = request,
       pending_decision = decision, turn_items = items\<rparr> }"

definition turn_to_json :: "turn \<Rightarrow> json" where
  "turn_to_json = struct_to_json turn_entries"

definition turn_of_json :: "json \<Rightarrow> turn option" where
  "turn_of_json = struct_of_json turn_names turn_of_fields"

lemmas turn_codec_defs = turn_needed_def turn_optional_def turn_names_def turn_entries_def turn_of_fields_def

interpretation turns_json: derived_record turn_names turn_needed turn_optional turn_entries turn_of_fields
  rewrites "struct_to_json turn_entries = turn_to_json"
    and "struct_of_json turn_names turn_of_fields = turn_of_json"
proof -
  show "derived_record turn_names turn_needed turn_optional turn_entries turn_of_fields"
  proof
    show "set turn_names = set turn_needed \<union> fst ` set turn_optional"
      by (auto simp: turn_codec_defs)
    show "turn_of_fields (map_of (turn_entries x)) = Some x" "distinct (map fst (turn_entries x))" for x
      by (simp_all add: turn_codec_defs field_defs)
    show "turn_of_fields f = turn_of_fields f'" if "\<And>n. n \<in> set turn_names \<Longrightarrow> f n = f' n" for f f'
      using that by (simp add: turn_codec_defs field_defs)
    show "turn_of_fields f = None" if "k \<in> set turn_needed" "f k = None" for k f
      using that by (auto simp: turn_codec_defs field_defs)
    show "turn_of_fields (f(k \<mapsto> z)) = turn_of_fields f" if "(k, z) \<in> set turn_optional" "f k = None" for k z f
      using that unfolding turn_optional_def list.set insert_iff empty_iff prod.inject
      by (elim disjE conjE FalseE) (simp_all add: turn_of_fields_def entry_simps)
  qed
qed (simp_all only: turn_to_json_def turn_of_json_def)

subsection \<open>\<open>Generation\<close>\<close>

definition generation_needed :: "string list" where
  "generation_needed = [''id'', ''owner_pid'', ''started_epoch'']"

definition generation_optional :: "(string \<times> json) list" where
  "generation_optional = [(''turn_id'', JStr []), (''child_pid'', JNull), (''child_started_epoch'', JNull),
     (''child_eof'', JBool False)]"

definition generation_names :: "string list" where
  "generation_names = [''id'', ''turn_id'', ''owner_pid'', ''started_epoch'', ''child_pid'',
     ''child_started_epoch'', ''child_eof'']"

definition generation_entries :: "generation \<Rightarrow> (string \<times> json) list" where
  "generation_entries g =
     [(''id'', JStr (gen_id g)), (''turn_id'', JStr (gen_turn_id g)),
      (''owner_pid'', write_u32 (owner_pid g)), (''started_epoch'', write_u64 (started_epoch g))]
     @ unless_none write_u32 ''child_pid'' (child_pid g)
     @ unless_none write_u64 ''child_started_epoch'' (child_started_epoch g)
     @ [(''child_eof'', JBool (child_eof g))]"

definition generation_of_fields :: "fields \<Rightarrow> generation option" where
  "generation_of_fields f = do {
     i \<leftarrow> required as_str f ''id'';
     turn \<leftarrow> defaulted [] as_str f ''turn_id'';
     owner \<leftarrow> required read_u32 f ''owner_pid'';
     started \<leftarrow> required read_u64 f ''started_epoch'';
     child \<leftarrow> defaulted None (read_option read_u32) f ''child_pid'';
     child_started \<leftarrow> defaulted None (read_option read_u64) f ''child_started_epoch'';
     eof \<leftarrow> defaulted False as_bool f ''child_eof'';
     Some \<lparr>gen_id = i, gen_turn_id = turn, owner_pid = owner, started_epoch = started, child_pid = child,
       child_started_epoch = child_started, child_eof = eof\<rparr> }"

definition generation_to_json :: "generation \<Rightarrow> json" where
  "generation_to_json = struct_to_json generation_entries"

definition generation_of_json :: "json \<Rightarrow> generation option" where
  "generation_of_json = struct_of_json generation_names generation_of_fields"

lemmas generation_codec_defs = generation_needed_def generation_optional_def generation_names_def
  generation_entries_def generation_of_fields_def

lemma numbers_not_null [simp]: "\<not> is_null (write_u32 n)" "\<not> is_null (write_u64 m)"
  by (simp_all add: write_u32_def write_u64_def)

interpretation generations_json: derived_record generation_names generation_needed generation_optional
  generation_entries generation_of_fields
  rewrites "struct_to_json generation_entries = generation_to_json"
    and "struct_of_json generation_names generation_of_fields = generation_of_json"
proof -
  show "derived_record generation_names generation_needed generation_optional generation_entries generation_of_fields"
  proof
    show "set generation_names = set generation_needed \<union> fst ` set generation_optional"
      by (auto simp: generation_codec_defs)
    show "generation_of_fields (map_of (generation_entries x)) = Some x" "distinct (map fst (generation_entries x))" for x
      by (simp_all add: generation_codec_defs field_defs split: option.split)
    show "generation_of_fields f = generation_of_fields f'" if "\<And>n. n \<in> set generation_names \<Longrightarrow> f n = f' n" for f f'
      using that by (simp add: generation_codec_defs field_defs)
    show "generation_of_fields f = None" if "k \<in> set generation_needed" "f k = None" for k f
      using that by (auto simp: generation_codec_defs field_defs)
    show "generation_of_fields (f(k \<mapsto> z)) = generation_of_fields f" if "(k, z) \<in> set generation_optional" "f k = None" for k z f
      using that unfolding generation_optional_def list.set insert_iff empty_iff prod.inject
      by (elim disjE conjE FalseE) (simp_all add: generation_of_fields_def entry_simps read_option_def)
  qed
qed (simp_all only: generation_to_json_def generation_of_json_def)

section \<open>What is written is read back\<close>

lemma status_word:
  assumes "turn_of_json (JObj kvs) = Some t"
  shows "map_of kvs ''status'' = Some (JStr (turn_status_as_str (turn_status t)))"
proof -
  obtain v where v: "map_of kvs ''status'' = Some v" "turn_status_of_json v = Some (turn_status t)"
    using assms
    by (auto simp: turn_of_json_def struct_of_json_def turn_of_fields_def required_def Option.bind_eq_Some_conv
        split: if_splits)
  then show ?thesis by (simp add: turn_status_of_json_def turn_statuses.read_word_iff)
qed

lemma turn_without:
  "turn_of_json (without ''client_request_id'' (turn_to_json t)) = Some (t\<lparr>client_request_id := []\<rparr>)"
  "turn_of_json (without ''pending_request_id'' (turn_to_json t)) = Some (t\<lparr>pending_request_id := []\<rparr>)"
  "turn_of_json (without ''pending_decision'' (turn_to_json t)) = Some (t\<lparr>pending_decision := []\<rparr>)"
  "turn_of_json (without ''items'' (turn_to_json t)) = Some (t\<lparr>turn_items := []\<rparr>)"
  by (simp_all add: turn_of_json_def struct_of_json_def turn_to_json_def struct_to_json_def turn_codec_defs field_defs)

end
