(* ===== verification/Ledger.thy ===== *)
theory Ledger
  imports Store
begin

text \<open>
  \<^verbatim>\<open>crates/core/src/ledger.rs\<close>: the operations of the durable thread, turn and item ledger.
  Each definition is one method, its checks and early returns in the source's order.

  What a method does while it holds the exclusive lock of a thread is a definition of its own,
  named \<open>_section\<close> or \<open>_locked\<close> as in the source: these are the atomic steps of the system,
  and a method is a sequence of them with whatever other processes do in between. The loops
  that sleep between polls take the list of what happens between their iterations as an
  argument.
\<close>

section \<open>Waiter slots\<close>

text \<open>
  \<open>Inner.waiters\<close> maps a turn to a shared pair of a mutex and a condition variable. A pair is
  a number with its \<open>Arc\<close> strong count and the number of notifications its condition variable
  got. A notification ends the current sleep of the threads that wait on the pair; they poll
  in any case, so it decides when they look and not what they see.
\<close>

definition slot :: "ledger \<Rightarrow> nat \<Rightarrow> string \<Rightarrow> nat option" where
  "slot s self i = map_of (waiters s self) i"

definition waiter :: "nat \<Rightarrow> string \<Rightarrow> ledger \<Rightarrow> nat \<times> ledger" where
  "waiter self i s =
     (case slot s self i of
        Some a \<Rightarrow> (a, s\<lparr>arc_strong := (arc_strong s)(a := arc_strong s a + 1)\<rparr>)
      | None \<Rightarrow>
          (let a = next_arc s in
           (a, s\<lparr>waiters := (waiters s)(self := AList.update i a (waiters s self)),
                 arc_strong := (arc_strong s)(a := 2), next_arc := Suc a\<rparr>)))"

definition notify_all :: "nat \<Rightarrow> ledger \<Rightarrow> ledger" where
  "notify_all a s = s\<lparr>notified := (notified s)(a := Suc (notified s a))\<rparr>"

definition wake :: "nat \<Rightarrow> string \<Rightarrow> ledger \<Rightarrow> ledger" where
  "wake self i s = (case slot s self i of Some a \<Rightarrow> notify_all a s | None \<Rightarrow> s)"

definition wake_all :: "nat \<Rightarrow> ledger \<Rightarrow> ledger" where
  "wake_all self s = fold notify_all (map snd (waiters s self)) s"

text \<open>Removing a slot drops the map's reference to the pair.\<close>

definition remove_slot :: "nat \<Rightarrow> string \<Rightarrow> ledger \<Rightarrow> ledger" where
  "remove_slot self i s =
     (case slot s self i of
        None \<Rightarrow> s
      | Some a \<Rightarrow> s\<lparr>waiters := (waiters s)(self := AList.delete i (waiters s self)),
                    arc_strong := (arc_strong s)(a := arc_strong s a - 1)\<rparr>)"

definition wake_and_drop :: "nat \<Rightarrow> string \<Rightarrow> ledger \<Rightarrow> ledger" where
  "wake_and_drop self i s = remove_slot self i (wake self i s)"

definition release_waiter :: "nat \<Rightarrow> string \<Rightarrow> nat \<Rightarrow> ledger \<Rightarrow> ledger" where
  "release_waiter self i pair s =
     (let s' = notify_all pair s in
      if slot s' self i = Some pair \<and> arc_strong s' pair \<le> 2 then remove_slot self i s' else s')"

definition drop_pair :: "nat \<Rightarrow> ledger \<Rightarrow> ledger" where
  "drop_pair pair s = s\<lparr>arc_strong := (arc_strong s)(pair := arc_strong s pair - 1)\<rparr>"

section \<open>Generation liveness\<close>

text \<open>
  \<open>hold_live\<close> takes the \<^verbatim>\<open>.live\<close> lock of a generation for this \<open>Ledger\<close> value (without it
  when the lock file cannot be opened) and notes it in the process-wide set; a hold of the
  same generation that it replaces is dropped, which takes it out of that set again.
\<close>

definition hold_live :: "nat \<Rightarrow> string \<Rightarrow> ledger \<Rightarrow> ledger" where
  "hold_live self g s =
     (let p = pid_of s self;
          lock = (if fault s (LockOp (GenerationLivePath g)) then live_lock s
                  else (live_lock s)(g := Some self)) in
      s\<lparr>live_lock := lock,
        process_live := (if (self, g) \<in> live_files s then process_live s - {(p, g)}
                         else insert (p, g) (process_live s)),
        live_files := insert (self, g) (live_files s)\<rparr>)"

definition release_live :: "nat \<Rightarrow> string \<Rightarrow> ledger \<Rightarrow> ledger" where
  "release_live self g s =
     (if (self, g) \<in> live_files s then
        s\<lparr>live_files := live_files s - {(self, g)},
          process_live := process_live s - {(pid_of s self, g)},
          live_lock := (if live_lock s g = Some self then (live_lock s)(g := None) else live_lock s)\<rparr>
      else s)"

definition process_holds_live :: "ledger \<Rightarrow> nat \<Rightarrow> string \<Rightarrow> bool" where
  "process_holds_live s self g \<longleftrightarrow> (pid_of s self, g) \<in> process_live s"

text \<open>
  A non-blocking attempt on the \<^verbatim>\<open>.live\<close> lock, given back at once: an error, or whether some
  open file holds it.
\<close>

definition try_lock_exclusive_nb :: "ledger \<Rightarrow> fpath \<Rightarrow> bool \<Rightarrow> io_kind + bool" where
  "try_lock_exclusive_nb s p held = (if fault s (LockOp p) then Inl IoOther else Inr held)"

definition owner_instance_alive :: "nat \<Rightarrow> generation \<Rightarrow> ledger \<Rightarrow> bool" where
  "owner_instance_alive self g s =
     (if process_holds_live s self (gen_id g) then True
      else case try_lock_exclusive_nb s (GenerationLivePath (gen_id g)) (live_lock s (gen_id g) \<noteq> None) of
        Inr held_by_other \<Rightarrow> held_by_other
      | Inl _ \<Rightarrow> process_alive (procs s) (owner_pid g) (Some (started_epoch g)))"

definition generation_is_dead :: "nat \<Rightarrow> generation \<Rightarrow> ledger \<Rightarrow> bool" where
  "generation_is_dead self g s =
     (if \<not> owner_instance_alive self g s then True
      else if child_eof g then True
      else case child_pid g of
        Some pid \<Rightarrow> \<not> process_alive (procs s) pid (child_started_epoch g)
      | None \<Rightarrow> False)"

definition recorded_child_is_alive :: "generation \<Rightarrow> ledger \<Rightarrow> bool" where
  "recorded_child_is_alive g s =
     (case child_pid g of
        Some pid \<Rightarrow> process_alive (procs s) pid (child_started_epoch g)
      | None \<Rightarrow> False)"

section \<open>Publishing a terminal status, observing\<close>

definition publish_terminal_locked ::
  "nat \<Rightarrow> turn \<Rightarrow> turn_status \<Rightarrow> string \<Rightarrow> string \<Rightarrow> turn ledger_action" where
  "publish_terminal_locked self t status stop failure =
     (if is_terminal (turn_status t) then ok t
      else
        let nxt = t\<lparr>turn_status := status, stop_reason := stop, failure_reason := failure\<rparr> in
        and_then (write_turn self nxt) (\<lambda>_.
        and_then (match_result (read_thread (turn_thread_id nxt)) (\<lambda>_. ok ())
          (\<lambda>th. if in_progress_turn_id th = turn_id nxt
                then ignore_result (write_thread self (th\<lparr>in_progress_turn_id := []\<rparr>))
                else ok ())) (\<lambda>_.
        and_then (modify (release_live self (turn_generation_id nxt))) (\<lambda>_.
        and_then (modify (wake_and_drop self (turn_id nxt))) (\<lambda>_.
        ok nxt)))))"

definition observe_locked :: "nat \<Rightarrow> string \<Rightarrow> turn ledger_action" where
  "observe_locked self i =
     and_then (read_turn i) (\<lambda>t.
       if is_terminal (turn_status t) then ok t
       else
         and_then (read_generation (turn_generation_id t)) (\<lambda>g s.
           if \<not> generation_is_dead self g s then ok t s
           else publish_terminal_locked self t Failed [] FAILURE_WORKER_GONE s))"

text \<open>\<open>with_turn_lock\<close>: check the identifier, read the turn to learn its thread, lock the thread.\<close>

definition with_turn_lock :: "string \<Rightarrow> 'a ledger_action \<Rightarrow> 'a ledger_action" where
  "with_turn_lock i body =
     and_then (of_result (validate_id i)) (\<lambda>_.
     and_then (read_turn i) (\<lambda>t.
     and_then (lock_exclusive (ThreadLockPath (turn_thread_id t))) (\<lambda>_. body)))"

definition observe :: "nat \<Rightarrow> string \<Rightarrow> turn ledger_action" where
  "observe self i = with_turn_lock i (observe_locked self i)"

definition publish_section ::
  "nat \<Rightarrow> string \<Rightarrow> turn_status \<Rightarrow> string \<Rightarrow> string \<Rightarrow> turn ledger_action" where
  "publish_section self i status stop failure =
     and_then (read_turn i) (\<lambda>t.
       if is_terminal (turn_status t) then err (AlreadyTerminal (turn_id t) (turn_status t))
       else publish_terminal_locked self t status stop failure)"

definition publish_terminal ::
  "nat \<Rightarrow> string \<Rightarrow> turn_status \<Rightarrow> string \<Rightarrow> string \<Rightarrow> turn ledger_action" where
  "publish_terminal self i status stop failure =
     and_then (of_result (validate_id i)) (\<lambda>_.
       if \<not> is_terminal status then err (InvalidStatus NeedsTerminal)
       else with_turn_lock i (publish_section self i status stop failure))"

definition cancel_section :: "nat \<Rightarrow> string \<Rightarrow> turn ledger_action" where
  "cancel_section self i =
     and_then (observe_locked self i) (\<lambda>t.
       if is_terminal (turn_status t) then ok t
       else publish_terminal_locked self t Interrupted ''cancelled'' [])"

definition cancel :: "nat \<Rightarrow> string \<Rightarrow> turn ledger_action" where
  "cancel self i = with_turn_lock i (cancel_section self i)"

section \<open>Listing turns\<close>

text \<open>The names of the JSON files of the turns directory, in directory order.\<close>

definition turn_json_paths :: "string list ledger_action" where
  "turn_json_paths s =
     (if fault s (ListOp TurnsDirPath) then err (Io IoOther) s
      else ok (map fst (filter (\<lambda>(name, n). n \<noteq> Subdir \<and> extension name = Some ''json'') (turns_dir s))) s)"

text \<open>\<open>read_json\<close> on a listed path; the fault it may meet is the one of that file.\<close>

definition stem_of :: "string \<Rightarrow> string" where
  "stem_of name = take (length name - 5) name"

definition read_turn_file :: "string \<Rightarrow> turn ledger_action" where
  "read_turn_file name s = of_result (read_json s (TurnPath (stem_of name)) (map_of (turns_dir s) name)) s"

fun list_turns_from :: "nat \<Rightarrow> string option \<Rightarrow> string list \<Rightarrow> turn list ledger_action" where
  "list_turns_from self cwd [] = ok []"
| "list_turns_from self cwd (name # names) =
     and_then (read_turn_file name) (\<lambda>t0.
     and_then (if is_terminal (turn_status t0) then ok t0 else observe self (turn_id t0)) (\<lambda>t.
     and_then (case cwd of
                 None \<Rightarrow> ok True
               | Some c \<Rightarrow> and_then (read_thread (turn_thread_id t)) (\<lambda>th. ok (thread_cwd th = c))) (\<lambda>keep.
     and_then (list_turns_from self cwd names) (\<lambda>ts.
     ok (if keep then t # ts else ts)))))"

definition list_turns :: "nat \<Rightarrow> string option \<Rightarrow> turn list ledger_action" where
  "list_turns self cwd =
     and_then turn_json_paths (\<lambda>names.
     and_then (list_turns_from self cwd names) (\<lambda>ts.
     ok (sort_key turn_id ts)))"

section \<open>Approvals\<close>

definition park_section :: "nat \<Rightarrow> string \<Rightarrow> turn ledger_action" where
  "park_section self i =
     and_then (read_turn i) (\<lambda>t.
       if is_terminal (turn_status t) then err (AlreadyTerminal (turn_id t) (turn_status t))
       else if pending_approval t
         then err (InvalidStatus (AlreadyPending (turn_id t) (pending_request_id t)))
       else
         and_then (new_id self ''ap'') (\<lambda>request.
           let t' = t\<lparr>pending_request_id := request, pending_decision := []\<rparr> in
           and_then (write_turn self t') (\<lambda>_.
           and_then (modify (wake self (turn_id t'))) (\<lambda>_. ok t'))))"

definition park_approval :: "nat \<Rightarrow> string \<Rightarrow> turn ledger_action" where
  "park_approval self i = with_turn_lock i (park_section self i)"

definition turn_by_pending_request :: "nat \<Rightarrow> string \<Rightarrow> turn option ledger_action" where
  "turn_by_pending_request self request =
     and_then (list_turns self None) (\<lambda>ts.
       ok (List.find (\<lambda>t. pending_request_id t = request) ts))"

definition respond_section :: "nat \<Rightarrow> string \<Rightarrow> string \<Rightarrow> approval_decision \<Rightarrow> turn ledger_action" where
  "respond_section self i request decision =
     and_then (read_turn i) (\<lambda>t.
       if is_terminal (turn_status t) then err (InvalidStatus (StaleRequest request))
       else if pending_request_id t \<noteq> request then err (InvalidStatus (UnknownRequest request))
       else if pending_decision t \<noteq> [] then err (InvalidStatus (DuplicateRequest request))
       else
         let t' = t\<lparr>pending_decision := approval_decision_as_str decision\<rparr> in
         and_then (write_turn self t') (\<lambda>_.
         and_then (modify (wake self (turn_id t'))) (\<lambda>_. ok t')))"

definition respond :: "nat \<Rightarrow> string \<Rightarrow> approval_decision \<Rightarrow> turn ledger_action" where
  "respond self request decision =
     and_then (of_result (validate_id request)) (\<lambda>_.
     and_then (turn_by_pending_request self request) (\<lambda>found.
       case found of
         None \<Rightarrow> err (InvalidStatus (UnknownRequest request))
       | Some t0 \<Rightarrow>
           and_then (lock_exclusive (ThreadLockPath (turn_thread_id t0))) (\<lambda>_.
           respond_section self (turn_id t0) request decision)))"

definition clear_section :: "nat \<Rightarrow> string \<Rightarrow> string \<Rightarrow> turn ledger_action" where
  "clear_section self i request =
     and_then (read_turn i) (\<lambda>t.
       if pending_request_id t = request then
         let t' = t\<lparr>pending_request_id := [], pending_decision := []\<rparr> in
         and_then (write_turn self t') (\<lambda>_.
         and_then (modify (wake self (turn_id t'))) (\<lambda>_. ok t'))
       else ok t)"

definition clear_pending :: "nat \<Rightarrow> string \<Rightarrow> string \<Rightarrow> turn ledger_action" where
  "clear_pending self i request = with_turn_lock i (clear_section self i request)"

section \<open>Items, sessions and children\<close>

fun upsert :: "item \<Rightarrow> item list \<Rightarrow> item list" where
  "upsert it [] = [it]"
| "upsert it (x # xs) = (if item_id x = item_id it then it # xs else x # upsert it xs)"

definition upsert_section :: "nat \<Rightarrow> string \<Rightarrow> item \<Rightarrow> turn ledger_action" where
  "upsert_section self i it =
     and_then (read_turn i) (\<lambda>t.
       if is_terminal (turn_status t) then err (AlreadyTerminal (turn_id t) (turn_status t))
       else
         let t' = t\<lparr>turn_items := upsert it (turn_items t)\<rparr> in
         and_then (write_turn self t') (\<lambda>_.
         and_then (modify (wake self (turn_id t'))) (\<lambda>_. ok t')))"

definition upsert_item :: "nat \<Rightarrow> string \<Rightarrow> item \<Rightarrow> turn ledger_action" where
  "upsert_item self i it =
     and_then (of_result (validate_id i)) (\<lambda>_.
     and_then (of_result (validate_id (item_id it))) (\<lambda>_.
     with_turn_lock i (upsert_section self i it)))"

definition set_acp_session_id :: "nat \<Rightarrow> string \<Rightarrow> string \<Rightarrow> wire_thread ledger_action" where
  "set_acp_session_id self i session =
     and_then (of_result (validate_id i)) (\<lambda>_.
     and_then (lock_exclusive (ThreadLockPath i)) (\<lambda>_.
     and_then (read_thread i) (\<lambda>th.
       let th' = th\<lparr>acp_session_id := session\<rparr> in
       and_then (write_thread self th') (\<lambda>_. ok th'))))"

definition set_child_pid :: "nat \<Rightarrow> string \<Rightarrow> u32 \<Rightarrow> generation ledger_action" where
  "set_child_pid self i pid =
     and_then (of_result (validate_id i)) (\<lambda>_.
     and_then (lock_exclusive (GenerationLockPath i)) (\<lambda>_.
     and_then (read_generation i) (\<lambda>g.
     and_then unix_epoch_secs (\<lambda>now.
       let g' = g\<lparr>child_pid := Some pid, child_started_epoch := Some now, child_eof := False\<rparr> in
       and_then (write_generation_at self i g') (\<lambda>_. ok g')))))"

definition mark_child_eof :: "nat \<Rightarrow> string \<Rightarrow> generation ledger_action" where
  "mark_child_eof self i =
     and_then (of_result (validate_id i)) (\<lambda>_.
     and_then (lock_exclusive (GenerationLockPath i)) (\<lambda>_.
     and_then (read_generation i) (\<lambda>g.
       let g' = g\<lparr>child_eof := True\<rparr> in
       and_then (write_generation_at self i g') (\<lambda>_.
       and_then (modify (if gen_turn_id g' \<noteq> [] then wake self (gen_turn_id g') else wake_all self)) (\<lambda>_.
       ok g')))))"

section \<open>Opening, creating, admitting\<close>

definition open_ledger_home :: "nat \<Rightarrow> string \<Rightarrow> string ledger_action" where
  "open_ledger_home self home =
     (if \<not> is_absolute home then err (InvalidHome ''ledger home must be an absolute path'')
      else (\<lambda>s. if fault s (MkdirOp HomeDirs) then err (Io IoOther) s
                 else and_then (modify (\<lambda>s. s\<lparr>waiters := (waiters s)(self := [])\<rparr>)) (\<lambda>_. ok home) s))"

record new_thread =
  nt_cwd :: string
  nt_model :: string
  nt_sandbox :: thread_sandbox
  nt_approval_policy :: approval_policy
  nt_developer_instructions :: string
  nt_acp_session_id :: string

record new_turn =
  nu_thread_id :: string
  nu_input :: "user_input list"
  nu_model :: string
  nu_effort :: string
  nu_client_request_id :: "string option"

definition create_thread :: "nat \<Rightarrow> new_thread \<Rightarrow> wire_thread ledger_action" where
  "create_thread self spec =
     and_then (new_id self ''th'') (\<lambda>i.
       let th = \<lparr>thread_id = i, thread_cwd = nt_cwd spec, thread_model = nt_model spec,
                 thread_sandbox = nt_sandbox spec, thread_approval_policy = nt_approval_policy spec,
                 developer_instructions = nt_developer_instructions spec,
                 acp_session_id = nt_acp_session_id spec, in_progress_turn_id = []\<rparr> in
       and_then (write_thread self th) (\<lambda>_. ok th))"

definition lookup_client :: "string \<Rightarrow> string option ledger_action" where
  "lookup_client key s =
     (case read_json s (ClientPath key) (map_of (by_client_dir s) (client_filename key)) of
        Inr i \<Rightarrow> ok (Some i) s
      | Inl (Io IoNotFound) \<Rightarrow> ok None s
      | Inl e \<Rightarrow> err e s)"

definition store_client :: "nat \<Rightarrow> string \<Rightarrow> string \<Rightarrow> unit ledger_action" where
  "store_client self key i = write_json_atomic self (ClientPath key) (put_client key i)"

fun scan_client :: "nat \<Rightarrow> string \<Rightarrow> string list \<Rightarrow> turn option ledger_action" where
  "scan_client self key [] = ok None"
| "scan_client self key (name # names) =
     and_then (read_turn_file name) (\<lambda>t0.
       if client_request_id t0 \<noteq> key then scan_client self key names
       else and_then (observe self (turn_id t0)) (\<lambda>t.
         if \<not> is_terminal (turn_status t) then ok (Some t) else scan_client self key names))"

definition in_flight_by_client :: "nat \<Rightarrow> string \<Rightarrow> turn option ledger_action" where
  "in_flight_by_client self key =
     and_then (lookup_client key) (\<lambda>found.
       let scan = and_then turn_json_paths (scan_client self key) in
       case found of
         None \<Rightarrow> scan
       | Some i \<Rightarrow>
           match_result (observe self i)
             (\<lambda>e. case e of NotFound _ _ \<Rightarrow> scan | _ \<Rightarrow> err e)
             (\<lambda>t. if \<not> is_terminal (turn_status t) \<and> client_request_id t = key then ok (Some t) else scan))"

fun scan_live :: "nat \<Rightarrow> string \<Rightarrow> string list \<Rightarrow> turn option ledger_action" where
  "scan_live self i [] = ok None"
| "scan_live self i (name # names) =
     and_then (read_turn_file name) (\<lambda>t0.
       if turn_thread_id t0 \<noteq> i then scan_live self i names
       else
         and_then (if is_terminal (turn_status t0) then ok t0 else observe_locked self (turn_id t0)) (\<lambda>t.
           if \<not> is_terminal (turn_status t) then ok (Some t) else scan_live self i names))"

definition live_turn_on_thread_locked :: "nat \<Rightarrow> wire_thread \<Rightarrow> turn option ledger_action" where
  "live_turn_on_thread_locked self th =
     (let scan = and_then turn_json_paths (scan_live self (thread_id th)) in
      if in_progress_turn_id th \<noteq> [] then
        match_result (observe_locked self (in_progress_turn_id th))
          (\<lambda>e. case e of NotFound _ _ \<Rightarrow> scan | _ \<Rightarrow> err e)
          (\<lambda>t. if \<not> is_terminal (turn_status t) then ok (Some t) else scan)
      else scan)"

definition fresh_generation :: "string \<Rightarrow> string \<Rightarrow> u32 \<Rightarrow> u64 \<Rightarrow> generation" where
  "fresh_generation g i pid now =
     \<lparr>gen_id = g, gen_turn_id = i, owner_pid = pid, started_epoch = now,
      child_pid = None, child_started_epoch = None, child_eof = False\<rparr>"

definition fresh_turn :: "string \<Rightarrow> string \<Rightarrow> string \<Rightarrow> new_turn \<Rightarrow> turn" where
  "fresh_turn i th g spec =
     \<lparr>turn_id = i, turn_thread_id = th, turn_generation_id = g, turn_status = InProgress,
      turn_input = nu_input spec, turn_model = nu_model spec, turn_effort = nu_effort spec,
      stop_reason = [], failure_reason = [],
      client_request_id = (case nu_client_request_id spec of None \<Rightarrow> [] | Some k \<Rightarrow> k),
      pending_request_id = [], pending_decision = [], turn_items = []\<rparr>"

text \<open>
  The part of \<open>admit_turn\<close> after the checks: the records are made, then written in this order.
  The turn file is the persist point: later writes cannot turn the call into an error.
\<close>

definition admit_writes :: "nat \<Rightarrow> string option \<Rightarrow> wire_thread \<Rightarrow> generation \<Rightarrow> turn \<Rightarrow> turn ledger_action" where
  "admit_writes self client th gen t =
     and_then (write_generation self gen) (\<lambda>_.
     and_then (write_turn self t) (\<lambda>_.
     and_then (ignore_result (write_thread self (th\<lparr>in_progress_turn_id := turn_id t\<rparr>))) (\<lambda>_.
     and_then (case client of
                 None \<Rightarrow> ok ()
               | Some key \<Rightarrow> if key = [] then ok () else ignore_result (store_client self key (turn_id t))) (\<lambda>_.
     and_then (modify (hold_live self (gen_id gen))) (\<lambda>_.
     ok t)))))"

definition admit_fresh :: "nat \<Rightarrow> new_turn \<Rightarrow> wire_thread \<Rightarrow> turn ledger_action" where
  "admit_fresh self spec th =
     and_then (new_id self ''g'') (\<lambda>g.
     and_then (new_id self ''tu'') (\<lambda>i.
     and_then unix_epoch_secs (\<lambda>now s.
       admit_writes self (nu_client_request_id spec) th
         (fresh_generation g i (pid_of s self) now) (fresh_turn i (thread_id th) g spec) s)))"

text \<open>What \<open>admit_turn\<close> does under the lock of the thread.\<close>

definition admit_section :: "nat \<Rightarrow> new_turn \<Rightarrow> turn ledger_action" where
  "admit_section self spec =
     and_then (read_thread (nu_thread_id spec)) (\<lambda>th.
     and_then (live_turn_on_thread_locked self th) (\<lambda>current.
       case current of
         Some t \<Rightarrow> err (TurnInProgress (thread_id th) (turn_id t))
       | None \<Rightarrow> admit_fresh self spec (th\<lparr>in_progress_turn_id := []\<rparr>)))"

definition existing_turn :: "nat \<Rightarrow> string option \<Rightarrow> turn option ledger_action" where
  "existing_turn self client =
     (case client of
        None \<Rightarrow> ok None
      | Some key \<Rightarrow> if key = [] then ok None else in_flight_by_client self key)"

definition admit_turn :: "nat \<Rightarrow> new_turn \<Rightarrow> turn ledger_action" where
  "admit_turn self spec =
     and_then (of_result (validate_id (nu_thread_id spec))) (\<lambda>_.
     and_then (lock_exclusive AdmitLockPath) (\<lambda>_.
     and_then (existing_turn self (nu_client_request_id spec)) (\<lambda>existing.
       case existing of
         Some t \<Rightarrow> ok t
       | None \<Rightarrow>
           and_then (lock_exclusive (ThreadLockPath (nu_thread_id spec))) (\<lambda>_.
           admit_section self spec))))"

section \<open>Waiting\<close>

text \<open>
  Between two polls of a waiting loop the caller sleeps, the clock advances and other
  processes run: \<open>sched\<close> lists, per sleep, the instant read before it and what happens
  during it. The result is \<open>None\<close> when the schedule ends and the loop is still waiting.
\<close>

type_synonym schedule = "(nat \<times> (ledger \<Rightarrow> ledger)) list"

fun wait_loop :: "nat \<Rightarrow> string \<Rightarrow> nat option \<Rightarrow> schedule \<Rightarrow> ledger \<Rightarrow> ((ledger_error + turn) \<times> ledger) option" where
  "wait_loop self i deadline sched s =
     (case observe self i s of
        (Inl e, s') \<Rightarrow> Some (Inl e, s')
      | (Inr t, s') \<Rightarrow>
          if is_terminal (turn_status t) \<or> pending_approval t then Some (Inr t, s')
          else case sched of
            [] \<Rightarrow> None
          | (now, env) # rest \<Rightarrow>
              (case deadline of
                 Some dl \<Rightarrow> if now \<ge> dl then Some (Inr t, s') else wait_loop self i deadline rest (env s')
               | None \<Rightarrow> wait_loop self i deadline rest (env s')))"

declare wait_loop.simps [simp del]

definition with_waiter ::
  "nat \<Rightarrow> string \<Rightarrow> (ledger \<Rightarrow> ((ledger_error + 'a) \<times> ledger) option) \<Rightarrow> ledger \<Rightarrow> ((ledger_error + 'a) \<times> ledger) option" where
  "with_waiter self i body s =
     (let (pair, s1) = waiter self i s in
      case body s1 of
        None \<Rightarrow> None
      | Some (r, s2) \<Rightarrow> Some (r, drop_pair pair (release_waiter self i pair s2)))"

text \<open>\<open>start\<close> is the instant at which the call reads the clock for its deadline.\<close>

definition wait :: "nat \<Rightarrow> string \<Rightarrow> nat option \<Rightarrow> nat \<Rightarrow> schedule \<Rightarrow> ledger \<Rightarrow> ((ledger_error + turn) \<times> ledger) option" where
  "wait self i timeout start sched s =
     (case validate_id i of
        Inl e \<Rightarrow> Some (Inl e, s)
      | Inr _ \<Rightarrow> with_waiter self i (wait_loop self i (map_option (\<lambda>d. start + d) timeout) sched) s)"

fun wait_decision_loop ::
  "nat \<Rightarrow> string \<Rightarrow> string \<Rightarrow> (ledger \<Rightarrow> ledger) list \<Rightarrow> ledger \<Rightarrow> ((ledger_error + approval_decision option) \<times> ledger) option" where
  "wait_decision_loop self i request sched s =
     (case observe self i s of
        (Inl e, s') \<Rightarrow> Some (Inl e, s')
      | (Inr t, s') \<Rightarrow>
          if is_terminal (turn_status t) then Some (Inr None, s')
          else if pending_request_id t = request \<and> pending_decision t \<noteq> [] then
            (case parse_approval_decision (pending_decision t) of
               Inr d \<Rightarrow> Some (Inr (Some d), s')
             | Inl e \<Rightarrow> Some (Inl (InvalidStatus (BadDecision e)), s'))
          else case sched of
            [] \<Rightarrow> None
          | env # rest \<Rightarrow> wait_decision_loop self i request rest (env s'))"

declare wait_decision_loop.simps [simp del]

definition wait_pending_decision ::
  "nat \<Rightarrow> string \<Rightarrow> string \<Rightarrow> (ledger \<Rightarrow> ledger) list \<Rightarrow> ledger \<Rightarrow> ((ledger_error + approval_decision option) \<times> ledger) option" where
  "wait_pending_decision self i request sched s =
     (case validate_id i of
        Inl e \<Rightarrow> Some (Inl e, s)
      | Inr _ \<Rightarrow>
          (case validate_id request of
             Inl e \<Rightarrow> Some (Inl e, s)
           | Inr _ \<Rightarrow> with_waiter self i (wait_decision_loop self i request sched) s))"

section \<open>Dropping a ledger, losing a process\<close>

text \<open>
  Dropping a \<open>Ledger\<close> value drops its holds. When a process ends, however it ends, the
  operating system releases every lock it had and its memory is gone.
\<close>

definition drop_ledger :: "nat \<Rightarrow> ledger \<Rightarrow> ledger" where
  "drop_ledger self s =
     s\<lparr>live_files := {(l, g). (l, g) \<in> live_files s \<and> l \<noteq> self},
       process_live := {(p, g). (p, g) \<in> process_live s \<and> \<not> (p = pid_of s self \<and> (self, g) \<in> live_files s)},
       live_lock := (\<lambda>g. if live_lock s g = Some self then None else live_lock s g)\<rparr>"

definition end_process :: "u32 \<Rightarrow> ledger \<Rightarrow> ledger" where
  "end_process p s =
     s\<lparr>live_files := {(l, g). (l, g) \<in> live_files s \<and> pid_of s l \<noteq> p},
       process_live := {(q, g). (q, g) \<in> process_live s \<and> q \<noteq> p},
       live_lock := (\<lambda>g. case live_lock s g of
                           Some l \<Rightarrow> if pid_of s l = p then None else Some l
                         | None \<Rightarrow> None)\<rparr>"

end
