(* ===== verification/LedgerSpec.thy ===== *)
theory LedgerSpec
  imports Ledger
begin

text \<open>
  The contract of the ledger and that \<^verbatim>\<open>crates/core/src/ledger.rs\<close> implements it.

  The contract is a step relation on three finite maps, from identifiers to thread, turn and
  generation records: a turn is admitted only on a thread without a turn in progress and with
  its generation recorded, only a turn in progress changes (but for its approval fields, which
  may be cleared at any time), and what identifies a record never changes.

  The detailed system is \<open>ledger_step\<close>: one rule per critical section of the code, run by any
  open ledger of any process, and one rule for everything that leaves the records alone (the
  clock, locks, processes ending, faults appearing). Every section refines the contract.
\<close>

section \<open>The contract\<close>

record spec_state =
  sp_threads :: "string \<rightharpoonup> wire_thread"
  sp_turns :: "string \<rightharpoonup> turn"
  sp_gens :: "string \<rightharpoonup> generation"

definition same_identity :: "turn \<Rightarrow> turn \<Rightarrow> bool" where
  "same_identity t t' \<longleftrightarrow>
     turn_id t' = turn_id t \<and> turn_thread_id t' = turn_thread_id t \<and>
     turn_generation_id t' = turn_generation_id t \<and> turn_input t' = turn_input t \<and>
     turn_model t' = turn_model t \<and> turn_effort t' = turn_effort t \<and>
     client_request_id t' = client_request_id t"

definition outcome :: "turn \<Rightarrow> turn_status \<times> string \<times> string \<times> item list" where
  "outcome t = (turn_status t, stop_reason t, failure_reason t, turn_items t)"

definition thread_frozen :: "wire_thread \<Rightarrow> wire_thread \<Rightarrow> bool" where
  "thread_frozen th th' \<longleftrightarrow>
     th' = th\<lparr>acp_session_id := acp_session_id th', in_progress_turn_id := in_progress_turn_id th'\<rparr>"

definition generation_frozen :: "generation \<Rightarrow> generation \<Rightarrow> bool" where
  "generation_frozen g g' \<longleftrightarrow>
     gen_id g' = gen_id g \<and> gen_turn_id g' = gen_turn_id g \<and> owner_pid g' = owner_pid g \<and>
     started_epoch g' = started_epoch g"

definition thread_idle :: "spec_state \<Rightarrow> string \<Rightarrow> bool" where
  "thread_idle \<sigma> th \<longleftrightarrow>
     (\<forall>i t. sp_turns \<sigma> i = Some t \<longrightarrow> turn_thread_id t = th \<longrightarrow> is_terminal (turn_status t))"

inductive spec_step :: "spec_state \<Rightarrow> spec_state \<Rightarrow> bool" where
  new_thread:
    "sp_threads \<sigma> (thread_id th) = None \<Longrightarrow> in_progress_turn_id th = [] \<Longrightarrow>
     spec_step \<sigma> (\<sigma>\<lparr>sp_threads := (sp_threads \<sigma>)(thread_id th \<mapsto> th)\<rparr>)"
| thread_update:
    "sp_threads \<sigma> (thread_id th) = Some th \<Longrightarrow> thread_frozen th th' \<Longrightarrow>
     spec_step \<sigma> (\<sigma>\<lparr>sp_threads := (sp_threads \<sigma>)(thread_id th \<mapsto> th')\<rparr>)"
| new_generation:
    "sp_gens \<sigma> (gen_id g) = None \<Longrightarrow> child_pid g = None \<Longrightarrow> \<not> child_eof g \<Longrightarrow>
     spec_step \<sigma> (\<sigma>\<lparr>sp_gens := (sp_gens \<sigma>)(gen_id g \<mapsto> g)\<rparr>)"
| generation_update:
    "sp_gens \<sigma> (gen_id g) = Some g \<Longrightarrow> generation_frozen g g' \<Longrightarrow>
     spec_step \<sigma> (\<sigma>\<lparr>sp_gens := (sp_gens \<sigma>)(gen_id g \<mapsto> g')\<rparr>)"
| admit:
    "sp_turns \<sigma> (turn_id t) = None \<Longrightarrow> turn_status t = InProgress \<Longrightarrow>
     sp_threads \<sigma> (turn_thread_id t) \<noteq> None \<Longrightarrow> sp_gens \<sigma> (turn_generation_id t) \<noteq> None \<Longrightarrow>
     thread_idle \<sigma> (turn_thread_id t) \<Longrightarrow>
     spec_step \<sigma> (\<sigma>\<lparr>sp_turns := (sp_turns \<sigma>)(turn_id t \<mapsto> t)\<rparr>)"
| turn_update:
    "sp_turns \<sigma> (turn_id t) = Some t \<Longrightarrow> \<not> is_terminal (turn_status t) \<Longrightarrow> same_identity t t' \<Longrightarrow>
     spec_step \<sigma> (\<sigma>\<lparr>sp_turns := (sp_turns \<sigma>)(turn_id t \<mapsto> t')\<rparr>)"
| clear_approval:
    "sp_turns \<sigma> (turn_id t) = Some t \<Longrightarrow>
     spec_step \<sigma> (\<sigma>\<lparr>sp_turns := (sp_turns \<sigma>)(turn_id t \<mapsto> t\<lparr>pending_request_id := [], pending_decision := []\<rparr>)\<rparr>)"

inductive_cases spec_step_cases: "spec_step \<sigma> \<sigma>'"

text \<open>The invariant of the contract, and what a step keeps of each record.\<close>

definition one_live :: "(string \<rightharpoonup> turn) \<Rightarrow> bool" where
  "one_live turns \<longleftrightarrow>
     (\<forall>i j t u. turns i = Some t \<longrightarrow> turns j = Some u \<longrightarrow>
        turn_status t = InProgress \<longrightarrow> turn_status u = InProgress \<longrightarrow>
        turn_thread_id t = turn_thread_id u \<longrightarrow> i = j)"

definition turn_linked :: "spec_state \<Rightarrow> string \<Rightarrow> turn \<Rightarrow> bool" where
  "turn_linked \<sigma> i t \<longleftrightarrow>
     turn_id t = i \<and> turn_thread_id t \<in> dom (sp_threads \<sigma>) \<and> turn_generation_id t \<in> dom (sp_gens \<sigma>)"

definition linked :: "spec_state \<Rightarrow> bool" where
  "linked \<sigma> \<longleftrightarrow> (\<forall>i t. sp_turns \<sigma> i = Some t \<longrightarrow> turn_linked \<sigma> i t)"

definition spec_inv :: "spec_state \<Rightarrow> bool" where
  "spec_inv \<sigma> \<longleftrightarrow> one_live (sp_turns \<sigma>) \<and> linked \<sigma>"

definition turn_evolves :: "turn \<Rightarrow> turn \<Rightarrow> bool" where
  "turn_evolves t t' \<longleftrightarrow>
     same_identity t t' \<and> (is_terminal (turn_status t) \<longrightarrow> outcome t' = outcome t)"

definition evolves :: "spec_state \<Rightarrow> spec_state \<Rightarrow> bool" where
  "evolves \<sigma> \<sigma>' \<longleftrightarrow>
     (\<forall>i t. sp_turns \<sigma> i = Some t \<longrightarrow> (\<exists>t'. sp_turns \<sigma>' i = Some t' \<and> turn_evolves t t')) \<and>
     (\<forall>i th. sp_threads \<sigma> i = Some th \<longrightarrow> (\<exists>th'. sp_threads \<sigma>' i = Some th' \<and> thread_frozen th th')) \<and>
     (\<forall>i g. sp_gens \<sigma> i = Some g \<longrightarrow> (\<exists>g'. sp_gens \<sigma>' i = Some g' \<and> generation_frozen g g'))"

lemma same_identity_refl [simp]: "same_identity t t"
  by (simp add: same_identity_def)

lemma thread_frozen_refl [simp]: "thread_frozen th th"
  by (simp add: thread_frozen_def)

lemma generation_frozen_refl [simp]: "generation_frozen g g"
  by (simp add: generation_frozen_def)

lemma turn_evolves_refl [simp]: "turn_evolves t t"
  by (simp add: turn_evolves_def)

lemma thread_frozen_iff:
  "thread_frozen th th' \<longleftrightarrow>
     thread_id th' = thread_id th \<and> thread_cwd th' = thread_cwd th \<and> thread_model th' = thread_model th \<and>
     thread_sandbox th' = thread_sandbox th \<and> thread_approval_policy th' = thread_approval_policy th \<and>
     developer_instructions th' = developer_instructions th"
  by (cases th; cases th') (auto simp: thread_frozen_def)

lemma thread_frozen_trans: "thread_frozen a b \<Longrightarrow> thread_frozen b c \<Longrightarrow> thread_frozen a c"
  by (simp add: thread_frozen_iff)

lemma generation_frozen_trans: "generation_frozen a b \<Longrightarrow> generation_frozen b c \<Longrightarrow> generation_frozen a c"
  by (simp add: generation_frozen_def)

lemma turn_evolves_trans: "turn_evolves a b \<Longrightarrow> turn_evolves b c \<Longrightarrow> turn_evolves a c"
  by (auto simp: turn_evolves_def same_identity_def outcome_def)

lemma evolves_refl [simp]: "evolves \<sigma> \<sigma>"
  by (simp add: evolves_def)

lemma evolves_trans: "evolves a b \<Longrightarrow> evolves b c \<Longrightarrow> evolves a c"
  unfolding evolves_def by (meson turn_evolves_trans thread_frozen_trans generation_frozen_trans)

lemma evolvesD:
  assumes "evolves \<sigma> \<sigma>'"
  shows "sp_turns \<sigma> i = Some t \<Longrightarrow> \<exists>t'. sp_turns \<sigma>' i = Some t' \<and> turn_evolves t t'"
    and "sp_threads \<sigma> i = Some th \<Longrightarrow> \<exists>th'. sp_threads \<sigma>' i = Some th' \<and> thread_frozen th th'"
    and "sp_gens \<sigma> i = Some g \<Longrightarrow> \<exists>g'. sp_gens \<sigma>' i = Some g' \<and> generation_frozen g g'"
  using assms by (simp_all add: evolves_def)

lemma spec_step_evolves: "spec_step \<sigma> \<sigma>' \<Longrightarrow> evolves \<sigma> \<sigma>'"
  by (cases rule: spec_step.cases)
    (auto simp: evolves_def turn_evolves_def same_identity_def outcome_def split: if_splits)

lemma one_live_update:
  assumes "one_live turns" "turns i = Some t" "turn_thread_id t' = turn_thread_id t"
    and "turn_status t' = InProgress \<Longrightarrow> turn_status t = InProgress"
  shows "one_live (turns(i \<mapsto> t'))"
  unfolding one_live_def
proof (intro allI impI)
  fix j k u v
  assume u: "(turns(i \<mapsto> t')) j = Some u" "turn_status u = InProgress"
    and v: "(turns(i \<mapsto> t')) k = Some v" "turn_status v = InProgress"
    and same: "turn_thread_id u = turn_thread_id v"
  have was: "\<exists>y. turns n = Some y \<and> turn_status y = InProgress \<and> turn_thread_id y = turn_thread_id x"
    if "(turns(i \<mapsto> t')) n = Some x" "turn_status x = InProgress" for n x
    using that assms by (cases "n = i") auto
  from was [OF u] was [OF v] same assms(1) show "j = k"
    unfolding one_live_def by metis
qed

lemma one_live_admit:
  "one_live (sp_turns \<sigma>) \<Longrightarrow> thread_idle \<sigma> (turn_thread_id t) \<Longrightarrow> one_live ((sp_turns \<sigma>)(i \<mapsto> t))"
  unfolding one_live_def thread_idle_def by (auto simp: is_terminal_iff)

lemma turn_linked_mono:
  "turn_linked \<sigma> i t \<Longrightarrow> dom (sp_threads \<sigma>) \<subseteq> dom (sp_threads \<sigma>') \<Longrightarrow> dom (sp_gens \<sigma>) \<subseteq> dom (sp_gens \<sigma>') \<Longrightarrow>
     turn_linked \<sigma>' i t"
  by (auto simp: turn_linked_def)

lemma linked_mono:
  assumes "linked \<sigma>" "dom (sp_threads \<sigma>) \<subseteq> dom (sp_threads \<sigma>')" "dom (sp_gens \<sigma>) \<subseteq> dom (sp_gens \<sigma>')"
    and "\<And>i t. sp_turns \<sigma>' i = Some t \<Longrightarrow> sp_turns \<sigma> i = Some t \<or> turn_linked \<sigma>' i t"
  shows "linked \<sigma>'"
  using assms unfolding linked_def by (meson turn_linked_mono)

lemma linked_step:
  assumes "spec_step \<sigma> \<sigma>'" "linked \<sigma>"
  shows "linked \<sigma>'"
  using assms(1)
proof (cases rule: spec_step.cases)
  case (admit t)
  then show ?thesis by (intro linked_mono [OF assms(2)]) (auto simp: turn_linked_def split: if_splits)
next
  case (turn_update t t')
  then have "turn_linked \<sigma> (turn_id t) t" using assms(2) by (simp add: linked_def)
  with turn_update show ?thesis
    by (intro linked_mono [OF assms(2)]) (simp_all add: turn_linked_def same_identity_def split: if_splits)
next
  case (clear_approval t)
  then have "turn_linked \<sigma> (turn_id t) t" using assms(2) by (simp add: linked_def)
  with clear_approval show ?thesis
    by (intro linked_mono [OF assms(2)]) (auto simp: turn_linked_def split: if_splits)
qed (rule linked_mono [OF assms(2)]; force)+

lemma spec_step_inv:
  assumes "spec_step \<sigma> \<sigma>'" "spec_inv \<sigma>"
  shows "spec_inv \<sigma>'"
proof -
  have live: "one_live (sp_turns \<sigma>)" using assms(2) by (simp add: spec_inv_def)
  have "one_live (sp_turns \<sigma>')"
    using assms(1)
  proof (cases rule: spec_step.cases)
    case (turn_update t t')
    then show ?thesis using one_live_update [OF live, of "turn_id t" t t']
      by (simp add: is_terminal_iff same_identity_def)
  next
    case (clear_approval t)
    then show ?thesis using one_live_update [OF live, of "turn_id t" t "t\<lparr>pending_request_id := [], pending_decision := []\<rparr>"] by simp
  qed (simp_all add: live one_live_admit)
  then show ?thesis using assms linked_step by (simp add: spec_inv_def)
qed

lemma spec_steps_evolve: "spec_step\<^sup>*\<^sup>* \<sigma> \<sigma>' \<Longrightarrow> evolves \<sigma> \<sigma>'"
  by (induction rule: rtranclp_induct) (auto intro: evolves_trans spec_step_evolves)

lemma spec_steps_inv: "spec_step\<^sup>*\<^sup>* \<sigma> \<sigma>' \<Longrightarrow> spec_inv \<sigma> \<Longrightarrow> spec_inv \<sigma>'"
  by (induction rule: rtranclp_induct) (auto intro: spec_step_inv)

section \<open>Abstraction and simulation\<close>

definition abs :: "ledger \<Rightarrow> spec_state" where
  "abs s = \<lparr>sp_threads = thread_at s, sp_turns = turn_at s, sp_gens = generation_at s\<rparr>"

text \<open>
  Every record file is named after the identifier in its body, and no turn has the empty
  identifier, whose file a listing would not show.
\<close>

definition ledger_inv :: "ledger \<Rightarrow> bool" where
  "ledger_inv s \<longleftrightarrow>
     thread_store.self_named s \<and> turn_store.self_named s \<and> generation_store.self_named s \<and> turn_at s [] = None"

text \<open>
  \<open>simulates s s'\<close>: going from \<open>s\<close> to \<open>s'\<close> keeps the invariant and is a run of the contract.
\<close>

definition simulates :: "ledger \<Rightarrow> ledger \<Rightarrow> bool" where
  "simulates s s' \<longleftrightarrow> (ledger_inv s \<longrightarrow> ledger_inv s' \<and> spec_step\<^sup>*\<^sup>* (abs s) (abs s'))"

interpretation sim: frame_relation simulates
  by unfold_locales (auto simp: simulates_def)

lemma abs_put [simp]:
  "abs (put_thread th s) = (abs s)\<lparr>sp_threads := (sp_threads (abs s))(thread_id th \<mapsto> th)\<rparr>"
  "abs (put_turn t s) = (abs s)\<lparr>sp_turns := (sp_turns (abs s))(turn_id t \<mapsto> t)\<rparr>"
  "abs (put_generation g s) = (abs s)\<lparr>sp_gens := (sp_gens (abs s))(gen_id g \<mapsto> g)\<rparr>"
  by (auto simp: abs_def fun_eq_iff)

lemma abs_sel [simp]:
  "sp_threads (abs s) = thread_at s" "sp_turns (abs s) = turn_at s" "sp_gens (abs s) = generation_at s"
  by (simp_all add: abs_def)

lemma self_named_frames [simp]:
  "thread_store.self_named (put_turn t s) = thread_store.self_named s"
  "thread_store.self_named (put_generation g s) = thread_store.self_named s"
  "turn_store.self_named (put_thread th s) = turn_store.self_named s"
  "turn_store.self_named (put_generation g s) = turn_store.self_named s"
  "generation_store.self_named (put_thread th s) = generation_store.self_named s"
  "generation_store.self_named (put_turn t s) = generation_store.self_named s"
  by (simp_all add: thread_store.self_named_def turn_store.self_named_def generation_store.self_named_def)

lemma ledger_inv_put:
  assumes "ledger_inv s"
  shows "ledger_inv (put_thread th s)" "turn_id t \<noteq> [] \<Longrightarrow> ledger_inv (put_turn t s)"
    "ledger_inv (put_generation g s)"
  using assms
  by (simp_all add: ledger_inv_def thread_store.self_named_put turn_store.self_named_put
      generation_store.self_named_put)

lemma ledger_invD:
  assumes "ledger_inv s"
  shows "thread_at s i = Some th \<Longrightarrow> thread_id th = i" "turn_at s i = Some t \<Longrightarrow> turn_id t = i"
    "generation_at s i = Some g \<Longrightarrow> gen_id g = i" "turn_at s i = Some t \<Longrightarrow> i \<noteq> []"
  using assms
  by (auto simp add: ledger_inv_def thread_store.self_named_def turn_store.self_named_def
      generation_store.self_named_def)

lemma sim_same_records:
  assumes "same_records s s'"
  shows "simulates s s'"
proof -
  have "abs s' = abs s" and "ledger_inv s' = ledger_inv s"
    using same_records_at [OF assms]
    by (simp_all add: abs_def ledger_inv_def thread_store.self_named_def turn_store.self_named_def
        generation_store.self_named_def)
  then show ?thesis by (simp add: simulates_def)
qed

lemma sim_put_turn:
  assumes "turn_at s i = Some t" "\<not> is_terminal (turn_status t)" "same_identity t t'"
  shows "simulates s (put_turn t' s)"
  unfolding simulates_def
proof (intro impI conjI)
  assume inv: "ledger_inv s"
  have "turn_id t' = turn_id t" "turn_id t = i" "i \<noteq> []"
    using assms(3) ledger_invD(2,4) [OF inv assms(1)] by (simp_all add: same_identity_def)
  then show "ledger_inv (put_turn t' s)"
    and "spec_step\<^sup>*\<^sup>* (abs s) (abs (put_turn t' s))"
    using assms inv spec_step.turn_update [of "abs s" t t'] by (auto intro: ledger_inv_put r_into_rtranclp)
qed

lemma sim_clear_turn:
  assumes "turn_at s i = Some t"
  shows "simulates s (put_turn (t\<lparr>pending_request_id := [], pending_decision := []\<rparr>) s)"
  unfolding simulates_def
  using assms spec_step.clear_approval [of "abs s" t] ledger_invD(2,4) [OF _ assms]
  by (auto intro: ledger_inv_put r_into_rtranclp)

lemma sim_put_thread:
  assumes "thread_at s i = Some th" "thread_frozen th th'"
  shows "simulates s (put_thread th' s)"
  unfolding simulates_def
proof (intro impI conjI)
  assume inv: "ledger_inv s"
  then show "ledger_inv (put_thread th' s)" by (rule ledger_inv_put)
  have "thread_id th' = thread_id th" "thread_id th = i"
    using assms(2) ledger_invD(1) [OF inv assms(1)] by (simp_all add: thread_frozen_iff)
  then show "spec_step\<^sup>*\<^sup>* (abs s) (abs (put_thread th' s))"
    using assms spec_step.thread_update [of "abs s" th th'] by (auto intro: r_into_rtranclp)
qed

lemma sim_put_generation_at:
  assumes "generation_at s i = Some g" "generation_frozen g g'"
  shows "simulates s (put_generation_at i g' s)"
  unfolding simulates_def
proof (intro impI)
  assume inv: "ledger_inv s"
  have eq: "gen_id g' = gen_id g" "gen_id g = i"
    using assms(2) ledger_invD(3) [OF inv assms(1)] by (simp_all add: generation_frozen_def)
  then have "put_generation_at i g' s = put_generation g' s"
    by (simp add: put_generation_def)
  then show "ledger_inv (put_generation_at i g' s) \<and> spec_step\<^sup>*\<^sup>* (abs s) (abs (put_generation_at i g' s))"
    using eq assms spec_step.generation_update [of "abs s" g g']
    by (auto intro: ledger_inv_put inv r_into_rtranclp)
qed

text \<open>The writes of the sections: whatever the write returns, the state moved along the contract.\<close>

lemma sim_bump: "simulates s (bump_seq self s)"
  by (rule sim_same_records) simp

lemma sim_write_turn:
  assumes "turn_at s i = Some t" "\<not> is_terminal (turn_status t)" "same_identity t t'"
  shows "simulates s (snd (write_turn self t' s))"
  using sim_put_turn [of "bump_seq self s" i t t'] assms sim_bump [of s self]
  by (auto simp: wp intro: sim.frame_trans)

lemma sim_write_clear:
  assumes "turn_at s i = Some t"
  shows "simulates s (snd (write_turn self (t\<lparr>pending_request_id := [], pending_decision := []\<rparr>) s))"
  using sim_clear_turn [of "bump_seq self s" i t] assms sim_bump [of s self]
  by (auto simp: wp intro: sim.frame_trans)

lemma sim_write_thread:
  assumes "thread_at s i = Some th" "thread_frozen th th'"
  shows "simulates s (snd (write_thread self th' s))"
  using sim_put_thread [of "bump_seq self s" i th th'] assms sim_bump [of s self]
  by (auto simp: wp intro: sim.frame_trans)

lemma sim_write_generation_at:
  assumes "generation_at s i = Some g" "generation_frozen g g'"
  shows "simulates s (snd (write_generation_at self i g' s))"
  using sim_put_generation_at [of "bump_seq self s" i g g'] assms sim_bump [of s self]
  by (auto simp: wp intro: sim.frame_trans)

section \<open>The memory of the processes is not on disk\<close>

lemma same_records_memory [simp]:
  "same_records s (wake self i s)" "same_records s (wake_all self s)"
  "same_records s (remove_slot self i s)" "same_records s (wake_and_drop self i s)"
  "same_records s (release_live self g s)" "same_records s (hold_live self g s)"
  "same_records s (drop_pair a s)" "same_records s (release_waiter self i a s)"
  "same_records s (snd (waiter self i s))" "same_records s (drop_ledger self s)"
  "same_records s (end_process p s)"
proof -
  have notify: "same_records s (notify_all a s)" for a s
    by (simp add: same_records_def notify_all_def)
  have wake: "same_records s (wake self i s)" for s
    by (simp add: wake_def notify split: option.split)
  have "same_records s (fold notify_all as s)" for as
    by (induction as arbitrary: s) (auto intro: same_records_trans notify)
  then show "same_records s (wake_all self s)" by (simp add: wake_all_def)
  have drop: "same_records s (remove_slot self i s)" for s
    by (simp add: same_records_def remove_slot_def split: option.split)
  then show "same_records s (remove_slot self i s)" .
  show "same_records s (wake self i s)" by (rule wake)
  show "same_records s (wake_and_drop self i s)"
    using wake drop unfolding wake_and_drop_def by (rule same_records_trans)
  show "same_records s (release_waiter self i a s)"
    unfolding release_waiter_def Let_def using notify drop by (auto intro: same_records_trans)
qed (simp_all add: same_records_def release_live_def hold_live_def drop_pair_def waiter_def
    drop_ledger_def end_process_def Let_def split: option.split)

lemma sim_memory [intro]:
  "simulates s (wake self i s)" "simulates s (wake_all self s)" "simulates s (wake_and_drop self i s)"
  "simulates s (release_live self g s)" "simulates s (hold_live self g s)"
  "simulates s (drop_pair a s)" "simulates s (release_waiter self i a s)"
  "simulates s (snd (waiter self i s))"
  by (simp_all add: sim_same_records)

section \<open>Every critical section refines the contract\<close>

lemma read_Inr:
  "fst (read_turn i s) = Inr t \<longleftrightarrow> valid_id i \<and> \<not> fault s (ReadOp (TurnPath i)) \<and> turn_at s i = Some t"
  "fst (read_thread i s) = Inr th \<longleftrightarrow> valid_id i \<and> \<not> fault s (ReadOp (ThreadPath i)) \<and> thread_at s i = Some th"
  "fst (read_generation i s) = Inr g \<longleftrightarrow>
     valid_id i \<and> \<not> fault s (ReadOp (GenerationPath i)) \<and> generation_at s i = Some g"
  by (simp_all add: wp result_Inr)

lemma read_snd [simp]:
  "snd (read_turn i s) = s" "snd (read_thread i s) = s" "snd (read_generation i s) = s"
  "snd (lock_exclusive p s) = s"
  by (simp_all add: wp)

lemma sim_read: "simulates s (snd (read_turn i s))" "simulates s (snd (read_thread i s))"
  "simulates s (snd (read_generation i s))" "simulates s (snd (lock_exclusive p s))"
  by (simp_all add: sim.frame_refl)

lemma sim_publish_locked:
  assumes "turn_at s i = Some t"
  shows "simulates s (snd (publish_terminal_locked self t status stop failure s))"
  unfolding publish_terminal_locked_def Let_def
  by (intro sim.run_rules sim_read sim_memory sim_write_turn [OF assms])
    (auto simp: same_identity_def read_Inr thread_frozen_iff intro: sim_write_thread)

lemma sim_observe_locked: "simulates s (snd (observe_locked self i s))"
  unfolding observe_locked_def
  by (intro sim.run_rules sim_read) (auto simp: read_Inr wp result_Inr intro: sim_publish_locked sim.frame_refl)

lemma sim_assume: "(ledger_inv s \<Longrightarrow> simulates s s') \<Longrightarrow> simulates s s'"
  by (simp add: simulates_def)

lemma sim_inv: "simulates s s' \<Longrightarrow> ledger_inv s \<Longrightarrow> ledger_inv s'"
  by (simp add: simulates_def)

lemma memory_at [simp]:
  "turn_at (wake self i s) = turn_at s" "turn_at (wake_and_drop self i s) = turn_at s"
  "turn_at (release_live self g s) = turn_at s" "turn_at (hold_live self g s) = turn_at s"
  "thread_at (wake self i s) = thread_at s" "thread_at (wake_and_drop self i s) = thread_at s"
  "thread_at (release_live self g s) = thread_at s" "thread_at (hold_live self g s) = thread_at s"
  "generation_at (wake self i s) = generation_at s" "generation_at (wake_and_drop self i s) = generation_at s"
  "generation_at (release_live self g s) = generation_at s" "generation_at (hold_live self g s) = generation_at s"
  "turn_at (wake_all self s) = turn_at s" "thread_at (wake_all self s) = thread_at s"
  "generation_at (wake_all self s) = generation_at s"
  using same_records_at same_records_memory by blast+

text \<open>
  What publishing does to the turns: all or nothing, and nothing but a failed write of the turn
  file is an error.
\<close>

lemma publish_terminal_locked_turns:
  assumes "\<not> is_terminal (turn_status t)"
  shows "if fault s (WriteOp (TurnPath (turn_id t)))
    then fst (publish_terminal_locked self t status stop failure s) = Inl (Io IoOther) \<and>
         turn_at (snd (publish_terminal_locked self t status stop failure s)) = turn_at s
    else fst (publish_terminal_locked self t status stop failure s)
           = Inr (t\<lparr>turn_status := status, stop_reason := stop, failure_reason := failure\<rparr>) \<and>
         turn_at (snd (publish_terminal_locked self t status stop failure s))
           = (turn_at s)(turn_id t \<mapsto> t\<lparr>turn_status := status, stop_reason := stop, failure_reason := failure\<rparr>)"
  using assms
  by (auto simp: publish_terminal_locked_def Let_def wp fun_eq_iff split: sum.split)

lemma observe_locked_at:
  assumes "ledger_inv s" "fst (observe_locked self i s) = Inr t"
  shows "turn_at (snd (observe_locked self i s)) i = Some t"
proof -
  obtain t0 where t0: "turn_result_of s i = Inr t0" and at: "turn_at s i = Some t0"
    using assms(2) by (auto simp: observe_locked_def wp result_Inr split: sum.splits)
  have "turn_id t0 = i" using ledger_invD(2) [OF assms(1) at] .
  then show ?thesis using assms(2) t0 at publish_terminal_locked_turns [of t0 s self Failed "[]" FAILURE_WORKER_GONE]
    by (auto simp: observe_locked_def wp split: sum.splits if_splits)
qed

lemma sim_publish_section: "simulates s (snd (publish_section self i status stop failure s))"
  unfolding publish_section_def
  by (intro sim.run_rules sim_read) (auto simp: read_Inr intro: sim_publish_locked)

lemma sim_cancel_section: "simulates s (snd (cancel_section self i s))"
proof (rule sim_assume)
  assume "ledger_inv s"
  then show ?thesis unfolding cancel_section_def
    by (intro sim.run_rules sim_observe_locked) (auto dest: observe_locked_at intro: sim_publish_locked)
qed

lemma sim_new_id: "simulates s (snd (new_id self p s))"
  by (auto simp: wp intro: sim_same_records same_records_trans same_records_bump)

lemma sim_unix_epoch_secs: "simulates s (snd (unix_epoch_secs s))"
  by (auto simp: wp intro: sim_same_records)

lemma sim_park_section: "simulates s (snd (park_section self i s))"
  unfolding park_section_def Let_def
  by (intro sim.run_rules sim_read sim_new_id sim_memory sim_write_turn)
    (auto simp: read_Inr wp result_Inr same_identity_def)

lemma sim_respond_section: "simulates s (snd (respond_section self i request decision s))"
  unfolding respond_section_def Let_def
  by (intro sim.run_rules sim_read sim_memory sim_write_turn) (auto simp: read_Inr same_identity_def)

lemma sim_clear_section: "simulates s (snd (clear_section self i request s))"
  unfolding clear_section_def Let_def
  by (intro sim.run_rules sim_read sim_memory sim_write_clear) (auto simp: read_Inr)

lemma sim_upsert_section: "simulates s (snd (upsert_section self i it s))"
  unfolding upsert_section_def Let_def
  by (intro sim.run_rules sim_read sim_memory sim_write_turn) (auto simp: read_Inr same_identity_def)

lemma sim_set_acp_session_id: "simulates s (snd (set_acp_session_id self i session s))"
  unfolding set_acp_session_id_def Let_def
  by (intro sim.run_rules sim_read sim_write_thread) (auto simp: read_Inr wp result_Inr thread_frozen_iff)

lemma sim_set_child_pid: "simulates s (snd (set_child_pid self i pid s))"
  unfolding set_child_pid_def Let_def
  by (intro sim.run_rules sim_read sim_unix_epoch_secs sim_write_generation_at)
    (auto simp: read_Inr wp result_Inr generation_frozen_def)

lemma sim_mark_child_eof: "simulates s (snd (mark_child_eof self i s))"
  unfolding mark_child_eof_def Let_def
  by (intro sim.run_rules sim_read sim_write_generation_at)
    (auto simp: read_Inr wp result_Inr generation_frozen_def)

section \<open>Admission\<close>

text \<open>Looking for a live turn never makes one: a turn in progress afterwards was there before.\<close>

definition no_new_live :: "ledger \<Rightarrow> ledger \<Rightarrow> bool" where
  "no_new_live s s' \<longleftrightarrow>
     (\<forall>i t. turn_at s' i = Some t \<longrightarrow> \<not> is_terminal (turn_status t) \<longrightarrow> turn_at s i = Some t)"

interpretation quiet: frame_relation no_new_live
  by unfold_locales (auto simp: no_new_live_def)

lemma quiet_observe_locked: "no_new_live s (snd (observe_locked self i s))"
proof -
  have "no_new_live s (snd (publish_terminal_locked self t Failed [] FAILURE_WORKER_GONE s))"
    if "\<not> is_terminal (turn_status t)" for t
    using publish_terminal_locked_turns [OF that, of s self Failed "[]" FAILURE_WORKER_GONE]
    by (auto simp: no_new_live_def split: if_splits)
  then show ?thesis
    by (auto simp: observe_locked_def wp quiet.frame_refl split: sum.split)
qed

lemma read_turn_file_snd [simp]: "snd (read_turn_file name s) = s"
  by (simp add: read_turn_file_def wp)

lemma read_turn_file_Inr:
  "fst (read_turn_file (json_name j) s) = Inr t \<Longrightarrow> turn_at s j = Some t"
  by (simp add: read_turn_file_def wp turn_at_def)

lemma turn_json_paths_snd [simp]: "snd (turn_json_paths s) = s"
  by (simp add: turn_json_paths_def wp)

lemma extension_json: "j \<noteq> [] \<Longrightarrow> extension (json_name j) = Some ''json''"
  using rsplit_once_last [of "CHR ''.''" "''json''" j] by (simp add: extension_def json_name_def)

lemma turn_json_paths_complete:
  assumes "fst (turn_json_paths s) = Inr names" "turn_at s j = Some t" "j \<noteq> []"
  shows "json_name j \<in> set names"
proof -
  have "(json_name j, Body t) \<in> set (turns_dir s)"
    using assms(2) by (auto simp: turn_at_def body_of_Some dest: map_of_SomeD)
  then show ?thesis using assms(1,3)
    by (force simp: turn_json_paths_def wp extension_json split: if_splits)
qed

lemma no_new_liveD:
  "no_new_live s s' \<Longrightarrow> turn_at s' i = Some t \<Longrightarrow> \<not> is_terminal (turn_status t) \<Longrightarrow> turn_at s i = Some t"
  by (simp add: no_new_live_def)

text \<open>
  The two scans of the turns directory, for a live turn of a thread and for one of a client
  request, are the same loop: skip the turns that are not wanted, look at the others, stop at
  the first one that is still in progress. What they promise is proved once.
\<close>

locale turn_scan =
  fixes scan :: "string list \<Rightarrow> turn option ledger_action"
    and wanted :: "turn \<Rightarrow> bool"
    and look :: "turn \<Rightarrow> turn ledger_action"
  assumes scan_Nil: "scan [] = ok None"
    and scan_Cons: "scan (name # names) =
       and_then (read_turn_file name) (\<lambda>t0.
         if \<not> wanted t0 then scan names
         else and_then (look t0) (\<lambda>t. if \<not> is_terminal (turn_status t) then ok (Some t) else scan names))"
    and look_quiet: "no_new_live s (snd (look t0 s))"
    and look_simulates: "simulates s (snd (look t0 s))"
    and look_at: "ledger_inv s \<Longrightarrow> turn_at s j = Some t0 \<Longrightarrow> fst (look t0 s) = Inr t \<Longrightarrow>
       turn_at (snd (look t0 s)) j = Some t"
begin

lemma scan_quiet: "no_new_live s (snd (scan names s))"
proof (induction names arbitrary: s)
  case Nil
  then show ?case by (simp add: scan_Nil wp quiet.frame_refl)
next
  case (Cons name names)
  show ?case unfolding scan_Cons
    by (intro quiet.run_rules look_quiet Cons.IH) (simp add: quiet.frame_refl)
qed

lemma scan_simulates: "simulates s (snd (scan names s))"
proof (induction names arbitrary: s)
  case Nil
  then show ?case by (simp add: scan_Nil wp sim.frame_refl)
next
  case (Cons name names)
  show ?case unfolding scan_Cons
    by (intro sim.run_rules look_simulates Cons.IH) (simp add: sim.frame_refl)
qed

lemma scan_None_Cons:
  assumes "fst (scan (name # names) s) = Inr None" "ledger_inv s"
  obtains s1 where "ledger_inv s1" "scan (name # names) s = scan names s1"
    and "\<And>j t. name = json_name j \<Longrightarrow> turn_at s1 j = Some t \<Longrightarrow> wanted t \<Longrightarrow>
      \<not> is_terminal (turn_status t) \<Longrightarrow> False"
proof -
  obtain t0 where t0: "fst (read_turn_file name s) = Inr t0"
    using assms(1) by (auto simp: scan_Cons wp split: sum.splits)
  show thesis
  proof (cases "wanted t0")
    case False
    then have "scan (name # names) s = scan names s" using t0 by (simp add: scan_Cons wp)
    then show thesis using that [OF assms(2)] t0 False read_turn_file_Inr by force
  next
    case True
    let ?s1 = "snd (look t0 s)"
    obtain t1 where t1: "fst (look t0 s) = Inr t1" "is_terminal (turn_status t1)"
      and rest: "scan (name # names) s = scan names ?s1"
      using assms(1) t0 True by (auto simp: scan_Cons wp split: sum.splits if_splits)
    have "turn_at ?s1 j = Some t1" if "name = json_name j" for j
      using look_at [OF assms(2) _ t1(1)] t0 that read_turn_file_Inr by simp
    then show thesis
      using that [OF sim_inv [OF look_simulates assms(2)] rest] t1(2) by force
  qed
qed

lemma scan_None:
  assumes "fst (scan names s) = Inr None" "ledger_inv s"
    and "json_name j \<in> set names" "turn_at (snd (scan names s)) j = Some t" "wanted t"
  shows "is_terminal (turn_status t)"
  using assms
proof (induction names arbitrary: s)
  case Nil
  then show ?case by simp
next
  case (Cons name names)
  obtain s1 where s1: "ledger_inv s1" "scan (name # names) s = scan names s1"
    and settled: "\<And>j t. name = json_name j \<Longrightarrow> turn_at s1 j = Some t \<Longrightarrow> wanted t \<Longrightarrow>
      \<not> is_terminal (turn_status t) \<Longrightarrow> False"
    using scan_None_Cons [OF Cons.prems(1,2)] by metis
  show ?case
  proof (cases "name = json_name j")
    case False
    then show ?thesis using Cons.IH [of s1] Cons.prems s1 by simp
  next
    case True
    show ?thesis
    proof (rule ccontr)
      assume "\<not> is_terminal (turn_status t)"
      moreover from this have "turn_at s1 j = Some t"
        using no_new_liveD [OF scan_quiet, of names s1 j t] Cons.prems(4) s1(2) by simp
      ultimately show False using settled True Cons.prems(5) by blast
    qed
  qed
qed

lemma scan_all_None:
  assumes "fst (and_then turn_json_paths scan s) = Inr None" "ledger_inv s"
    and "turn_at (snd (and_then turn_json_paths scan s)) j = Some t" "wanted t"
  shows "is_terminal (turn_status t)"
proof (rule ccontr)
  assume live: "\<not> is_terminal (turn_status t)"
  obtain names where names: "fst (turn_json_paths s) = Inr names"
    using assms(1) by (auto simp: wp split: sum.splits)
  then have all: "and_then turn_json_paths scan s = scan names s"
    by (simp add: wp)
  have "turn_at s j = Some t"
    using assms(3) live all no_new_liveD [OF scan_quiet, of names s j t] by simp
  then have "json_name j \<in> set names"
    using turn_json_paths_complete [OF names] ledger_invD(4) [OF assms(2)] by blast
  then show False using scan_None [of names s j t] assms all live by simp
qed

lemma scan_all_simulates: "simulates s (snd (and_then turn_json_paths scan s))"
  by (intro sim.run_rules scan_simulates) (simp add: sim.frame_refl)

lemma scan_all_quiet: "no_new_live s (snd (and_then turn_json_paths scan s))"
  by (intro quiet.run_rules scan_quiet) (simp add: quiet.frame_refl)

lemma scan_Some:
  "fst (scan names s) = Inr (Some t) \<Longrightarrow> \<not> is_terminal (turn_status t)"
  by (induction names arbitrary: s) (auto simp: scan_Nil scan_Cons wp split: sum.splits if_splits)

end

lemma observe_runs_locked:
  "snd (observe self i s) = s \<or> observe self i s = observe_locked self i s"
  by (auto simp: observe_def with_turn_lock_def wp split: sum.split)

lemma observe_Inr: "fst (observe self i s) = Inr t \<Longrightarrow> observe self i s = observe_locked self i s"
  by (auto simp: observe_def with_turn_lock_def wp split: sum.splits)

lemma quiet_observe: "no_new_live s (snd (observe self i s))"
  using observe_runs_locked [of self i s] quiet_observe_locked [of s self i]
  by (auto simp: quiet.frame_refl)

lemma observe_at: "ledger_inv s \<Longrightarrow> fst (observe self i s) = Inr t \<Longrightarrow> turn_at (snd (observe self i s)) i = Some t"
  using observe_Inr observe_locked_at by metis

lemma sim_observe: "simulates s (snd (observe self i s))"
  using observe_runs_locked [of self i s] sim_observe_locked [of s self i] by (auto simp: sim.frame_refl)

lemma observe_inv: "ledger_inv s \<Longrightarrow> ledger_inv (snd (observe self i s))"
  using sim_inv [OF sim_observe] .

interpretation live_scan: turn_scan "scan_live self i" "\<lambda>t. turn_thread_id t = i"
  "\<lambda>t0. if is_terminal (turn_status t0) then ok t0 else observe_locked self (turn_id t0)" for self i
proof
  fix s t0 t j
  let ?look = "if is_terminal (turn_status t0) then ok t0 else observe_locked self (turn_id t0)"
  show "no_new_live s (snd (?look s))" by (simp add: wp quiet.frame_refl quiet_observe_locked)
  show "simulates s (snd (?look s))" by (simp add: wp sim.frame_refl sim_observe_locked)
  assume "ledger_inv s" "turn_at s j = Some t0" "fst (?look s) = Inr t"
  then show "turn_at (snd (?look s)) j = Some t"
    using ledger_invD(2) observe_locked_at by (auto simp: wp split: if_splits)
qed (simp_all cong: if_cong)

interpretation client_scan: turn_scan "scan_client self key" "\<lambda>t. client_request_id t = key"
  "\<lambda>t0. observe self (turn_id t0)" for self key
proof
  fix s j and t0 t :: turn
  show "no_new_live s (snd (observe self (turn_id t0) s))" by (rule quiet_observe)
  show "simulates s (snd (observe self (turn_id t0) s))" by (rule sim_observe)
  assume "ledger_inv s" "turn_at s j = Some t0" "fst (observe self (turn_id t0) s) = Inr t"
  then show "turn_at (snd (observe self (turn_id t0) s)) j = Some t"
    using ledger_invD(2) observe_at by metis
qed (simp_all cong: if_cong)

lemma scan_live_all_None:
  assumes "fst (and_then turn_json_paths (scan_live self i) s) = Inr None" "ledger_inv s"
  shows "thread_idle (abs (snd (and_then turn_json_paths (scan_live self i) s))) i"
  using live_scan.scan_all_None [OF assms] by (simp add: thread_idle_def)

text \<open>Finding no live turn on a thread means that the thread has no turn in progress.\<close>

lemma live_turn_None_idle:
  assumes "fst (live_turn_on_thread_locked self th s) = Inr None" "ledger_inv s"
  shows "thread_idle (abs (snd (live_turn_on_thread_locked self th s))) (thread_id th)"
proof (cases "in_progress_turn_id th = []")
  case True
  then show ?thesis using assms scan_live_all_None by (simp add: live_turn_on_thread_locked_def Let_def)
next
  case False
  let ?s1 = "snd (observe_locked self (in_progress_turn_id th) s)"
  have "ledger_inv ?s1" using sim_inv [OF sim_observe_locked assms(2)] .
  moreover have "live_turn_on_thread_locked self th s = and_then turn_json_paths (scan_live self (thread_id th)) ?s1"
    using assms(1) False
    by (auto simp: live_turn_on_thread_locked_def Let_def match_result_run ok_run err_run
        split: sum.splits ledger_error.splits if_splits)
  ultimately show ?thesis using assms(1) scan_live_all_None by simp
qed

lemma sim_live_turn: "simulates s (snd (live_turn_on_thread_locked self th s))"
  unfolding live_turn_on_thread_locked_def Let_def
  by (intro sim.run_rules sim_observe_locked)
    (auto simp: live_scan.scan_simulates err_run sim.frame_refl intro!: live_scan.scan_all_simulates split: ledger_error.split)

text \<open>The identifiers the next admission draws name no record yet.\<close>

definition ids_unused :: "nat \<Rightarrow> ledger \<Rightarrow> bool" where
  "ids_unused self s \<longleftrightarrow>
     generation_at s (fresh_id self ''g'' s) = None \<and>
     turn_at s (fresh_id self ''tu'' (tick (bump_seq self s))) = None"

lemma sim_write_new_generation:
  assumes "generation_at s (gen_id g) = None" "child_pid g = None" "\<not> child_eof g"
  shows "simulates s (snd (write_generation self g s))"
proof -
  have "simulates (bump_seq self s) (put_generation g (bump_seq self s))"
    using assms spec_step.new_generation [of "abs (bump_seq self s)" g]
    by (auto simp: simulates_def intro: ledger_inv_put r_into_rtranclp)
  then show ?thesis using sim_bump [of s self] by (auto simp: wp intro: sim.frame_trans)
qed

lemma sim_write_admitted:
  assumes "turn_at s (turn_id t) = None" "turn_id t \<noteq> []" "turn_status t = InProgress"
    and "thread_at s (turn_thread_id t) \<noteq> None" "generation_at s (turn_generation_id t) \<noteq> None"
    and "thread_idle (abs s) (turn_thread_id t)"
  shows "simulates s (snd (write_turn self t s))"
proof -
  have "thread_idle (abs (bump_seq self s)) (turn_thread_id t)"
    using assms(6) by (simp add: thread_idle_def)
  then have "simulates (bump_seq self s) (put_turn t (bump_seq self s))"
    using assms spec_step.admit [of "abs (bump_seq self s)" t]
    by (auto simp: simulates_def intro: ledger_inv_put r_into_rtranclp)
  then show ?thesis using sim_bump [of s self] by (auto simp: wp intro: sim.frame_trans)
qed

lemma put_client_records: "abs (put_client k i s) = abs s" "ledger_inv (put_client k i s) = ledger_inv s"
  by (simp_all add: abs_def ledger_inv_def thread_store.self_named_def turn_store.self_named_def
      generation_store.self_named_def)

lemma sim_store_client: "simulates s (snd (store_client self key i s))"
proof -
  have "simulates (bump_seq self s) (put_client key i (bump_seq self s))"
    by (simp add: simulates_def put_client_records)
  then show ?thesis using sim_bump [of s self]
    by (auto simp: store_client_def write_json_atomic_run intro: sim.frame_trans)
qed

lemma sim_admit_writes:
  assumes "generation_at s (gen_id g) = None" "child_pid g = None" "\<not> child_eof g"
    and "turn_at s (turn_id t) = None" "turn_id t \<noteq> []" "turn_status t = InProgress"
    and "thread_at s (turn_thread_id t) = Some th0" "thread_frozen th0 th"
    and "turn_generation_id t = gen_id g" "thread_idle (abs s) (turn_thread_id t)"
  shows "simulates s (snd (admit_writes self client th g t s))"
  unfolding admit_writes_def
proof (intro sim.run_rules sim_memory sim_store_client)
  show "simulates s (snd (write_generation self g s))"
    using assms by (intro sim_write_new_generation)
next
  fix x
  assume wg: "fst (write_generation self g s) = Inr x"
  let ?s1 = "snd (write_generation self g s)"
  have s1: "turn_at ?s1 = turn_at s" "thread_at ?s1 = thread_at s" "generation_at ?s1 (gen_id g) = Some g"
    using wg by (auto simp: wp split: if_splits)
  then show "simulates ?s1 (snd (write_turn self t ?s1))"
    using assms by (intro sim_write_admitted) (simp_all add: thread_idle_def)
  let ?s2 = "snd (write_turn self t ?s1)"
  have "thread_at ?s2 (turn_thread_id t) = Some th0"
    using assms s1 by (simp add: wp)
  then show "simulates ?s2 (snd (write_thread self (th\<lparr>in_progress_turn_id := turn_id t\<rparr>) ?s2))"
    using assms(8) by (intro sim_write_thread) (auto simp: thread_frozen_iff)
qed

lemma fresh_id_nonempty [simp]: "fresh_id self p s \<noteq> []"
  by (simp add: fresh_id_def)

lemma sim_admit_fresh:
  assumes "thread_at s (thread_id th) = Some th0" "thread_frozen th0 th"
    and "thread_idle (abs s) (thread_id th)" "ids_unused self s"
  shows "simulates s (snd (admit_fresh self spec th s))"
proof -
  let ?s1 = "tick (tick (bump_seq self (tick (bump_seq self s))))"
  let ?g = "fresh_id self ''g'' s" and ?i = "fresh_id self ''tu'' (tick (bump_seq self s))"
  have "same_records s ?s1"
    by (meson same_records_bump same_records_trans)
  then have "simulates s ?s1" by (rule sim_same_records)
  moreover have "simulates ?s1 (snd (admit_writes self (nu_client_request_id spec) th
      (fresh_generation ?g ?i pid now) (fresh_turn ?i (thread_id th) ?g spec) ?s1))" for pid now
    using assms
    by (intro sim_admit_writes [of _ _ _ th0])
      (simp_all add: fresh_generation_def fresh_turn_def ids_unused_def thread_idle_def)
  ultimately show ?thesis
    unfolding admit_fresh_def by (auto simp: wp intro: sim.frame_trans)
qed

lemma sim_admit_section:
  assumes "ids_unused self (snd (and_then (read_thread (nu_thread_id spec)) (live_turn_on_thread_locked self) s))"
  shows "simulates s (snd (admit_section self spec s))"
proof (rule sim_assume)
  assume inv: "ledger_inv s"
  have "simulates (snd (live_turn_on_thread_locked self th s))
     (snd (admit_fresh self spec (th\<lparr>in_progress_turn_id := []\<rparr>) (snd (live_turn_on_thread_locked self th s))))"
    if th: "thread_at s (nu_thread_id spec) = Some th" "thread_result s (nu_thread_id spec) = Inr th"
      and none: "fst (live_turn_on_thread_locked self th s) = Inr None" for th
  proof -
    let ?s1 = "snd (live_turn_on_thread_locked self th s)"
    have "evolves (abs s) (abs ?s1)"
      using sim_live_turn inv by (auto simp: simulates_def intro: spec_steps_evolve)
    then obtain th' where "thread_at ?s1 (nu_thread_id spec) = Some th'" "thread_frozen th th'"
      using evolvesD(2) [of "abs s" _ "nu_thread_id spec" th] th(1) by force
    moreover have "thread_id th = nu_thread_id spec" using ledger_invD(1) [OF inv th(1)] .
    moreover have "thread_idle (abs ?s1) (thread_id th)" using live_turn_None_idle [OF none inv] .
    moreover have "ids_unused self ?s1" using assms th(2) by (simp add: wp)
    ultimately show ?thesis
      by (intro sim_admit_fresh [of _ _ th']) (auto simp: thread_frozen_iff)
  qed
  then show ?thesis
    unfolding admit_section_def
    by (intro sim.run_rules sim_read sim_live_turn) (auto simp: wp result_Inr intro: sim.frame_refl)
qed

lemma sim_create_thread:
  assumes "thread_at s (fresh_id self ''th'' s) = None"
  shows "simulates s (snd (create_thread self spec s))"
proof -
  have new: "simulates s (put_thread th s)"
    if "thread_at s (thread_id th) = None" "in_progress_turn_id th = []" for th s
    using that spec_step.new_thread [of "abs s" th]
    by (auto simp: simulates_def intro: ledger_inv_put r_into_rtranclp)
  have "same_records s (tick (bump_seq self s))" "same_records s (bump_seq self (tick (bump_seq self s)))"
    by (meson same_records_bump same_records_trans)+
  then show ?thesis using assms
    by (auto simp: create_thread_def Let_def wp sim_same_records
        intro!: sim.frame_trans [OF sim_same_records new])
qed

section \<open>The system of all processes\<close>

text \<open>
  One step is one critical section of one open ledger \<open>self\<close>, of any process, or anything that
  leaves the four directories alone: the clock, the locks, faults that come and go, waiters,
  processes that start and end.
\<close>

inductive ledger_step :: "ledger \<Rightarrow> ledger \<Rightarrow> bool" where
  step_other: "same_records s s' \<Longrightarrow> ledger_step s s'"
| step_create: "thread_at s (fresh_id self ''th'' s) = None \<Longrightarrow> ledger_step s (snd (create_thread self spec s))"
| step_admit:
    "ids_unused self (snd (and_then (read_thread (nu_thread_id spec)) (live_turn_on_thread_locked self) s)) \<Longrightarrow>
     ledger_step s (snd (admit_section self spec s))"
| step_observe: "ledger_step s (snd (observe_locked self i s))"
| step_publish: "is_terminal status \<Longrightarrow> ledger_step s (snd (publish_section self i status stop failure s))"
| step_cancel: "ledger_step s (snd (cancel_section self i s))"
| step_park: "ledger_step s (snd (park_section self i s))"
| step_respond: "ledger_step s (snd (respond_section self i request decision s))"
| step_clear: "ledger_step s (snd (clear_section self i request s))"
| step_upsert: "ledger_step s (snd (upsert_section self i it s))"
| step_session: "ledger_step s (snd (set_acp_session_id self i session s))"
| step_child: "ledger_step s (snd (set_child_pid self i pid s))"
| step_eof: "ledger_step s (snd (mark_child_eof self i s))"

inductive_cases ledger_step_cases: "ledger_step s s'"

lemma ledger_step_simulates: "ledger_step s s' \<Longrightarrow> simulates s s'"
  by (cases rule: ledger_step.cases)
    (auto intro: sim_same_records sim_create_thread sim_admit_section sim_observe_locked
      sim_publish_section sim_cancel_section sim_park_section sim_respond_section sim_clear_section
      sim_upsert_section sim_set_acp_session_id sim_set_child_pid sim_mark_child_eof)

lemma ledger_run_simulates: "ledger_step\<^sup>*\<^sup>* s s' \<Longrightarrow> simulates s s'"
  by (induction rule: rtranclp_induct) (auto intro: sim.frame_refl sim.frame_trans ledger_step_simulates)

lemma ledger_run_evolves: "ledger_step\<^sup>*\<^sup>* s s' \<Longrightarrow> ledger_inv s \<Longrightarrow> evolves (abs s) (abs s')"
  using ledger_run_simulates by (auto simp: simulates_def intro: spec_steps_evolve)

text \<open>A home in which nothing was ever written.\<close>

definition empty_home :: "ledger \<Rightarrow> bool" where
  "empty_home s \<longleftrightarrow> threads_dir s = [] \<and> turns_dir s = [] \<and> generations_dir s = [] \<and> by_client_dir s = []"

definition reachable :: "ledger \<Rightarrow> bool" where
  "reachable s \<longleftrightarrow> (\<exists>s0. empty_home s0 \<and> ledger_step\<^sup>*\<^sup>* s0 s)"

lemma empty_home_inv: "empty_home s \<Longrightarrow> ledger_inv s \<and> spec_inv (abs s)"
  by (auto simp: empty_home_def ledger_inv_def thread_store.self_named_def turn_store.self_named_def
      generation_store.self_named_def spec_inv_def one_live_def linked_def abs_def turn_at_def
      thread_at_def generation_at_def)

lemma reachable_inv:
  assumes "reachable s"
  shows "ledger_inv s" "spec_inv (abs s)"
proof -
  obtain s0 where "empty_home s0" "ledger_step\<^sup>*\<^sup>* s0 s" using assms by (auto simp: reachable_def)
  then have "ledger_inv s0" "spec_inv (abs s0)" "simulates s0 s"
    using empty_home_inv ledger_run_simulates by auto
  then show "ledger_inv s" "spec_inv (abs s)" by (auto simp: simulates_def intro: spec_steps_inv)
qed

lemma reachable_run: "reachable s \<Longrightarrow> ledger_step\<^sup>*\<^sup>* s s' \<Longrightarrow> reachable s'"
  unfolding reachable_def by (meson rtranclp_trans)

section \<open>The public operations are runs of critical sections\<close>

interpretation run: frame_relation "ledger_step\<^sup>*\<^sup>*"
  by unfold_locales (auto intro: rtranclp_trans)

lemma run_memory: "same_records s s' \<Longrightarrow> ledger_step\<^sup>*\<^sup>* s s'"
  by (auto intro: r_into_rtranclp step_other)

lemma run_with_turn_lock:
  assumes "\<And>s. ledger_step s (snd (body s))"
  shows "keeps ledger_step\<^sup>*\<^sup>* (with_turn_lock i body)"
  using assms unfolding with_turn_lock_def
  by (intro run.frame_rules) (auto simp: keeps_def intro: r_into_rtranclp)

lemma run_observe: "keeps ledger_step\<^sup>*\<^sup>* (observe self i)"
  unfolding observe_def by (intro run_with_turn_lock step_observe)

lemma run_publish_terminal: "keeps ledger_step\<^sup>*\<^sup>* (publish_terminal self i status stop failure)"
proof (cases "is_terminal status")
  case True
  then show ?thesis unfolding publish_terminal_def
    by (intro run.frame_rules run_with_turn_lock step_publish)
next
  case False
  then show ?thesis unfolding publish_terminal_def by (simp add: run.frame_rules)
qed

lemma run_cancel: "keeps ledger_step\<^sup>*\<^sup>* (cancel self i)"
  unfolding cancel_def by (intro run_with_turn_lock step_cancel)

lemma run_park_approval: "keeps ledger_step\<^sup>*\<^sup>* (park_approval self i)"
  unfolding park_approval_def by (intro run_with_turn_lock step_park)

lemma run_clear_pending: "keeps ledger_step\<^sup>*\<^sup>* (clear_pending self i request)"
  unfolding clear_pending_def by (intro run_with_turn_lock step_clear)

lemma run_upsert_item: "keeps ledger_step\<^sup>*\<^sup>* (upsert_item self i it)"
  unfolding upsert_item_def by (intro run.frame_rules run_with_turn_lock step_upsert)

lemma run_reads:
  "keeps ledger_step\<^sup>*\<^sup>* (read_turn_file name)" "keeps ledger_step\<^sup>*\<^sup>* turn_json_paths"
  "keeps ledger_step\<^sup>*\<^sup>* (read_thread i)" "keeps ledger_step\<^sup>*\<^sup>* (read_turn i)"
  "keeps ledger_step\<^sup>*\<^sup>* (lock_exclusive p)" "keeps ledger_step\<^sup>*\<^sup>* (lookup_client key)"
  by (simp_all add: keeps_def lookup_client_def wp split: sum.split ledger_error.split io_kind.split)

lemma run_list_turns_from: "keeps ledger_step\<^sup>*\<^sup>* (list_turns_from self cwd names)"
  by (induction names) (auto intro!: run.frame_rules run_observe run_reads)

lemma run_list_turns: "keeps ledger_step\<^sup>*\<^sup>* (list_turns self cwd)"
  unfolding list_turns_def by (auto intro!: run.frame_rules run_list_turns_from run_reads)

lemma run_respond_section: "keeps ledger_step\<^sup>*\<^sup>* (respond_section self i request decision)"
  by (auto simp: keeps_def intro: step_respond)

lemma run_respond: "keeps ledger_step\<^sup>*\<^sup>* (respond self request decision)"
  unfolding respond_def turn_by_pending_request_def
  by (intro run.frame_rules run_list_turns run_reads run_respond_section)

lemma run_scan_client: "keeps ledger_step\<^sup>*\<^sup>* (scan_client self key names)"
  by (induction names) (auto intro!: run.frame_rules run_observe run_reads)

lemma run_in_flight_by_client: "keeps ledger_step\<^sup>*\<^sup>* (in_flight_by_client self key)"
  unfolding in_flight_by_client_def Let_def
  by (auto intro!: run.frame_rules run_observe run_reads run_scan_client split: ledger_error.split)

lemmas public_runs = run_observe run_publish_terminal run_cancel run_park_approval run_clear_pending
  run_upsert_item run_list_turns run_respond

end
