(* ===== verification/LedgerInvariants.thy ===== *)
theory LedgerInvariants
  imports LedgerSpec
begin

text \<open>
  What holds in every home the system of \<open>LedgerSpec\<close> can reach, and what no run of it
  changes: one turn in progress per thread, final outcomes, frozen thread settings, item
  identifiers that stay unique, one turn in progress per client request. The section before
  them builds the small concrete home the witnesses run on.
\<close>

section \<open>A concrete home\<close>

definition idle_procs :: os_procs where
  "idle_procs = \<lparr>is_macos = False, pidinfo = \<lambda>_. None, pid_stat = \<lambda>_. None, stat_file = None, clk_tck = 100\<rparr>"

definition blank_ledger :: ledger where
  "blank_ledger =
     \<lparr>threads_dir = [], turns_dir = [], generations_dir = [], by_client_dir = [],
      fault = \<lambda>_. False, procs = idle_procs, clock = \<lambda>n. of_nat n, ticks = 0, pid_of = \<lambda>_. 7,
      id_seq = \<lambda>_. 1, live_files = {}, process_live = {}, live_lock = \<lambda>_. None,
      waiters = \<lambda>_. [], arc_strong = \<lambda>_. 0, notified = \<lambda>_. 0, next_arc = 0\<rparr>"

definition example_thread :: new_thread where
  "example_thread =
     \<lparr>nt_cwd = ''/w'', nt_model = ''grok'', nt_sandbox = WorkspaceWrite, nt_approval_policy = Never,
      nt_developer_instructions = [], nt_acp_session_id = []\<rparr>"

definition example_turn :: new_turn where
  "example_turn =
     \<lparr>nu_thread_id = ''th701'', nu_input = [\<lparr>input_kind = ''text'', input_text = ''hi''\<rparr>],
      nu_model = ''grok'', nu_effort = ''low'', nu_client_request_id = Some ''k''\<rparr>"

definition home1 :: ledger where
  "home1 = snd (create_thread 0 example_thread blank_ledger)"

definition home2 :: ledger where
  "home2 = snd (admit_section 0 example_turn home1)"

definition home3 :: ledger where
  "home3 = snd (publish_section 0 ''tu724'' Completed ''end_turn'' [] home2)"

lemma to_hex_small: "n < 16 \<Longrightarrow> to_hex n = [hex_digit n]"
  by (simp add: to_hex.simps)

definition thread1 :: wire_thread where
  "thread1 =
     \<lparr>thread_id = ''th701'', thread_cwd = ''/w'', thread_model = ''grok'', thread_sandbox = WorkspaceWrite,
      thread_approval_policy = Never, developer_instructions = [], acp_session_id = [],
      in_progress_turn_id = []\<rparr>"

definition turn1 :: turn where
  "turn1 = fresh_turn ''tu724'' ''th701'' ''g713'' example_turn"

definition generation1 :: generation where
  "generation1 = fresh_generation ''g713'' ''tu724'' 7 0"

lemma hex_digits [simp]:
  "hex_digit 0 = CHR ''0''" "hex_digit (Suc 0) = CHR ''1''" "hex_digit 1 = CHR ''1''" "hex_digit 2 = CHR ''2''"
  "hex_digit 3 = CHR ''3''" "hex_digit 4 = CHR ''4''" "hex_digit 7 = CHR ''7''"
  by (simp_all add: hex_digit_def char_of_def bit_0)

lemmas store_eval = fresh_id_def tick_def bump_seq_def to_hex_small put_thread_def json_name_def
  put_turn_def put_generation_def put_generation_at_def put_client_def

lemma home1_eq:
  "home1 = blank_ledger\<lparr>threads_dir := [(''th701.json'', Body thread1)], ticks := 1, id_seq := (\<lambda>_. 1)(7 := 3)\<rparr>"
  by (simp add: home1_def create_thread_def Let_def wp example_thread_def blank_ledger_def store_eval thread1_def)

lemma example_ids [simp]: "valid_id ''th701''" "valid_id ''tu724''" "valid_id ''g713''"
  by (simp_all add: valid_id_def id_char_def is_ascii_alphanumeric_def byte_of_def)

lemma home1_reads:
  "thread_result home1 ''th701'' = Inr thread1"
  "live_turn_on_thread_locked self thread1 home1 = (Inr None, home1)"
  by (simp_all add: home1_eq wp thread_result_def read_thread_def validate_id_def read_json_def map_not_found_def
      blank_ledger_def thread1_def json_name_def live_turn_on_thread_locked_def Let_def turn_json_paths_def if_ok_def)

lemma client_filename_k: "client_filename ''k'' = ''6b''"
proof -
  have "hex_pad 2 (byte_of CHR ''k'') = ''6b''"
    by (simp add: numeral_2_eq_2 byte_of_def) (simp add: hex_digit_def char_of_def bit_0)
  then show ?thesis by (simp add: client_filename_def Let_def)
qed

lemma home2_eq:
  "home2 =
     home1\<lparr>threads_dir := [(''th701.json'', Body (thread1\<lparr>in_progress_turn_id := ''tu724''\<rparr>))],
       turns_dir := [(''tu724.json'', Body turn1)], generations_dir := [(''g713.json'', Body generation1)],
       by_client_dir := [(''6b'', Body ''tu724'')], ticks := 4, id_seq := (\<lambda>_. 1)(7 := 9),
       live_files := {(0, ''g713'')}, process_live := {(7, ''g713'')}, live_lock := [''g713'' \<mapsto> 0]\<rparr>"
proof -
  have "admit_section 0 example_turn home1 = admit_fresh 0 example_turn (thread1\<lparr>in_progress_turn_id := []\<rparr>) home1"
    using home1_reads by (simp add: admit_section_def wp example_turn_def)
  moreover have "snd (admit_fresh 0 example_turn (thread1\<lparr>in_progress_turn_id := []\<rparr>) home1) = home1\<lparr>threads_dir := [(''th701.json'', Body (thread1\<lparr>in_progress_turn_id := ''tu724''\<rparr>))],
       turns_dir := [(''tu724.json'', Body turn1)], generations_dir := [(''g713.json'', Body generation1)],
       by_client_dir := [(''6b'', Body ''tu724'')], ticks := 4, id_seq := (\<lambda>_. 1)(7 := 9),
       live_files := {(0, ''g713'')}, process_live := {(7, ''g713'')}, live_lock := [''g713'' \<mapsto> 0]\<rparr>"
    by (simp add: admit_fresh_def admit_writes_def wp home1_eq store_eval blank_ledger_def thread1_def
     turn1_def generation1_def fresh_turn_def fresh_generation_def example_turn_def store_client_def
     write_json_atomic_run client_filename_k hold_live_def Let_def unat_of_nat)
  ultimately show ?thesis by (simp only: home2_def)
qed

lemma home1_ids_unused:
  "ids_unused 0 (snd (and_then (read_thread ''th701'') (live_turn_on_thread_locked 0) home1))"
  using home1_reads
  by (simp add: wp ids_unused_def turn_at_def generation_at_def home1_eq blank_ledger_def)

lemma home_runs: "empty_home blank_ledger" "ledger_step blank_ledger home1" "ledger_step home1 home2"
  "ledger_step home2 home3"
proof -
  show "empty_home blank_ledger" by (simp add: empty_home_def blank_ledger_def)
  show "ledger_step blank_ledger home1"
    unfolding home1_def by (rule step_create) (simp add: thread_at_def blank_ledger_def)
  show "ledger_step home1 home2"
    unfolding home2_def using home1_ids_unused by (intro step_admit) (simp add: example_turn_def)
  show "ledger_step home2 home3" unfolding home3_def by (rule step_publish) simp
qed

lemma reachable_homes: "reachable home1" "reachable home2" "reachable home3"
  using home_runs unfolding reachable_def by (meson rtranclp.rtrancl_into_rtrancl rtranclp.rtrancl_refl)+

lemma home2_at: "turn_at home2 ''tu724'' = Some turn1" "generation_at home2 ''g713'' = Some generation1"
  "thread_at home2 ''th701'' = Some (thread1\<lparr>in_progress_turn_id := ''tu724''\<rparr>)"
  by (simp_all add: turn_at_def generation_at_def thread_at_def home2_eq home1_eq blank_ledger_def json_name_def)

lemma home2_only: "turn_at home2 i = Some t \<Longrightarrow> i = ''tu724''"
proof -
  assume "turn_at home2 i = Some t"
  then have "json_name i = json_name ''tu724''"
    by (simp add: turn_at_def home2_eq home1_eq body_of_Some json_name_def split: if_splits)
  then show ?thesis by (simp only: json_name_inj)
qed

lemma turn1_sel [simp]: "turn_id turn1 = ''tu724''" "turn_thread_id turn1 = ''th701''"
  "turn_generation_id turn1 = ''g713''" "turn_status turn1 = InProgress" "turn_items turn1 = []"
  "pending_request_id turn1 = []" "pending_decision turn1 = []" "client_request_id turn1 = ''k''"
  by (simp_all add: turn1_def fresh_turn_def example_turn_def)

lemma home2_no_fault [simp]: "\<not> fault home2 x"
  by (simp add: home2_eq home1_eq blank_ledger_def)

definition turn1_done :: turn where
  "turn1_done = turn1\<lparr>turn_status := Completed, stop_reason := ''end_turn'', failure_reason := []\<rparr>"

lemma home3_at: "turn_at home3 ''tu724'' = Some turn1_done"
  using publish_terminal_locked_turns [of turn1 home2 0 Completed "''end_turn''" "[]"]
  by (simp add: home3_def publish_section_def wp turn_result_Inr [THEN iffD2] home2_at turn1_done_def)

lemma one_step: "ledger_step s s' \<Longrightarrow> ledger_step\<^sup>*\<^sup>* s s'"
  by (rule r_into_rtranclp)

section \<open>Properties of every reachable home\<close>

text \<open>C1: in every home reached from an empty one, by any interleaving of the critical sections
  of any number of processes, two turns in progress on the same thread are the same turn.\<close>

theorem one_turn_in_progress_per_thread:
  assumes "reachable s" "turn_at s i = Some t" "turn_at s j = Some u"
    and "turn_status t = InProgress" "turn_status u = InProgress" "turn_thread_id t = turn_thread_id u"
  shows "i = j"
  using reachable_inv(2) [OF assms(1)] assms(2-) by (auto simp: spec_inv_def one_live_def)

theorem one_turn_in_progress_per_thread_witness:
  "reachable home2 \<and> turn_status turn1 = InProgress \<and> {j. turn_at home2 j = Some turn1} = {''tu724''}"
proof -
  have "j = ''tu724''" if "turn_at home2 j = Some turn1" for j
    by (rule one_turn_in_progress_per_thread [OF reachable_homes(2) that home2_at(1)]) simp_all
  then have "{j. turn_at home2 j = Some turn1} = {''tu724''}" using home2_at(1) by blast
  then show ?thesis using reachable_homes(2) by simp
qed

text \<open>C2: once a turn is terminal, no run of the system changes its status, stop reason, failure
  reason or items, nor what identifies it; the turn file is never lost.\<close>

theorem terminal_outcome_is_final:
  assumes "reachable s" "ledger_step\<^sup>*\<^sup>* s s'" "turn_at s i = Some t" "is_terminal (turn_status t)"
  shows "\<exists>t'. turn_at s' i = Some t' \<and> outcome t' = outcome t \<and> same_identity t t'"
proof -
  have "evolves (abs s) (abs s')" using reachable_inv(1) assms ledger_run_evolves by blast
  then show ?thesis using evolvesD(1) [of _ _ i t] assms(3,4) by (force simp: turn_evolves_def)
qed

theorem terminal_outcome_is_final_witness:
  "is_terminal (turn_status turn1_done) \<and>
     (\<exists>t'. turn_at (snd (cancel_section 0 ''tu724'' home3)) ''tu724'' = Some t' \<and> outcome t' = outcome turn1_done)"
  using terminal_outcome_is_final [OF reachable_homes(3) one_step [OF step_cancel] home3_at, of 0 "''tu724''"]
  by (auto simp: turn1_done_def)

text \<open>C22: no run changes the working directory, the model, the sandbox, the approval policy or
  the developer instructions of a thread.\<close>

theorem thread_settings_are_frozen:
  assumes "reachable s" "ledger_step\<^sup>*\<^sup>* s s'" "thread_at s i = Some th"
  shows "\<exists>th'. thread_at s' i = Some th' \<and> thread_cwd th' = thread_cwd th \<and> thread_model th' = thread_model th \<and>
    thread_sandbox th' = thread_sandbox th \<and> thread_approval_policy th' = thread_approval_policy th \<and>
    developer_instructions th' = developer_instructions th"
proof -
  have "evolves (abs s) (abs s')" using reachable_inv(1) assms ledger_run_evolves by blast
  then show ?thesis using evolvesD(2) [of _ _ i th] assms(3) by (force simp: thread_frozen_iff)
qed

theorem thread_settings_are_frozen_witness:
  "\<exists>th'. thread_at home3 ''th701'' = Some th' \<and> thread_cwd th' = ''/w'' \<and> thread_sandbox th' = WorkspaceWrite"
  using thread_settings_are_frozen [OF reachable_homes(2) one_step [OF home_runs(4)] home2_at(3)]
  by (auto simp: thread1_def)

text \<open>C5: every critical section of the code, run by any process on a reachable home, is a run of
  the abstract contract and keeps the contract's invariant.\<close>

theorem sections_refine_contract:
  assumes "reachable s" "ledger_step s s'"
  shows "spec_step\<^sup>*\<^sup>* (abs s) (abs s') \<and> spec_inv (abs s')"
  using ledger_step_simulates [OF assms(2)] reachable_inv [OF assms(1)] spec_steps_inv
  by (auto simp: simulates_def)

theorem sections_refine_contract_witness: "spec_step\<^sup>*\<^sup>* (abs home2) (abs home3) \<and> spec_inv (abs home3)"
  using sections_refine_contract [OF reachable_homes(2) home_runs(4)] .


section \<open>Item identifiers\<close>

text \<open>Upserting replaces the item with the same identifier where it stands, or appends.\<close>

lemma upsert_ids: "map item_id (upsert it xs) = (if item_id it \<in> item_id ` set xs then map item_id xs else map item_id xs @ [item_id it])"
  by (induction xs) auto

definition unique_items :: "ledger \<Rightarrow> bool" where
  "unique_items s \<longleftrightarrow> (\<forall>i t. turn_at s i = Some t \<longrightarrow> distinct (map item_id (turn_items t)))"

definition keeps_items_unique :: "ledger \<Rightarrow> ledger \<Rightarrow> bool" where
  "keeps_items_unique s s' \<longleftrightarrow> (unique_items s \<longrightarrow> unique_items s')"

interpretation itm: frame_relation keeps_items_unique
  by unfold_locales (auto simp: keeps_items_unique_def)

lemma itm_same_turns: "turn_at s' = turn_at s \<Longrightarrow> keeps_items_unique s s'"
  by (simp add: keeps_items_unique_def unique_items_def)

lemma itm_write_turn:
  assumes "unique_items s \<Longrightarrow> distinct (map item_id (turn_items t))"
  shows "keeps_items_unique s (snd (write_turn self t s))"
  using assms by (auto simp: keeps_items_unique_def unique_items_def wp)

lemma itm_others:
  "keeps_items_unique s (snd (write_thread self th s))" "keeps_items_unique s (snd (write_generation self g s))"
  "keeps_items_unique s (snd (write_generation_at self i g s))" "keeps_items_unique s (snd (new_id self p s))"
  "keeps_items_unique s (snd (unix_epoch_secs s))" "keeps_items_unique s (snd (store_client self key j s))"
  "keeps_items_unique s (wake self j s)" "keeps_items_unique s (wake_all self s)"
  "keeps_items_unique s (wake_and_drop self j s)" "keeps_items_unique s (release_live self k s)"
  "keeps_items_unique s (hold_live self k s)" "keeps_items_unique s (snd (read_turn i s))"
  "keeps_items_unique s (snd (read_thread i s))" "keeps_items_unique s (snd (read_generation i s))"
  "keeps_items_unique s (snd (lock_exclusive pth s))" "keeps_items_unique s (snd (read_turn_file name s))"
  "keeps_items_unique s (snd (turn_json_paths s))"
  by (rule itm_same_turns;
      simp add: wp store_client_def write_json_atomic_run put_generation_at_def turn_at_def [abs_def] put_thread_def
        put_generation_def put_client_def bump_seq_def tick_def
        same_records_memory [unfolded same_records_def])+

lemmas itm_rules = itm.run_rules itm_others itm_write_turn

lemma itm_publish_locked:
  "(unique_items s \<Longrightarrow> distinct (map item_id (turn_items t))) \<Longrightarrow>
     keeps_items_unique s (snd (publish_terminal_locked self t status stop failure s))"
  unfolding publish_terminal_locked_def Let_def by (intro itm_rules) simp

lemma unique_itemsD: "unique_items s \<Longrightarrow> turn_at s i = Some t \<Longrightarrow> distinct (map item_id (turn_items t))"
  by (simp add: unique_items_def)

lemma itm_observe_locked: "keeps_items_unique s (snd (observe_locked self i s))"
  unfolding observe_locked_def
  by (intro itm_rules) (auto simp: wp result_Inr intro: itm.frame_refl itm_publish_locked unique_itemsD)

lemma itm_assume: "(unique_items s \<Longrightarrow> keeps_items_unique s s') \<Longrightarrow> keeps_items_unique s s'"
  by (simp add: keeps_items_unique_def)

lemma observe_locked_items:
  assumes "unique_items s" "fst (observe_locked self i s) = Inr t"
  shows "distinct (map item_id (turn_items t))"
  using assms
  by (auto simp: observe_locked_def publish_terminal_locked_def Let_def wp result_Inr unique_itemsD
      split: sum.splits if_splits)

lemma itm_cancel_section: "keeps_items_unique s (snd (cancel_section self i s))"
proof (rule itm_assume)
  assume "unique_items s"
  then show ?thesis unfolding cancel_section_def
    by (intro itm_rules itm_observe_locked itm_publish_locked) (rule observe_locked_items)
qed

lemma itm_scan_live: "keeps_items_unique s (snd (scan_live self i names s))"
proof (induction names arbitrary: s)
  case Nil
  then show ?case by (simp add: wp itm.frame_refl)
next
  case (Cons name names)
  show ?case unfolding scan_live.simps by (intro itm_rules itm_observe_locked Cons.IH)
qed

lemma itm_live_turn: "keeps_items_unique s (snd (live_turn_on_thread_locked self th s))"
  unfolding live_turn_on_thread_locked_def Let_def
  by (intro itm_rules itm_observe_locked itm_scan_live)
    (auto intro!: itm_rules itm_scan_live split: ledger_error.split)

lemma itm_admit_section: "keeps_items_unique s (snd (admit_section self spec s))"
  unfolding admit_section_def admit_fresh_def admit_writes_def
  by (intro itm_rules itm_live_turn) (simp add: fresh_turn_def)

lemma ledger_step_items: "ledger_step s s' \<Longrightarrow> keeps_items_unique s s'"
proof (induction rule: ledger_step.induct)
  case (step_other s s')
  then show ?case using same_records_at by (intro itm_same_turns) blast
next
  case (step_upsert s self i it)
  show ?case unfolding upsert_section_def Let_def
    by (intro itm_rules) (auto simp: wp result_Inr upsert_ids dest: unique_itemsD)
next
  case (step_clear s self i request)
  show ?case unfolding clear_section_def Let_def
    by (intro itm_rules) (auto simp: wp result_Inr dest: unique_itemsD)
next
  case (step_park s self i)
  show ?case unfolding park_section_def Let_def
    by (intro itm_rules) (auto simp: wp result_Inr unique_items_def)
next
  case (step_respond s self i request decision)
  show ?case unfolding respond_section_def Let_def
    by (intro itm_rules) (auto simp: wp result_Inr dest: unique_itemsD)
next
  case (step_publish status s self i stop failure)
  show ?case unfolding publish_section_def
    by (intro itm_rules itm_publish_locked) (auto simp: wp result_Inr dest: unique_itemsD)
next
  case (step_create s self spec)
  show ?case unfolding create_thread_def Let_def by (intro itm_rules)
next
  case (step_session s self i session)
  show ?case unfolding set_acp_session_id_def Let_def by (intro itm_rules)
next
  case (step_child s self i pid)
  show ?case unfolding set_child_pid_def Let_def by (intro itm_rules)
next
  case (step_eof s self i)
  show ?case unfolding mark_child_eof_def Let_def by (intro itm_rules) (auto intro: itm_others)
qed (simp_all add: itm_admit_section itm_observe_locked itm_cancel_section)

text \<open>C21: in every reachable home, the items of a turn have pairwise different identifiers.\<close>

theorem item_ids_stay_unique:
  assumes "reachable s" "turn_at s i = Some t"
  shows "distinct (map item_id (turn_items t))"
proof -
  obtain s0 where s0: "empty_home s0" "ledger_step\<^sup>*\<^sup>* s0 s" using assms(1) by (auto simp: reachable_def)
  have "unique_items s0" using s0(1) by (simp add: empty_home_def unique_items_def turn_at_def)
  moreover have "keeps_items_unique s0 s"
    using s0(2) by (induction rule: rtranclp_induct) (auto intro: itm.frame_refl itm.frame_trans ledger_step_items)
  ultimately show ?thesis using assms(2) by (auto simp: keeps_items_unique_def unique_items_def)
qed

definition example_item :: item where
  "example_item = \<lparr>item_id = ''a1'', item_type = ITEM_PLAN, item_text = ''x'', item_status = ''completed''\<rparr>"

definition home2i :: ledger where
  "home2i = snd (upsert_section 0 ''tu724'' example_item home2)"

theorem item_ids_stay_unique_witness:
  "\<exists>t. turn_at home2i ''tu724'' = Some t \<and> turn_items t = [example_item] \<and> distinct (map item_id (turn_items t))"
proof -
  have "reachable home2i"
    unfolding home2i_def using reachable_homes(2) one_step [OF step_upsert] by (rule reachable_run)
  moreover have "\<exists>t. turn_at home2i ''tu724'' = Some t \<and> turn_items t = [example_item]"
    by (simp add: home2i_def upsert_section_def Let_def wp turn_result_Inr [THEN iffD2] home2_at)
  ultimately show ?thesis using item_ids_stay_unique by blast
qed

section \<open>One turn in progress per client request\<close>

definition client_idle :: "ledger \<Rightarrow> string \<Rightarrow> bool" where
  "client_idle s key \<longleftrightarrow>
     (\<forall>i t. turn_at s i = Some t \<longrightarrow> client_request_id t = key \<longrightarrow> is_terminal (turn_status t))"

definition one_live_per_client :: "ledger \<Rightarrow> bool" where
  "one_live_per_client s \<longleftrightarrow>
     (\<forall>i j t u. turn_at s i = Some t \<longrightarrow> turn_at s j = Some u \<longrightarrow>
        turn_status t = InProgress \<longrightarrow> turn_status u = InProgress \<longrightarrow>
        client_request_id t \<noteq> [] \<longrightarrow> client_request_id t = client_request_id u \<longrightarrow> i = j)"

lemma one_live_per_client_quiet: "one_live_per_client s \<Longrightarrow> no_new_live s s' \<Longrightarrow> one_live_per_client s'"
  unfolding one_live_per_client_def no_new_live_def by (metis is_terminal.simps(1))

lemma client_idle_quiet: "client_idle s key \<Longrightarrow> no_new_live s s' \<Longrightarrow> client_idle s' key"
  unfolding client_idle_def no_new_live_def by metis

lemma scan_client_all_None:
  assumes "fst (and_then turn_json_paths (scan_client self key) s) = Inr None" "ledger_inv s"
  shows "client_idle (snd (and_then turn_json_paths (scan_client self key) s)) key"
  using client_scan.scan_all_None [OF assms] by (simp add: client_idle_def)

lemma quiet_in_flight: "no_new_live s (snd (in_flight_by_client self key s))"
  unfolding in_flight_by_client_def Let_def
  by (intro quiet.run_rules quiet_observe client_scan.scan_quiet)
    (auto simp: lookup_client_def wp quiet.frame_refl client_scan.scan_quiet
      split: sum.split ledger_error.split io_kind.split)

lemma lookup_client_snd [simp]: "snd (lookup_client key s) = s"
  by (simp add: lookup_client_def wp split: sum.split ledger_error.split io_kind.split)

lemma in_flight_None:
  assumes "fst (in_flight_by_client self key s) = Inr None" "ledger_inv s"
  shows "client_idle (snd (in_flight_by_client self key s)) key"
proof -
  have "in_flight_by_client self key s = and_then turn_json_paths (scan_client self key) s \<or>
    (\<exists>i. in_flight_by_client self key s =
       and_then turn_json_paths (scan_client self key) (snd (observe self i s)))"
    using assms(1) unfolding in_flight_by_client_def Let_def
    by (auto simp: and_then_run [of "lookup_client key"] match_result_run ok_run err_run
        split: sum.splits option.splits ledger_error.splits if_splits)
  then show ?thesis
    using scan_client_all_None assms observe_inv by metis
qed

lemma in_flight_Some:
  assumes "fst (in_flight_by_client self key s) = Inr (Some t)"
  shows "\<not> is_terminal (turn_status t)"
  using assms unfolding in_flight_by_client_def Let_def
  by (auto simp: wp dest: client_scan.scan_Some
      split: sum.splits option.splits ledger_error.splits if_splits)

text \<open>What an admission does to the turns: nothing but settling dead ones, or that and one new turn.\<close>

lemma quiet_live_turn: "no_new_live s (snd (live_turn_on_thread_locked self th s))"
  unfolding live_turn_on_thread_locked_def Let_def
  by (intro quiet.run_rules quiet_observe_locked live_scan.scan_all_quiet)
    (auto simp: err_run quiet.frame_refl intro!: live_scan.scan_all_quiet live_scan.scan_quiet split: ledger_error.split)

lemma admit_writes_turns:
  "if fault s (WriteOp (GenerationPath (gen_id g))) \<or> fault s (WriteOp (TurnPath (turn_id t)))
   then fst (admit_writes self client th g t s) = Inl (Io IoOther) \<and>
     turn_at (snd (admit_writes self client th g t s)) = turn_at s
   else fst (admit_writes self client th g t s) = Inr t \<and>
     turn_at (snd (admit_writes self client th g t s)) = (turn_at s)(turn_id t \<mapsto> t)"
proof -
  have [simp]: "turn_at (snd (store_client self key i s)) = turn_at s" for key i s
    by (simp add: store_client_def write_json_atomic_run)
  show ?thesis
    by (auto simp: admit_writes_def wp fun_eq_iff split: option.split)
qed

lemma admit_fresh_turns:
  "(fst (admit_fresh self spec th s) = Inl (Io IoOther) \<and> turn_at (snd (admit_fresh self spec th s)) = turn_at s) \<or>
   (\<exists>i g. fst (admit_fresh self spec th s) = Inr (fresh_turn i (thread_id th) g spec) \<and>
      turn_at (snd (admit_fresh self spec th s)) = (turn_at s)(i \<mapsto> fresh_turn i (thread_id th) g spec))"
proof -
  let ?s1 = "tick (tick (bump_seq self (tick (bump_seq self s))))"
  let ?g = "fresh_id self ''g'' s" and ?i = "fresh_id self ''tu'' (tick (bump_seq self s))"
  let ?t = "fresh_turn ?i (thread_id th) ?g spec"
  have "turn_id ?t = ?i" by (simp add: fresh_turn_def)
  then show ?thesis
    using admit_writes_turns [of ?s1 _ ?t self "nu_client_request_id spec" th]
    by (force simp: admit_fresh_def wp split: if_splits)
qed

lemma admit_section_turns:
  "no_new_live s (snd (admit_section self spec s)) \<or>
   (\<exists>s1 i g. fst (admit_section self spec s) = Inr (fresh_turn i (nu_thread_id spec) g spec) \<and> no_new_live s s1 \<and>
      turn_at (snd (admit_section self spec s)) = (turn_at s1)(i \<mapsto> fresh_turn i (nu_thread_id spec) g spec))"
  if inv: "ledger_inv s"
proof (cases "\<exists>th. thread_result s (nu_thread_id spec) = Inr th \<and> fst (live_turn_on_thread_locked self th s) = Inr None")
  case False
  then have "no_new_live s (snd (admit_section self spec s))"
    unfolding admit_section_def
    by (intro quiet.run_rules quiet_live_turn) (auto simp: wp quiet.frame_refl)
  then show ?thesis ..
next
  case True
  then obtain th where th: "thread_result s (nu_thread_id spec) = Inr th"
    "fst (live_turn_on_thread_locked self th s) = Inr None" by blast
  let ?s1 = "snd (live_turn_on_thread_locked self th s)"
  have "thread_id th = nu_thread_id spec" using th(1) ledger_invD(1) [OF inv] by (auto simp: result_Inr)
  moreover have "admit_section self spec s = admit_fresh self spec (th\<lparr>in_progress_turn_id := []\<rparr>) ?s1"
    using th by (simp add: admit_section_def wp)
  moreover have "no_new_live s ?s1" by (rule quiet_live_turn)
  ultimately show ?thesis
    using admit_fresh_turns [of self spec "th\<lparr>in_progress_turn_id := []\<rparr>" ?s1]
    by (auto simp: no_new_live_def [of s "snd (admit_fresh _ _ _ _)"] dest: no_new_liveD)
qed

lemma existing_turn_inv: "ledger_inv s \<Longrightarrow> ledger_inv (snd (existing_turn self client s))"
proof -
  have "keeps ledger_step\<^sup>*\<^sup>* (existing_turn self client)"
    unfolding existing_turn_def by (intro run.frame_rules run_in_flight_by_client)
  then have "ledger_step\<^sup>*\<^sup>* s (snd (existing_turn self client s))" by (rule keepsD)
  then show "ledger_inv s \<Longrightarrow> ?thesis" using ledger_run_simulates sim_inv by blast
qed

lemma quiet_existing_turn: "no_new_live s (snd (existing_turn self client s))"
  unfolding existing_turn_def by (intro quiet.run_rules quiet_in_flight)

text \<open>
  C6: an admission keeps \<open>at most one turn in progress per client request identifier\<close>, even when
  the index from client requests to turns is missing, stale or wrong: a turn in progress with the
  request's identifier is found and returned instead of a second one being admitted.
\<close>

theorem admit_turn_one_per_client_request:
  assumes "reachable s" "one_live_per_client s"
  shows "one_live_per_client (snd (admit_turn self spec s))"
proof -
  note inv = reachable_inv(1) [OF assms(1)]
  let ?s1 = "snd (existing_turn self (nu_client_request_id spec) s)"
  have inv1: "ledger_inv ?s1" using existing_turn_inv [OF inv] .
  have one1: "one_live_per_client ?s1" using one_live_per_client_quiet [OF assms(2) quiet_existing_turn] .
  have "snd (admit_turn self spec s) = s \<or> snd (admit_turn self spec s) = ?s1 \<or>
    (fst (existing_turn self (nu_client_request_id spec) s) = Inr None \<and> admit_turn self spec s = admit_section self spec ?s1)"
    by (auto simp: admit_turn_def wp split: sum.split option.split)
  moreover have "one_live_per_client (snd (admit_section self spec ?s1))"
    if none: "fst (existing_turn self (nu_client_request_id spec) s) = Inr None"
    using admit_section_turns [OF inv1, of self spec]
  proof (elim disjE exE conjE)
    fix s2 i g
    let ?t = "fresh_turn i (nu_thread_id spec) g spec"
    assume q: "no_new_live ?s1 s2"
      and turns: "turn_at (snd (admit_section self spec ?s1)) = (turn_at s2)(i \<mapsto> ?t)"
    have "client_idle s2 (client_request_id ?t)" if "client_request_id ?t \<noteq> []"
      using that none in_flight_None [OF _ inv] client_idle_quiet [OF _ q]
      by (auto simp: fresh_turn_def existing_turn_def split: option.splits if_splits)
    then show ?thesis
      using one_live_per_client_quiet [OF one1 q] turns
      unfolding one_live_per_client_def client_idle_def by (auto simp: is_terminal_iff)
  qed (rule one_live_per_client_quiet [OF one1])
  ultimately show ?thesis using one1 assms(2) by auto
qed

theorem admit_turn_one_per_client_request_witness:
  "one_live_per_client home2 \<and> one_live_per_client (snd (admit_turn 1 example_turn home2))"
proof -
  have "one_live_per_client home2"
    using home2_only by (auto simp: one_live_per_client_def)
  then show ?thesis using admit_turn_one_per_client_request [OF reachable_homes(2)] by blast
qed


end
