(* ===== verification/RecordFiles.thy ===== *)
theory RecordFiles
  imports AtomicWrite Codec LedgerInvariants
begin

text \<open>
  The record files between the ledger and the disk: what a file of bytes is to the ledger that reads it
  (\<open>read_json\<close>: the text is parsed, then read as the record), and that \<open>write_json_atomic\<close>, step by step on
  the bytes, refines the action of \<open>Store\<close> that puts the record in one piece.
\<close>

section \<open>What is written is read back\<close>

text \<open>C28: every record of the ledger that is written is read back as it was. A name a turn does not have changes nothing,
  a name twice and a missing required name make it unreadable, and a file from before one of the later
  fields existed reads with that field empty; a status outside the vocabulary is never read.\<close>

theorem records_read_back:
  "thread_of_json (thread_to_json th) = Some th \<and> turn_of_json (turn_to_json t) = Some t \<and>
   generation_of_json (generation_to_json g) = Some g \<and>
   (k \<notin> set turn_names \<longrightarrow> turn_of_json (with_entry k x v) = turn_of_json v) \<and>
   (k \<in> set turn_names \<and> json_get v k \<noteq> None \<longrightarrow> turn_of_json (with_entry k x v) = None) \<and>
   (k \<in> set turn_needed \<longrightarrow> turn_of_json (without k (turn_to_json t)) = None) \<and>
   turn_of_json (without ''client_request_id'' (turn_to_json t)) = Some (t\<lparr>client_request_id := []\<rparr>) \<and>
   turn_of_json (without ''pending_request_id'' (turn_to_json t)) = Some (t\<lparr>pending_request_id := []\<rparr>) \<and>
   turn_of_json (without ''pending_decision'' (turn_to_json t)) = Some (t\<lparr>pending_decision := []\<rparr>) \<and>
   turn_of_json (without ''items'' (turn_to_json t)) = Some (t\<lparr>turn_items := []\<rparr>) \<and>
   (turn_of_json (JObj kvs) = Some t' \<longrightarrow> map_of kvs ''status'' = Some (JStr (turn_status_as_str (turn_status t'))))"
proof -
  have "turn_to_json t = JObj (turn_entries t)" by (simp add: turn_to_json_def struct_to_json_def)
  then show ?thesis
    by (intro conjI impI turn_without threads_json.json.read_back turns_json.json.read_back generations_json.json.read_back)
      (simp_all add: turns_json.unknown_ignored turns_json.repeated_refused turns_json.missing_refused status_word
        del: without.simps)
qed

theorem records_read_back_witness:
  "turn_of_json (with_entry ''newer'' JNull (JObj [])) = None \<and>
   turn_of_json (with_entry ''id'' JNull (JObj [(''id'', JStr [])])) = None \<and>
   turn_of_json (without ''input'' (turn_to_json turn1)) = None \<and>
   map_of (turn_entries turn1) ''status'' = Some (JStr ''inProgress'')"
proof -
  have "turn_of_json (JObj []) = None" by (simp add: turn_of_json_def struct_of_json_def turn_of_fields_def required_def)
  then have "turn_of_json (with_entry ''newer'' JNull (JObj [])) = None"
    using records_read_back [of _ turn1 _ "''newer''" JNull "JObj []"] by (simp add: turn_names_def)
  moreover have "turn_of_json (with_entry ''id'' JNull (JObj [(''id'', JStr [])])) = None"
    using records_read_back [of _ turn1 _ "''id''" JNull "JObj [(''id'', JStr [])]"] by (simp add: turn_names_def)
  moreover have "turn_of_json (without ''input'' (turn_to_json turn1)) = None"
    using records_read_back [of _ turn1 _ "''input''"] by (simp add: turn_needed_def)
  moreover have "turn_of_json (JObj (turn_entries turn1)) = Some turn1"
    using records_read_back [of _ turn1] by (simp add: turn_to_json_def struct_to_json_def)
  then have "map_of (turn_entries turn1) ''status'' = Some (JStr (turn_status_as_str (turn_status turn1)))"
    using records_read_back [of _ _ _ _ _ _ "turn_entries turn1" turn1] by blast
  ultimately show ?thesis by (simp add: turn1_def fresh_turn_def)
qed


section \<open>Files and records\<close>

text \<open>\<open>parse\<close> is \<open>serde_json\<close>'s step from text to document.\<close>

definition file_node :: "(string \<Rightarrow> json option) \<Rightarrow> (json \<Rightarrow> 'r option) \<Rightarrow> string \<Rightarrow> 'r node" where
  "file_node parse get body = (case Option.bind (parse body) get of Some r \<Rightarrow> Body r | None \<Rightarrow> Garbage)"

text \<open>A directory of bytes stands for one of records, subdirectories and temporary files aside.\<close>

definition stands_for :: "(string \<Rightarrow> json option) \<Rightarrow> (json \<Rightarrow> 'r option) \<Rightarrow> directory \<Rightarrow> (string \<times> 'r node) list \<Rightarrow> bool" where
  "stands_for parse get d kvs \<longleftrightarrow>
     (\<forall>k. is_tmp k \<or> map_of kvs k = Some Subdir \<or> map_of kvs k = map_option (file_node parse get) (d k))"

lemma json_name_not_tmp [simp]: "\<not> is_tmp (json_name i)"
  using rsplit_once_last [of "CHR ''.''" "''json''" i]
  by (simp add: is_tmp_def extension_def json_name_def)

lemma hex_pad_no_dot: "CHR ''.'' \<notin> set (hex_pad w n)"
proof (induction w arbitrary: n)
  case (Suc w)
  have "byte_of (hex_digit (n mod 16)) \<noteq> byte_of (CHR ''.'')"
    using hex_digit_byte [of "n mod 16"] by (simp add: byte_of_def)
  then have "CHR ''.'' \<noteq> hex_digit (n mod 16)" by metis
  then show ?case using Suc by simp
qed simp

lemma client_filename_not_tmp [simp]: "\<not> is_tmp (client_filename key)"
proof -
  have "CHR ''.'' \<notin> set (client_filename key)"
    by (auto simp: client_filename_def Let_def hex_pad_no_dot)
  then have "split_once (CHR ''.'') (rev (client_filename key)) \<noteq> Some (a, b)" for a b
    unfolding split_once_Some by (metis in_set_conv_decomp set_rev)
  then have "split_once (CHR ''.'') (rev (client_filename key)) = None"
    by (cases "split_once (CHR ''.'') (rev (client_filename key))") auto
  then show ?thesis by (simp add: is_tmp_def extension_def rsplit_once_def)
qed

section \<open>Writers at the same time\<close>

text \<open>
  Several processes, or threads of one, write records of one directory: each schedule interleaves their
  steps. What tells the temporary files apart is the record's name, the process and its sequence number.
\<close>

record write_job =
  job_name :: string
  job_pid :: u32
  job_seq :: u64
  job_pieces :: "string list"

definition job_tmp :: "write_job \<Rightarrow> string" where
  "job_tmp j = tmp_name (job_name j) (job_pid j) (job_seq j)"

definition job_text :: "write_job \<Rightarrow> string list" where
  "job_text j = job_pieces j @ [[newline]]"

definition job_body :: "write_job \<Rightarrow> string" where
  "job_body j = concat (job_pieces j) @ [newline]"

fun job_step :: "(nat \<Rightarrow> write_job) \<Rightarrow> nat \<times> step_result \<Rightarrow> (nat \<Rightarrow> write_pc) \<times> directory \<Rightarrow> (nat \<Rightarrow> write_pc) \<times> directory" where
  "job_step jobs (i, r) (pcs, d) =
     (case write_step (job_name (jobs i)) (job_tmp (jobs i)) (job_text (jobs i)) r (pcs i, d) of
        (pc, d') \<Rightarrow> (pcs(i := pc), d'))"

text \<open>The steps a schedule gives to one writer.\<close>

definition steps_of :: "nat \<Rightarrow> (nat \<times> step_result) list \<Rightarrow> step_result list" where
  "steps_of i schedule = map snd (filter (\<lambda>e. fst e = i) schedule)"

definition run_jobs :: "(nat \<Rightarrow> write_job) \<Rightarrow> (nat \<times> step_result) list \<Rightarrow> directory \<Rightarrow> (nat \<Rightarrow> write_pc) \<times> directory" where
  "run_jobs jobs schedule d = fold (job_step jobs) schedule (\<lambda>_. AtMkdir, d)"

lemma job_body_text: "concat (job_text j) = job_body j"
  by (simp add: job_text_def job_body_def)

lemma job_tmp_is_tmp [simp]: "is_tmp (job_tmp j)"
  by (simp add: job_tmp_def tmp_name_is_tmp)

text \<open>What a writer relies on: its own temporary file holds what it has written so far.\<close>

fun job_ready :: "string \<Rightarrow> string list \<Rightarrow> write_pc \<Rightarrow> directory \<Rightarrow> bool" where
  "job_ready tmp pieces (AtWrite rest) d \<longleftrightarrow> (\<exists>sofar. d tmp = Some sofar \<and> sofar @ concat rest = concat pieces)"
| "job_ready tmp pieces AtSync d \<longleftrightarrow> d tmp = Some (concat pieces)"
| "job_ready tmp pieces AtRename d \<longleftrightarrow> d tmp = Some (concat pieces)"
| "job_ready tmp pieces _ d \<longleftrightarrow> True"

lemma job_ready_own: "d tmp = d' tmp \<Longrightarrow> job_ready tmp pieces pc d = job_ready tmp pieces pc d'"
  by (cases pc) simp_all

text \<open>One step of one writer: it stays ready, leaves the other temporary files alone, and changes what readers see only by the rename.\<close>

lemma write_step_alone:
  assumes "is_tmp tmp" "\<not> is_tmp name" "job_ready tmp pieces (fst x) (snd x)"
  shows "let y = write_step name tmp pieces r x in
    job_ready tmp pieces (fst y) (snd y) \<and> (\<forall>k. is_tmp k \<and> k \<noteq> tmp \<longrightarrow> snd y k = snd x k) \<and>
    (fst x = Written \<longrightarrow> fst y = Written) \<and>
    record_view (snd y) =
      (if fst y = Written \<and> fst x \<noteq> Written then (record_view (snd x))(name \<mapsto> concat pieces) else record_view (snd x))"
  using assms
proof (induction name tmp pieces r x rule: write_step.induct)
  case (4 name tmp pieces fine k piece rest d)
  then show ?case by (cases fine) (auto simp: append_file_def)
next
  case (6 name tmp pieces fine k d)
  then have "d tmp = Some (concat pieces)" by simp
  then have "record_view (d(name := d tmp)) = (record_view d)(name \<mapsto> concat pieces)"
    using "6.prems"(2) by (auto simp: record_view_def)
  then show ?case using 6 by (cases fine) auto
qed auto

definition jobs_inv :: "(nat \<Rightarrow> write_job) \<Rightarrow> nat set \<Rightarrow> directory \<Rightarrow> nat list \<Rightarrow> (nat \<Rightarrow> write_pc) \<times> directory \<Rightarrow> bool" where
  "jobs_inv jobs I old order x \<longleftrightarrow>
     distinct order \<and> set order = {i. fst x i = Written} \<and>
     record_view (snd x) = fold (\<lambda>i v. v(job_name (jobs i) \<mapsto> job_body (jobs i))) order (record_view old) \<and>
     (\<forall>i \<in> I. job_ready (job_tmp (jobs i)) (job_text (jobs i)) (fst x i) (snd x))"

lemma job_step_inv:
  assumes inv: "jobs_inv jobs I old order (pcs, d)" and i: "i \<in> I"
    and names: "\<And>i. i \<in> I \<Longrightarrow> \<not> is_tmp (job_name (jobs i))" and inj: "inj_on (job_tmp \<circ> jobs) I"
  shows "\<exists>order'. jobs_inv jobs I old order' (job_step jobs (i, r) (pcs, d))"
proof -
  let ?j = "jobs i"
  obtain pc d' where y: "write_step (job_name ?j) (job_tmp ?j) (job_text ?j) r (pcs i, d) = (pc, d')" by fastforce
  have ready: "job_ready (job_tmp ?j) (job_text ?j) (fst (pcs i, d)) (snd (pcs i, d))" using inv i by (simp add: jobs_inv_def)
  have step: "job_ready (job_tmp ?j) (job_text ?j) pc d' \<and> (\<forall>k. is_tmp k \<and> k \<noteq> job_tmp ?j \<longrightarrow> d' k = d k) \<and>
    (pcs i = Written \<longrightarrow> pc = Written) \<and>
    record_view d' = (if pc = Written \<and> pcs i \<noteq> Written then (record_view d)(job_name ?j \<mapsto> job_body ?j) else record_view d)"
    by (rule write_step_alone [OF job_tmp_is_tmp names [OF i] ready, of r, unfolded Let_def y fst_conv snd_conv job_body_text])
  have others: "job_ready (job_tmp (jobs k)) (job_text (jobs k)) ((pcs(i := pc)) k) d'" if "k \<in> I" for k
  proof (cases "k = i")
    case False
    then have "job_tmp (jobs k) \<noteq> job_tmp ?j" using inj that i by (auto simp: inj_on_def)
    then have "d' (job_tmp (jobs k)) = d (job_tmp (jobs k))" using step by simp
    then have "job_ready (job_tmp (jobs k)) (job_text (jobs k)) (pcs k) d' = job_ready (job_tmp (jobs k)) (job_text (jobs k)) (pcs k) d"
      by (rule job_ready_own)
    moreover have "job_ready (job_tmp (jobs k)) (job_text (jobs k)) (pcs k) d" using inv that by (simp add: jobs_inv_def)
    ultimately show ?thesis using False by simp
  qed (simp add: step [THEN conjunct1])
  show ?thesis
  proof (cases "pc = Written \<and> pcs i \<noteq> Written")
    case True
    then have "jobs_inv jobs I old (order @ [i]) (job_step jobs (i, r) (pcs, d))"
      using inv step True others by (auto simp: jobs_inv_def y)
    then show ?thesis ..
  next
    case False
    then have "(pc = Written) = (pcs i = Written)" using step by blast
    then have "jobs_inv jobs I old order (job_step jobs (i, r) (pcs, d))"
      using inv step others False by (auto simp: jobs_inv_def y)
    then show ?thesis ..
  qed
qed

lemma run_jobs_inv:
  assumes "\<exists>order. jobs_inv jobs I old order x" "fst ` set schedule \<subseteq> I"
    and "\<And>i. i \<in> I \<Longrightarrow> \<not> is_tmp (job_name (jobs i))" and "inj_on (job_tmp \<circ> jobs) I"
  shows "\<exists>order. jobs_inv jobs I old order (fold (job_step jobs) schedule x)"
  using assms(1,2)
proof (induction schedule arbitrary: x)
  case (Cons e schedule)
  obtain i r where e: "e = (i, r)" by (cases e)
  have "\<exists>order. jobs_inv jobs I old order (job_step jobs e x)"
    using Cons.prems job_step_inv [OF _ _ assms(3,4), of old _ "fst x" "snd x" i r] by (auto simp: e)
  then show ?case using Cons by simp
qed simp

text \<open>Whatever the interleaving: readers see the records as some order of whole writes leaves them.\<close>

lemma run_jobs_linear:
  assumes "\<And>i. i \<in> fst ` set schedule \<Longrightarrow> \<not> is_tmp (job_name (jobs i))"
    and "inj_on (job_tmp \<circ> jobs) (fst ` set schedule)"
  obtains order where "distinct order" "set order = {i. fst (run_jobs jobs schedule d) i = Written}"
    "record_view (snd (run_jobs jobs schedule d)) =
       fold (\<lambda>i v. v(job_name (jobs i) \<mapsto> job_body (jobs i))) order (record_view d)"
proof -
  have "jobs_inv jobs (fst ` set schedule) d [] (\<lambda>_. AtMkdir, d)" by (simp add: jobs_inv_def)
  then have "\<exists>order. jobs_inv jobs (fst ` set schedule) d order (run_jobs jobs schedule d)"
    unfolding run_jobs_def using run_jobs_inv [OF _ _ assms, of d] by blast
  then show ?thesis using that by (auto simp: jobs_inv_def)
qed

text \<open>Where a writer stands depends on its own steps only.\<close>

lemma write_step_pc: "fst (write_step name tmp pieces r (pc, d)) = fst (write_step name tmp pieces r (pc, d'))"
  by (cases "(name, tmp, pieces, r, (pc, d))" rule: write_step.cases) auto

lemma job_steps_pc:
  "fst (fold (job_step jobs) schedule (pcs, d)) i =
     fst (fold (write_step (job_name (jobs i)) (job_tmp (jobs i)) (job_text (jobs i))) (steps_of i schedule) (pcs i, d'))"
proof (induction schedule arbitrary: pcs d d')
  case Nil
  then show ?case by (simp add: steps_of_def)
next
  case (Cons e schedule)
  obtain j r where e: "e = (j, r)" by (cases e)
  let ?step = "\<lambda>j. write_step (job_name (jobs j)) (job_tmp (jobs j)) (job_text (jobs j)) r"
  obtain pc d1 where y: "?step j (pcs j, d) = (pc, d1)" by fastforce
  obtain d2 where z: "?step j (pcs j, d') = (pc, d2)"
    using write_step_pc [of "job_name (jobs j)" "job_tmp (jobs j)" "job_text (jobs j)" r "pcs j" d d']
    by (metis y fst_conv prod.collapse)
  have "fold (job_step jobs) (e # schedule) (pcs, d) = fold (job_step jobs) schedule (pcs(j := pc), d1)"
    by (simp add: e y)
  note first = this Cons.IH [of "pcs(j := pc)" d1]
  show ?case
  proof (cases "j = i")
    case True
    have "steps_of i (e # schedule) = r # steps_of i schedule" by (simp add: steps_of_def e True)
    moreover have "?step i (pcs i, d') = (pc, d2)" using z True by simp
    ultimately show ?thesis using first(2) [of d2] True by (simp only: first(1)) simp
  next
    case False
    have "steps_of i (e # schedule) = steps_of i schedule" by (simp add: steps_of_def e False)
    then show ?thesis using False by (simp only: first(1) first(2) [of d'] fun_upd_other)
  qed
qed

lemma run_jobs_ends:
  assumes "length (job_pieces (jobs i)) + 7 \<le> length (steps_of i schedule)"
  shows "write_over (fst (run_jobs jobs schedule d) i)"
    and "(\<And>r. r \<in> set (steps_of i schedule) \<Longrightarrow> \<exists>k. r = Go True k) \<Longrightarrow> fst (run_jobs jobs schedule d) i = Written"
proof -
  note pc = job_steps_pc [of jobs schedule "\<lambda>_. AtMkdir" d i d, folded run_jobs_def]
  show over: "write_over (fst (run_jobs jobs schedule d) i)"
    using write_steps_decrease [of "job_text (jobs i)" "job_name (jobs i)" "job_tmp (jobs i)" "steps_of i schedule" "(AtMkdir, d)"] assms
    by (simp add: pc job_text_def)
  show "fst (run_jobs jobs schedule d) i = Written" if "\<And>r. r \<in> set (steps_of i schedule) \<Longrightarrow> \<exists>k. r = Go True k"
    using write_steps_on_course [of "(AtMkdir, d)" "steps_of i schedule" "job_name (jobs i)" "job_tmp (jobs i)" "job_text (jobs i)"] that over
    by (auto simp: pc on_course_def write_over_def)
qed

section \<open>The bytes refine the records\<close>

context json_codec begin

lemma file_node_put: "parse body = Some (put r) \<Longrightarrow> file_node parse get body = Body r"
  by (simp add: file_node_def)

lemma stands_for_update:
  assumes "stands_for parse get d kvs" "parse body = Some (put r)" "\<not> is_tmp name"
    and "record_view d' = (record_view d)(name \<mapsto> body)"
  shows "stands_for parse get d' (AList.update name (Body r) kvs)"
proof -
  have "d' k = (d(name \<mapsto> body)) k" if "\<not> is_tmp k" for k
    using fun_cong [OF assms(4), of k] that by (simp add: record_view_def split: if_splits)
  then show ?thesis
    using assms(1,3) by (auto simp: stands_for_def update_conv' file_node_put [of parse body r, OF assms(2)])
qed

lemma stands_for_view:
  assumes "record_view d' = record_view d"
  shows "stands_for parse get d' kvs = stands_for parse get d kvs"
proof -
  have "(is_tmp k \<or> map_of kvs k = Some Subdir \<or> map_of kvs k = map_option (file_node parse get) (d' k)) =
      (is_tmp k \<or> map_of kvs k = Some Subdir \<or> map_of kvs k = map_option (file_node parse get) (d k))" for k
    using fun_cong [OF assms, of k] by (cases "is_tmp k") (simp_all add: record_view_def)
  then show ?thesis by (simp add: stands_for_def)
qed

lemma stands_for_writes:
  assumes "stands_for parse get d kvs" "\<And>i. i \<in> set order \<Longrightarrow> parse (body i) = Some (put (r i)) \<and> \<not> is_tmp (name i)"
    and "record_view d' = fold (\<lambda>i v. v(name i \<mapsto> body i)) order (record_view d)"
  shows "stands_for parse get d' (fold (\<lambda>i. AList.update (name i) (Body (r i))) order kvs)"
  using assms
proof (induction order arbitrary: d kvs)
  case Nil
  then show ?case using stands_for_view [of d' d] by simp
next
  case (Cons i order)
  have i: "parse (body i) = Some (put (r i))" "\<not> is_tmp (name i)" using Cons.prems(2) by simp_all
  let ?d = "d(name i \<mapsto> body i)"
  have view: "record_view ?d = (record_view d)(name i \<mapsto> body i)" using i(2) by (auto simp: record_view_def)
  have "stands_for parse get d' (fold (\<lambda>i. AList.update (name i) (Body (r i))) order (AList.update (name i) (Body (r i)) kvs))"
  proof (rule Cons.IH)
    show "stands_for parse get ?d (AList.update (name i) (Body (r i)) kvs)"
      by (rule stands_for_update [OF Cons.prems(1) i view])
    show "parse (body k) = Some (put (r k)) \<and> \<not> is_tmp (name k)" if "k \<in> set order" for k
      using Cons.prems(2) that by simp
    show "record_view d' = fold (\<lambda>i v. v(name i \<mapsto> body i)) order (record_view ?d)"
      using Cons.prems(3) by (simp only: view fold_simps comp_apply)
  qed
  then show ?case by (simp only: fold_simps comp_apply)
qed

lemma jobs_linearize:
  assumes d: "stands_for parse get d kvs"
    and jobs: "\<And>i. i \<in> fst ` set schedule \<Longrightarrow> parse (job_body (jobs i)) = Some (put (r i)) \<and> \<not> is_tmp (job_name (jobs i))"
    and inj: "inj_on (\<lambda>i. (job_name (jobs i), job_pid (jobs i), job_seq (jobs i))) (fst ` set schedule)"
  obtains order where "distinct order" "set order = {i. fst (run_jobs jobs schedule d) i = Written}"
    "set order \<subseteq> fst ` set schedule" "stands_for parse get (snd (run_jobs jobs schedule d)) (fold (\<lambda>i. AList.update (job_name (jobs i)) (Body (r i))) order kvs)"
proof -
  have tmps: "inj_on (job_tmp \<circ> jobs) (fst ` set schedule)"
    using inj by (auto simp: inj_on_def job_tmp_def tmp_name_inj)
  have names: "\<not> is_tmp (job_name (jobs i))" if "i \<in> fst ` set schedule" for i using jobs [OF that] ..
  obtain order where o: "distinct order" "set order = {i. fst (run_jobs jobs schedule d) i = Written}"
    "record_view (snd (run_jobs jobs schedule d)) = fold (\<lambda>i v. v(job_name (jobs i) \<mapsto> job_body (jobs i))) order (record_view d)"
    by (rule run_jobs_linear [OF names tmps, of d])
  have own: "set order \<subseteq> fst ` set schedule"
  proof
    fix i assume "i \<in> set order"
    then have "fst (run_jobs jobs schedule d) i = Written" by (simp add: o(2))
    then have "steps_of i schedule \<noteq> []"
      using job_steps_pc [of jobs schedule "\<lambda>_. AtMkdir" d i d] by (auto simp: run_jobs_def)
    then show "i \<in> fst ` set schedule" by (force simp: steps_of_def filter_empty_conv)
  qed
  then have "stands_for parse get (snd (run_jobs jobs schedule d)) (fold (\<lambda>i. AList.update (job_name (jobs i)) (Body (r i))) order kvs)"
    using jobs by (intro stands_for_writes [OF d _ o(3)]) auto
  then show ?thesis by (rule that [OF o(1,2) own])
qed

end

lemma turns_dir_writes:
  "turns_dir (fold (\<lambda>i. put_turn (t i)) order s) = fold (\<lambda>i. AList.update (json_name (turn_id (t i))) (Body (t i))) order (turns_dir s)"
  by (induction order arbitrary: s) (simp_all add: put_turn_def)

text \<open>C10: any number of writers of turn records, their steps interleaved in any way and each step free to fail, leave the
  directory as some order of the writes that reached their rename leaves the ledger's turns, each whole
  and each once; the others leave no trace. A writer is over after a bounded number of its
  own steps, and it has written when none of them failed.\<close>

theorem turn_writes_linearize:
  assumes "stands_for parse turn_of_json d (turns_dir s)"
    and "\<And>i. i \<in> fst ` set schedule \<Longrightarrow>
      parse (job_body (jobs i)) = Some (turn_to_json (t i)) \<and> job_name (jobs i) = json_name (turn_id (t i))"
    and "inj_on (\<lambda>i. (job_name (jobs i), job_pid (jobs i), job_seq (jobs i))) (fst ` set schedule)"
  shows "let (pcs, d') = run_jobs jobs schedule d in
    (\<exists>order. distinct order \<and> set order = {i. pcs i = Written} \<and>
       stands_for parse turn_of_json d' (turns_dir (fold (\<lambda>i. put_turn (t i)) order s))) \<and>
    (\<forall>i. length (job_pieces (jobs i)) + 7 \<le> length (steps_of i schedule) \<longrightarrow>
       write_over (pcs i) \<and> ((\<forall>r \<in> set (steps_of i schedule). \<exists>k. r = Go True k) \<longrightarrow> pcs i = Written))"
proof -
  have job: "parse (job_body (jobs i)) = Some (turn_to_json (t i)) \<and> \<not> is_tmp (job_name (jobs i))"
    if "i \<in> fst ` set schedule" for i using assms(2) [OF that] by simp
  obtain order where o: "distinct order" "set order = {i. fst (run_jobs jobs schedule d) i = Written}"
    "set order \<subseteq> fst ` set schedule" "stands_for parse turn_of_json (snd (run_jobs jobs schedule d))
       (fold (\<lambda>i. AList.update (job_name (jobs i)) (Body (t i))) order (turns_dir s))"
    by (rule turns_json.json.jobs_linearize [OF assms(1) job assms(3)])
  have "fold (\<lambda>i. AList.update (job_name (jobs i)) (Body (t i))) order (turns_dir s) = turns_dir (fold (\<lambda>i. put_turn (t i)) order s)"
    unfolding turns_dir_writes using assms(2) o(3) by (intro fold_cong refl) (simp add: subset_iff)
  then show ?thesis using o run_jobs_ends [of jobs _ schedule d] by (auto simp: case_prod_beta)
qed


theorem turn_writes_linearize_witness:
  "stands_for (\<lambda>body. if body = ''1'' @ [newline] then Some (turn_to_json turn1) else None) turn_of_json
     (snd (run_jobs
        (\<lambda>i. \<lparr>job_name = json_name (turn_id turn1), job_pid = 7, job_seq = of_nat i, job_pieces = [''1'']\<rparr>)
        [(0, Go True 0), (1, Go True 0), (0, Go True 0), (1, Go True 0), (1, Go False 1), (0, Go True 0), (0, Go True 0),
         (0, Go True 0), (1, Go True 0), (0, Go True 0), (0, Go True 0)] (\<lambda>_. None)))
     (turns_dir (put_turn turn1 blank_ledger))"
proof -
  let ?parse = "\<lambda>body. if body = ''1'' @ [newline] then Some (turn_to_json turn1) else None"
  let ?jobs = "\<lambda>i. \<lparr>job_name = json_name (turn_id turn1), job_pid = 7, job_seq = of_nat i, job_pieces = [''1'']\<rparr> :: write_job"
  let ?schedule = "[(0, Go True 0), (1, Go True 0), (0, Go True 0), (1, Go True 0), (1, Go False 1), (0, Go True 0), (0, Go True 0),
    (0, Go True 0), (1, Go True 0), (0, Go True 0), (0, Go True 0)] :: (nat \<times> step_result) list"
  have start: "stands_for ?parse turn_of_json (\<lambda>_. None) (turns_dir blank_ledger)"
    by (simp add: stands_for_def blank_ledger_def)
  have pcs: "fst (run_jobs ?jobs ?schedule (\<lambda>_. None)) = (\<lambda>_. AtMkdir)(0 := Written, 1 := NotWritten)"
    by (simp add: run_jobs_def job_text_def fun_eq_iff)
  have who: "fst ` set ?schedule = {0, 1}" by auto
  have job: "?parse (job_body (?jobs i)) = Some (turn_to_json turn1) \<and> job_name (?jobs i) = json_name (turn_id turn1)" for i
    by (simp add: job_body_def)
  have inj: "inj_on (\<lambda>i. (job_name (?jobs i), job_pid (?jobs i), job_seq (?jobs i))) (fst ` set ?schedule)"
    unfolding who by simp
  note ran = turn_writes_linearize [OF start, where t = "\<lambda>_. turn1", OF job inj, unfolded case_prod_beta Let_def]
  from ran [THEN conjunct1] obtain order where order: "distinct order" "set order = {i. fst (run_jobs ?jobs ?schedule (\<lambda>_. None)) i = Written}"
    "stands_for ?parse turn_of_json (snd (run_jobs ?jobs ?schedule (\<lambda>_. None))) (turns_dir (fold (\<lambda>i. put_turn turn1) order blank_ledger))"
    by blast
  from order(2) have "set order = {0}" unfolding pcs by (auto split: if_splits)
  with order(1) have "order = [0]" by (cases order rule: remdups_adj.cases) auto
  then show ?thesis using order(3) by (simp only: fold_simps comp_apply id_apply)
qed

end
