(* ===== verification/LedgerOps.thy ===== *)
theory LedgerOps
  imports LedgerInvariants
begin

text \<open>
  What each operation of \<^verbatim>\<open>crates/core/src/ledger.rs\<close> does on every branch: observing and
  cancelling, publishing, parking and answering approvals, listing, waiting, detecting a crashed
  owner, and the identifiers and file names all of it rests on.
\<close>

section \<open>Observing, publishing, cancelling\<close>

text \<open>The turn is on disk, in progress, with its generation, and no file operation fails.\<close>

definition observable :: "ledger \<Rightarrow> string \<Rightarrow> turn \<Rightarrow> generation \<Rightarrow> bool" where
  "observable s i t g \<longleftrightarrow>
     (\<forall>op. \<not> fault s op) \<and> valid_id i \<and> turn_at s i = Some t \<and> turn_id t = i \<and>
     valid_id (turn_generation_id t) \<and> generation_at s (turn_generation_id t) = Some g"

lemma observable_read:
  assumes "observable s i t g"
  shows "turn_result_of s i = Inr t" "generation_result s (turn_generation_id t) = Inr g"
  using assms by (simp_all add: observable_def result_Inr)

lemma with_turn_lock_observable: "observable s i t g \<Longrightarrow> with_turn_lock i body s = body s"
  using observable_read(1) [of s i t g]
  by (simp add: with_turn_lock_def wp observable_def validate_id_def if_ok_def)

lemma memory_fault [simp]:
  "fault (release_live self g s) = fault s" "fault (hold_live self g s) = fault s"
  "fault (wake self i s) = fault s" "fault (remove_slot self i s) = fault s" "fault (wake_and_drop self i s) = fault s"
  by (simp_all add: release_live_def hold_live_def wake_and_drop_def remove_slot_def wake_def notify_all_def Let_def
      split: option.split)

lemma publish_locked_fault [simp]: "fault (snd (publish_terminal_locked self t status stop failure s)) = fault s"
  by (simp add: publish_terminal_locked_def Let_def wp split: sum.split)

lemma publish_locked_observable:
  assumes "observable s i t g" "\<not> is_terminal (turn_status t)"
  shows "fst (publish_terminal_locked self t status stop failure s)
      = Inr (t\<lparr>turn_status := status, stop_reason := stop, failure_reason := failure\<rparr>)"
    and "turn_at (snd (publish_terminal_locked self t status stop failure s))
      = (turn_at s)(i \<mapsto> t\<lparr>turn_status := status, stop_reason := stop, failure_reason := failure\<rparr>)"
  using publish_terminal_locked_turns [OF assms(2), of s self status stop failure] assms(1)
  by (simp_all add: observable_def)

definition worker_gone :: "turn \<Rightarrow> turn" where
  "worker_gone t = t\<lparr>turn_status := Failed, stop_reason := [], failure_reason := FAILURE_WORKER_GONE\<rparr>"

lemma observe_observable:
  assumes "observable s i t g" "\<not> is_terminal (turn_status t)"
  shows "fst (observe self i s) = Inr (if generation_is_dead self g s then worker_gone t else t)"
    and "turn_at (snd (observe self i s)) =
      (if generation_is_dead self g s then (turn_at s)(i \<mapsto> worker_gone t) else turn_at s)"
  using assms publish_locked_observable [OF assms, of self Failed "[]" FAILURE_WORKER_GONE]
  by (simp_all add: observe_def with_turn_lock_observable observe_locked_def wp observable_read worker_gone_def)


lemma home2_observable: "observable home2 ''tu724'' turn1 generation1"
  by (simp add: observable_def home2_at)

lemma generation1_alive: "\<not> generation_is_dead self generation1 home2"
  by (simp add: generation_is_dead_def owner_instance_alive_def process_holds_live_def home2_eq home1_eq
      generation1_def fresh_generation_def blank_ledger_def)


text \<open>C16: cancelling a turn in progress publishes \<open>interrupted\<close> with stop reason \<open>cancelled\<close>,
  unless its generation is dead: then the crash is recorded as such. Either way the turn is
  terminal afterwards, and cancelling it again returns the same record and changes no turn.\<close>

theorem cancel_settles:
  assumes "observable s i t g" "\<not> is_terminal (turn_status t)"
  shows "let t' = (if generation_is_dead self g s then worker_gone t
             else t\<lparr>turn_status := Interrupted, stop_reason := ''cancelled'', failure_reason := []\<rparr>);
             s' = snd (cancel self i s) in
    fst (cancel self i s) = Inr t' \<and> turn_at s' = (turn_at s)(i \<mapsto> t') \<and> is_terminal (turn_status t') \<and>
    cancel other i s' = (Inr t', s')"
proof -
  define t' where "t' = (if generation_is_dead self g s then worker_gone t
    else t\<lparr>turn_status := Interrupted, stop_reason := ''cancelled'', failure_reason := []\<rparr>)"
  define s' where "s' = snd (cancel self i s)"
  have run: "cancel self i s = publish_terminal_locked self t (turn_status t') (stop_reason t') (failure_reason t') s"
    using assms(2) publish_locked_observable(1) [OF assms, of self Failed "[]" FAILURE_WORKER_GONE]
    by (auto simp: cancel_def with_turn_lock_observable [OF assms(1)] cancel_section_def observe_locked_def wp
        observable_read [OF assms(1)] t'_def worker_gone_def prod_eq_iff)
  have t': "t\<lparr>turn_status := turn_status t', stop_reason := stop_reason t', failure_reason := failure_reason t'\<rparr> = t'"
    and settled: "is_terminal (turn_status t')"
    by (simp_all add: t'_def worker_gone_def)
  have first: "fst (cancel self i s) = Inr t'" "turn_at s' = (turn_at s)(i \<mapsto> t')" "fault s' = fault s"
    using publish_locked_observable [OF assms, of self "turn_status t'" "stop_reason t'" "failure_reason t'"]
    by (simp_all add: run t' s'_def)
  have "turn_result_of s' i = Inr t'" "validate_id i = Inr ()" "\<not> fault s' op" for op
    using first assms(1) by (simp_all add: result_Inr observable_def validate_id_def if_ok_def)
  then have "cancel other i s' = (Inr t', s')"
    using settled by (simp add: cancel_def with_turn_lock_def cancel_section_def observe_locked_def wp if_ok_def)
  with first settled show ?thesis by (simp add: Let_def s'_def t'_def)
qed

theorem cancel_settles_witness:
  "fst (cancel 0 ''tu724'' home2) =
     Inr (turn1\<lparr>turn_status := Interrupted, stop_reason := ''cancelled'', failure_reason := []\<rparr>)"
  using cancel_settles [OF home2_observable, of 0] generation1_alive by (simp add: Let_def)

text \<open>C17: the first terminal status wins. Publishing on a terminal turn is refused with its status
  and changes no turn; publishing a status that is not terminal is refused before anything is read.\<close>

theorem first_terminal_wins:
  assumes "valid_id i" "turn_at s i = Some t" "turn_id t = i" "is_terminal (turn_status t)" "\<And>op. \<not> fault s op"
  shows "publish_terminal self i status stop failure s =
    (Inl (if is_terminal status then AlreadyTerminal i (turn_status t) else InvalidStatus NeedsTerminal), s)"
proof -
  have "turn_result_of s i = Inr t" using assms by (simp add: result_Inr)
  then show ?thesis using assms
    by (simp add: publish_terminal_def with_turn_lock_def publish_section_def wp validate_id_def if_ok_def)
qed

lemma home3_no_fault: "\<not> fault home3 op"
  by (simp add: home3_def publish_section_def wp turn_result_Inr [THEN iffD2] home2_at)

theorem first_terminal_wins_witness:
  "publish_terminal 1 ''tu724'' Failed ''x'' ''y'' home3 = (Inl (AlreadyTerminal ''tu724'' Completed), home3)"
  using first_terminal_wins [of "''tu724''" home3 turn1_done 1 Failed "''x''" "''y''"] home3_at home3_no_fault
  by (simp add: turn1_done_def)

section \<open>Admission\<close>



section \<open>Approvals\<close>

text \<open>C19: answering an approval succeeds exactly when the turn, re-read under its lock, is in
  progress and waits for this very request; then the decision is recorded, with nothing else
  changed. A terminal turn makes the request stale, another or no pending request unknown, and a
  second answer is a duplicate: in these cases no record changes at all.\<close>

theorem respond_decides_once:
  assumes "observable s i t g"
  shows "if is_terminal (turn_status t) then respond_section self i r d s = (Inl (InvalidStatus (StaleRequest r)), s)
    else if pending_request_id t \<noteq> r then respond_section self i r d s = (Inl (InvalidStatus (UnknownRequest r)), s)
    else if pending_decision t \<noteq> [] then respond_section self i r d s = (Inl (InvalidStatus (DuplicateRequest r)), s)
    else let t' = t\<lparr>pending_decision := approval_decision_as_str d\<rparr> in
      fst (respond_section self i r d s) = Inr t' \<and>
      turn_at (snd (respond_section self i r d s)) = (turn_at s)(i \<mapsto> t') \<and>
      fst (respond_section other i r d' (snd (respond_section self i r d s))) = Inl (InvalidStatus (DuplicateRequest r))"
proof -
  have nf: "\<not> fault s op" "valid_id i" "turn_id t = i" for op using assms by (simp_all add: observable_def)
  show ?thesis
    using nf by (auto simp: respond_section_def Let_def wp observable_read [OF assms] turn_result_Inr [THEN iffD2] fun_eq_iff)
qed

definition home2p :: ledger where
  "home2p = snd (park_section 0 ''tu724'' home2)"

lemma home2p_at: "turn_at home2p ''tu724'' = Some (turn1\<lparr>pending_request_id := ''ap749'', pending_decision := []\<rparr>)"
proof -
  have "fresh_id 0 ''ap'' home2 = ''ap749''"
    by (simp add: home2_eq home1_eq blank_ledger_def fresh_id_def to_hex_small hex_digit_def char_of_def bit_0)
  then show ?thesis
    by (simp add: home2p_def park_section_def Let_def wp turn_result_Inr [THEN iffD2] home2_at pending_approval_def)
qed

lemma home2p_observable:
  "observable home2p ''tu724'' (turn1\<lparr>pending_request_id := ''ap749'', pending_decision := []\<rparr>) generation1"
proof -
  have "\<not> fault home2p op" "generation_at home2p ''g713'' = Some generation1" for op
    by (simp_all add: home2p_def park_section_def Let_def wp turn_result_Inr [THEN iffD2] home2_at pending_approval_def)
  then show ?thesis by (simp add: observable_def home2p_at)
qed

theorem respond_decides_once_witness:
  "fst (respond_section 1 ''tu724'' ''ap749'' Accept home2p) =
     Inr (turn1\<lparr>pending_request_id := ''ap749'', pending_decision := ''accept''\<rparr>)"
  using respond_decides_once [OF home2p_observable, of 1 "''ap749''" Accept] by (simp add: Let_def)

text \<open>C20: a second approval request parked after an answer was recorded and before the first
  waiter consumed it replaces request and answer: a waiter for the first request does not see
  its answer any more and keeps waiting while the turn is in progress.\<close>

theorem second_park_loses_decision:
  assumes "observable s i t g" "turn_status t = InProgress" "\<not> generation_is_dead self g (snd (park_section self i s))"
    and "pending_request_id t = r" "pending_decision t = approval_decision_as_str d" "fresh_id self ''ap'' s \<noteq> r"
  shows "(\<exists>t'. fst (park_section self i s) = Inr t' \<and> pending_decision t' = []) \<and>
    wait_decision_loop self i r [] (snd (park_section self i s)) = None"
proof -
  let ?t' = "t\<lparr>pending_request_id := fresh_id self ''ap'' s, pending_decision := []\<rparr>"
  let ?s' = "snd (park_section self i s)"
  have nf: "\<not> fault s op" "valid_id i" "turn_id t = i" for op using assms(1) by (simp_all add: observable_def)
  have park: "fst (park_section self i s) = Inr ?t'" "turn_at ?s' i = Some ?t'" "generation_at ?s' = generation_at s"
    "fault ?s' = fault s"
    using assms nf
    by (simp_all add: park_section_def Let_def wp observable_read [OF assms(1)] pending_approval_def)
  then have "observable ?s' i ?t' g" using assms(1) by (simp add: observable_def)
  moreover have "\<not> is_terminal (turn_status ?t')" using assms(2) by simp
  ultimately have "fst (observe self i ?s') = Inr ?t'"
    using observe_observable(1) assms(3) by fastforce
  then show ?thesis using park assms(2,6)
    by (auto simp: wait_decision_loop.simps [of self i r "[]"] prod.case_eq_if split: prod.split)
qed

definition home2r :: ledger where
  "home2r = snd (respond_section 0 ''tu724'' ''ap749'' Decline home2p)"

lemma live_frames [simp]:
  "process_live (bump_seq self s) = process_live s" "process_live (tick s) = process_live s"
  "process_live (put_turn t s) = process_live s" "process_live (wake self i s) = process_live s"
  "pid_of (wake self i s) = pid_of s" "procs (wake self i s) = procs s"
  "ticks (bump_seq self s) = ticks s" "ticks (put_turn t s) = ticks s" "ticks (wake self i s) = ticks s"
  "ticks (tick s) = Suc (ticks s)" "clock (bump_seq self s) = clock s" "clock (put_turn t s) = clock s"
  "clock (wake self i s) = clock s" "clock (tick s) = clock s"
  by (simp_all add: bump_seq_def tick_def put_turn_def wake_def notify_all_def split: option.split)

lemma park_live: "process_live (snd (park_section self i s)) = process_live s" "pid_of (snd (park_section self i s)) = pid_of s"
  by (auto simp: park_section_def Let_def wp split: sum.split)

lemma generation1_held: "(pid_of s self, ''g713'') \<in> process_live s \<Longrightarrow> \<not> generation_is_dead self generation1 s"
  by (simp add: generation_is_dead_def owner_instance_alive_def process_holds_live_def generation1_def fresh_generation_def)

lemma home2r_at:
  "observable home2r ''tu724'' (turn1\<lparr>pending_request_id := ''ap749'', pending_decision := ''decline''\<rparr>) generation1"
  "process_live home2r = {(7, ''g713'')}" "pid_of home2r = (\<lambda>_. 7)"
proof -
  have "\<not> fault home2p op" "generation_at home2p ''g713'' = Some generation1" for op
    using home2p_observable by (auto simp: observable_def)
  then show "observable home2r ''tu724'' (turn1\<lparr>pending_request_id := ''ap749'', pending_decision := ''decline''\<rparr>) generation1"
    by (simp add: observable_def home2r_def respond_section_def Let_def wp turn_result_Inr [THEN iffD2] home2p_at)
  show "process_live home2r = {(7, ''g713'')}" "pid_of home2r = (\<lambda>_. 7)"
    by (auto simp: home2r_def respond_section_def Let_def wp home2p_def park_live home2_eq home1_eq blank_ledger_def
        split: sum.split)
qed

lemma home2r_draw: "fresh_id 0 ''ap'' home2r \<noteq> ''ap749''"
proof -
  have "\<not> fault home2p op" for op using home2p_observable by (simp add: observable_def)
  then have "ticks home2r = 5" "clock home2r = of_nat"
    by (simp_all add: home2r_def respond_section_def Let_def wp turn_result_Inr [THEN iffD2] home2p_at)
      (simp_all add: home2p_def park_section_def Let_def wp turn_result_Inr [THEN iffD2] home2_at pending_approval_def,
       simp_all add: home2_eq home1_eq blank_ledger_def fun_eq_iff)
  then show ?thesis
    by (simp add: fresh_id_def home2r_at to_hex_small hex_digit_def char_of_def bit_0)
qed

theorem second_park_loses_decision_witness:
  "wait_decision_loop 0 ''tu724'' ''ap749'' [] (snd (park_section 0 ''tu724'' home2r)) = None"
  using second_park_loses_decision [OF home2r_at(1), of 0 "''ap749''" Decline] home2r_draw
    generation1_held [of _ 0] by (simp add: park_live home2r_at)

end
