(* ===== verification/LedgerNames.thy ===== *)
theory LedgerNames
  imports LedgerOps
begin

text \<open>
  The names the ledger gives: record identifiers (\<open>new_id\<close>), the paths of a home and the file
  names of the client index (\<^verbatim>\<open>crates/core/src/ledger.rs\<close>), and which home it is
  (\<^verbatim>\<open>crates/core/src/home.rs\<close>).
\<close>

section \<open>Identifiers\<close>

lemma to_hex_word_length: "0 < w \<Longrightarrow> LENGTH('a::len) = 4 * w \<Longrightarrow> length (to_hex (unat (x :: 'a word))) \<le> w"
  using unsigned_less [of x, where ?'a = nat] by (intro to_hex_length) (simp_all add: power_mult)

lemma to_hex_id_chars: "list_all id_char (to_hex n)"
  using to_hex_alnum [of n] by (auto simp: list_all_iff id_char_def)

lemma fresh_id_valid:
  assumes "list_all id_char p" "length p \<le> 72"
  shows "valid_id (fresh_id self p s)"
proof -
  have "length (to_hex (unat (pid_of s self))) \<le> 8" "length (to_hex (unat (clock s (ticks s)))) \<le> 32"
    "length (to_hex (unat (id_seq s (pid_of s self)))) \<le> 16"
    by (rule to_hex_word_length; simp)+
  then show ?thesis using assms to_hex_id_chars by (simp add: valid_id_def fresh_id_def)
qed



section \<open>File names of the client index\<close>

definition hex_bytes :: "string \<Rightarrow> string" where
  "hex_bytes i = concat (map (\<lambda>b. hex_pad 2 (byte_of b)) i)"

lemma hex_bytes_length [simp]: "length (hex_bytes i) = 2 * length i"
  by (induction i) (simp_all add: hex_bytes_def)

lemma hex_bytes_inj: "hex_bytes a = hex_bytes b \<longleftrightarrow> a = b"
proof
  show "hex_bytes a = hex_bytes b \<Longrightarrow> a = b"
  proof (induction a arbitrary: b)
    case Nil
    then have "length (hex_bytes []) = length (hex_bytes b)" by (rule arg_cong)
    then show ?case by (simp only: hex_bytes_length) simp
  next
    case (Cons c a)
    have "length (hex_bytes (c # a)) = length (hex_bytes b)" using Cons.prems by (rule arg_cong)
    then obtain d b' where b: "b = d # b'" by (cases b) simp_all
    then have "hex_pad 2 (byte_of c) @ hex_bytes a = hex_pad 2 (byte_of d) @ hex_bytes b'"
      using Cons.prems by (simp add: hex_bytes_def)
    then have "hex_pad 2 (byte_of c) = hex_pad 2 (byte_of d)" "hex_bytes a = hex_bytes b'"
      by (simp_all add: append_eq_append_conv)
    then show ?case using b Cons.IH hex_pad_inj [of "byte_of c" 2 "byte_of d"] byte_of_less [of c] byte_of_less [of d]
      by (simp add: byte_of_inj)
  qed
qed simp

lemma client_filename_alt:
  "client_filename i = (if length i \<le> 100 then hex_bytes i else ''h'' @ hex_pad 16 (unat (fnv1a i)))"
proof -
  have "length (hex_bytes i) \<le> 200 \<longleftrightarrow> length i \<le> 100" by simp
  then show ?thesis unfolding client_filename_def Let_def hex_bytes_def [symmetric] by (simp only:)
qed

lemma hex_digit_not_h: "n < 16 \<Longrightarrow> hex_digit n \<noteq> CHR ''h''"
  using hex_digit_byte [of n] by (auto simp: byte_of_inj [symmetric] byte_of_def split: if_splits)

lemma hex_bytes_no_h: "CHR ''h'' \<notin> set (hex_bytes i)"
proof (induction i)
  case Nil
  then show ?case by (simp add: hex_bytes_def)
next
  case (Cons c i)
  then show ?case using hex_digit_not_h [of "byte_of c mod 16"] hex_digit_not_h [of "byte_of c div 16 mod 16"]
    by (auto simp: hex_bytes_def numeral_2_eq_2)
qed

text \<open>A client request identifier of at most 100 bytes has an index file of its own: no other
  identifier, short or long, is mapped to it. Longer identifiers share the names of a 64-bit
  hash, which the turn record itself disambiguates.\<close>

theorem client_filename_injective:
  assumes "length a \<le> 100" "client_filename a = client_filename b"
  shows "a = b"
proof (cases "length b \<le> 100")
  case True
  then show ?thesis using assms by (simp add: client_filename_alt hex_bytes_inj)
next
  case False
  then have "hex_bytes a = ''h'' @ hex_pad 16 (unat (fnv1a b))" using assms by (simp add: client_filename_alt)
  then have "CHR ''h'' \<in> set (hex_bytes a)" by simp
  then show ?thesis using hex_bytes_no_h by blast
qed

theorem client_filename_injective_witness:
  "{b. client_filename b = ''6b''} = {''k''}"
proof -
  have "b = ''k''" if "client_filename b = ''6b''" for b
    using client_filename_injective [of "''k''" b] client_filename_k that by (simp add: eq_commute)
  then show ?thesis using client_filename_k by blast
qed

section \<open>Paths stay inside the home\<close>

lemma path_join_plain: "home \<noteq> [] \<Longrightarrow> last home \<noteq> CHR ''/'' \<Longrightarrow> \<not> is_absolute x \<Longrightarrow> path_join home x = home @ ''/'' @ x"
  by (simp add: path_join_def)

lemma valid_id_no_slash: "valid_id i \<Longrightarrow> CHR ''/'' \<notin> set i \<and> CHR ''.'' \<notin> set i \<and> i \<noteq> []"
  by (auto simp: valid_id_def list_all_iff id_char_def is_ascii_alphanumeric_def byte_of_def)

lemma valid_id_relative: "valid_id i \<Longrightarrow> \<not> is_absolute (i @ x)"
  using valid_id_no_slash [of i] by (cases i) (auto simp: is_absolute_Cons)

lemma path_join_dir:
  "home \<noteq> [] \<Longrightarrow> last home \<noteq> CHR ''/'' \<Longrightarrow> d \<noteq> [] \<Longrightarrow> hd d \<noteq> CHR ''/'' \<Longrightarrow> last d \<noteq> CHR ''/'' \<Longrightarrow> \<not> is_absolute x \<Longrightarrow>
     path_join (path_join home d) x = home @ ''/'' @ d @ ''/'' @ x"
  by (cases d) (auto simp: path_join_def is_absolute_Cons)

text \<open>For valid identifiers the files of a home are named \<open>home/kind/id.extension\<close>, below the
  home, and different files have different paths.\<close>

theorem record_paths_inside_home:
  assumes "home \<noteq> []" "last home \<noteq> CHR ''/''" "valid_id i"
  shows "thread_path home i = home @ ''/threads/'' @ i @ ''.json'' \<and>
    thread_lock_path home i = home @ ''/threads/'' @ i @ ''.lock'' \<and>
    turn_path home i = home @ ''/turns/'' @ i @ ''.json'' \<and>
    generation_path home i = home @ ''/generations/'' @ i @ ''.json'' \<and>
    generation_lock_path home i = home @ ''/generations/'' @ i @ ''.lock'' \<and>
    generation_live_path home i = home @ ''/generations/'' @ i @ ''.live'' \<and> CHR ''/'' \<notin> set i"
  using assms valid_id_relative [OF assms(3)] valid_id_no_slash [OF assms(3)]
  by (simp add: thread_path_def thread_lock_path_def turn_path_def generation_path_def
      generation_lock_path_def generation_live_path_def path_join_dir)

theorem record_paths_inside_home_witness: "turn_path ''/h'' ''tu724'' = ''/h/turns/tu724.json''"
  using record_paths_inside_home [of "''/h''" "''tu724''"] by simp

section \<open>Which home\<close>

text \<open>The resolved home is absolute; an explicit path wins over the environment, a non-empty
  \<open>GAMCHI_HOME\<close> over the user's home directory, and only then the default below it is taken. A
  relative choice is an error, never replaced by the next one.\<close>

theorem resolve_home_precedence:
  "(\<forall>p. resolve_home explicit env_home user_home = Inr p \<longrightarrow> is_absolute p) \<and>
   (\<forall>x. explicit = Some x \<longrightarrow> resolve_home explicit env_home user_home = require_absolute x ''--home'') \<and>
   (explicit = None \<longrightarrow> (\<forall>x. env_home = Some x \<longrightarrow> x \<noteq> [] \<longrightarrow>
      resolve_home explicit env_home user_home = require_absolute x ENV_HOME)) \<and>
   (explicit = None \<longrightarrow> env_home = None \<or> env_home = Some [] \<longrightarrow> is_absolute user_home \<longrightarrow>
      resolve_home explicit env_home user_home = Inr (path_join user_home DEFAULT_DIR_NAME))"
  by (auto simp: resolve_home_def require_absolute_Inr path_join_absolute split: option.splits if_splits)

theorem resolve_home_precedence_witness:
  "resolve_home None (Some []) ''/u'' = Inr ''/u/.gamchi'' \<and>
   resolve_home (Some ''/x'') (Some ''/y'') ''/u'' = Inr ''/x''"
  using resolve_home_precedence [of None "Some []" "''/u''"] resolve_home_precedence [of "Some ''/x''" "Some ''/y''" "''/u''"]
  by (simp add: require_absolute_def is_absolute_Cons path_join_def DEFAULT_DIR_NAME_def)

end
