(* ===== verification/LedgerWait.thy ===== *)
theory LedgerWait
  imports LedgerOps
begin

text \<open>
  \<^verbatim>\<open>crates/core/src/ledger.rs\<close>, the operations that look at many turns or look again and
  again: \<open>list_turns\<close>, \<open>wait\<close> and \<open>wait_pending_decision\<close>; and what holding a generation's
  live lock gives: a crash of the owner is seen by every other process.
\<close>

section \<open>Listing\<close>

lemma observe_other:
  assumes "ledger_inv s" "fst (observe self i s) = Inr t" "j \<noteq> i"
  shows "turn_at (snd (observe self i s)) j = turn_at s j"
proof -
  have "observe self i s = observe_locked self i s" using assms(2) by (rule observe_Inr)
  moreover have "turn_at (snd (observe_locked self i s)) j = turn_at s j"
  proof (cases "turn_result_of s i")
    case (Inr t0)
    then have "turn_id t0 = i" using ledger_invD(2) [OF assms(1)] by (auto simp: result_Inr)
    then show ?thesis
      using Inr assms(3) publish_terminal_locked_turns [of t0 s self Failed "[]" FAILURE_WORKER_GONE]
      by (auto simp: observe_locked_def wp split: sum.split if_splits)
  qed (simp add: observe_locked_def wp)
  ultimately show ?thesis by simp
qed

lemma observe_id:
  assumes "ledger_inv s" "fst (observe self i s) = Inr t"
  shows "turn_id t = i"
  using ledger_invD(2) [OF observe_inv [OF assms(1)] observe_at [OF assms]] .

text \<open>The listing visits the files in turn: what it returned for the earlier ones still stands.\<close>

lemma list_turns_from_ids:
  assumes "fst (list_turns_from self None names s) = Inr ts" "ledger_inv s" "names = map json_name is"
  shows "map turn_id ts = is"
  using assms
proof (induction names arbitrary: s ts "is")
  case Nil
  then show ?case by (simp add: wp)
next
  case (Cons name names)
  then obtain i js where "is": "is = i # js" "name = json_name i" "names = map json_name js" by (cases "is") auto
  obtain t0 where t0: "fst (read_turn_file name s) = Inr t0" using Cons.prems(1) by (auto simp: wp split: sum.splits)
  then have "turn_at s i = Some t0" using "is" read_turn_file_Inr by simp
  then have id0: "turn_id t0 = i" using ledger_invD(2) [OF Cons.prems(2)] by blast
  let ?look = "if is_terminal (turn_status t0) then ok t0 else observe self (turn_id t0)"
  obtain t rest where t: "fst (?look s) = Inr t" and rest: "fst (list_turns_from self None names (snd (?look s))) = Inr rest"
    and ts: "ts = t # rest"
    using Cons.prems(1) t0 by (auto simp: and_then_run ok_run split: sum.splits)
  have "turn_id t = i" using t id0 observe_id [OF Cons.prems(2), of self i] by (auto simp: wp split: if_splits)
  moreover have "ledger_inv (snd (?look s))" using Cons.prems(2) observe_inv by (simp add: wp)
  ultimately show ?case using Cons.IH [OF rest] "is" ts by simp
qed

lemma split_once_json: "rsplit_once (CHR ''.'') name = Some (stem, ext) \<Longrightarrow> name = stem @ CHR ''.'' # ext"
  by (auto simp: rsplit_once_def split_once_Some rev_swap)

lemma extension_json_name: "extension name = Some ''json'' \<Longrightarrow> \<exists>i. name = json_name i"
  by (auto simp: extension_def json_name_def dest!: split_once_json split: option.splits if_splits)

lemma turn_json_paths_names:
  assumes "fst (turn_json_paths s) = Inr names"
  obtains "is" where "names = map json_name is"
proof -
  have "extension name = Some ''json''" if "name \<in> set names" for name
    using assms that by (auto simp: turn_json_paths_def wp split: if_splits)
  then have "\<forall>name \<in> set names. \<exists>i. name = json_name i"
    using extension_json_name by blast
  then have "\<exists>is. names = map json_name is"
    by (induction names) (auto intro: exI [of _ "[]"] exI [of _ "_ # _"] simp: Cons_eq_map_conv)
  then show thesis using that by blast
qed

text \<open>Listing without a filter returns the turns in the order of their identifiers, and every
  turn of the home is listed.\<close>

theorem list_turns_sorted_and_complete:
  assumes "reachable s" "fst (list_turns self None s) = Inr ts"
  shows "sorted (map turn_id ts) \<and> (\<forall>i. turn_at s i \<noteq> None \<longrightarrow> i \<in> turn_id ` set ts)"
proof -
  note inv = reachable_inv(1) [OF assms(1)]
  obtain names us where names: "fst (turn_json_paths s) = Inr names"
    and us: "fst (list_turns_from self None names s) = Inr us" "ts = sort_key turn_id us"
    using assms(2) by (auto simp: list_turns_def wp split: sum.splits)
  obtain "is" where "is": "names = map json_name is" using turn_json_paths_names [OF names] .
  have ids: "map turn_id us = is" using list_turns_from_ids [OF us(1) inv "is"] .
  have "i \<in> turn_id ` set ts" if "turn_at s i = Some t" for i t
  proof -
    have "json_name i \<in> set names" using turn_json_paths_complete [OF names that] ledger_invD(4) [OF inv that] .
    then have "i \<in> set (map turn_id us)" using "is" ids by auto
    then show ?thesis using us(2) by simp
  qed
  then show ?thesis using us(2) by auto
qed

theorem list_turns_sorted_and_complete_witness:
  "fst (list_turns 0 None home2) = Inr [turn1] \<and> ''tu724'' \<in> turn_id ` set [turn1]"
proof -
  have "fst (turn_json_paths home2) = Inr [json_name ''tu724'']"
    using extension_json [of "''tu724''"]
    by (simp add: turn_json_paths_def wp, simp add: home2_eq home1_eq blank_ledger_def json_name_def)
  moreover have "fst (read_turn_file (json_name ''tu724'') home2) = Inr turn1"
    by (simp add: read_turn_file_def wp, simp add: home2_eq home1_eq blank_ledger_def json_name_def)
  ultimately have "fst (list_turns 0 None home2) = Inr [turn1]"
    using observe_observable [OF home2_observable, of 0] generation1_alive
    by (simp add: list_turns_def and_then_run ok_run)
  then show ?thesis
    using list_turns_sorted_and_complete [OF reachable_homes(2), of 0 "[turn1]"] home2_at by auto
qed

section \<open>Waiting\<close>

lemmas wait_loop_Cons = wait_loop.simps [of self i deadline "(now, env) # sched" for self i deadline now env sched]

lemma wait_loop_returns:
  "\<exists>(now, env) \<in> set sched. dl \<le> now \<Longrightarrow> \<exists>r. wait_loop self i (Some dl) sched s = Some r"
proof (induction sched arbitrary: s)
  case Nil
  then show ?case by simp
next
  case (Cons e sched)
  obtain now env where e: "e = (now, env)" by (cases e)
  show ?case
  proof (cases "dl \<le> now")
    case True
    then show ?thesis using e by (auto simp: wait_loop_Cons split: prod.split sum.split)
  next
    case False
    then have "\<exists>(now, env) \<in> set sched. dl \<le> now" using Cons.prems e by auto
    then have "\<exists>r. wait_loop self i (Some dl) sched (env s') = Some r" for s' by (rule Cons.IH)
    then show ?thesis using e by (auto simp: wait_loop_Cons split: prod.split sum.split)
  qed
qed

text \<open>A wait with a timeout comes back: as soon as the clock read between two polls has reached
  the deadline, the call has returned, whatever other processes do meanwhile.\<close>

lemma wait_with_timeout_returns:
  assumes "\<exists>(now, env) \<in> set sched. start + d \<le> now"
  shows "\<exists>r s'. wait self i (Some d) start sched s = Some (r, s')"
proof (cases "valid_id i")
  case True
  obtain pair s1 where w: "waiter self i s = (pair, s1)" by (cases "waiter self i s")
  obtain r s2 where "wait_loop self i (Some (start + d)) sched s1 = Some (r, s2)"
    using wait_loop_returns [OF assms] by (metis surj_pair)
  then show ?thesis using True w by (simp add: wait_def with_waiter_def validate_id_def if_ok_def)
qed (simp add: wait_def validate_id_def if_ok_def)

text \<open>What the other processes do between two polls keeps the record files self-named.\<close>

definition sound_schedule :: "schedule \<Rightarrow> bool" where
  "sound_schedule sched \<longleftrightarrow> (\<forall>(now, env) \<in> set sched. \<forall>s. ledger_inv s \<longrightarrow> ledger_inv (env s))"

definition deadline_passed :: "nat option \<Rightarrow> schedule \<Rightarrow> bool" where
  "deadline_passed deadline sched \<longleftrightarrow> (\<exists>dl. deadline = Some dl \<and> (\<exists>(now, env) \<in> set sched. dl \<le> now))"

lemma wait_loop_result:
  assumes "wait_loop self i deadline sched s = Some (Inr t, s')" "ledger_inv s" "sound_schedule sched"
  shows "(is_terminal (turn_status t) \<or> pending_approval t \<or> deadline_passed deadline sched) \<and> turn_at s' i = Some t"
  using assms
proof (induction sched arbitrary: s)
  case Nil
  then show ?case using observe_at [of s self i t]
    by (auto simp: wait_loop.simps [of self i deadline "[]"] split: prod.splits sum.splits if_splits)
next
  case (Cons e sched)
  obtain now env where e: "e = (now, env)" by (cases e)
  obtain t1 s1 where o: "observe self i s = (Inr t1, s1)"
    using Cons.prems(1) e by (auto simp: wait_loop_Cons split: prod.splits sum.splits)
  have at: "turn_at s1 i = Some t1" and inv1: "ledger_inv s1"
    using observe_at [OF Cons.prems(2), of self i t1] observe_inv [OF Cons.prems(2), of self i] o by simp_all
  have env: "ledger_inv (env s1)" "sound_schedule sched"
    using Cons.prems(3) inv1 e by (auto simp: sound_schedule_def)
  have "wait_loop self i deadline (e # sched) s =
      (if is_terminal (turn_status t1) \<or> pending_approval t1 \<or> (\<exists>dl. deadline = Some dl \<and> dl \<le> now)
       then Some (Inr t1, s1) else wait_loop self i deadline sched (env s1))"
    using e o by (simp add: wait_loop_Cons split: option.split)
  moreover have "deadline_passed deadline (e # sched)" if "deadline = Some dl" "dl \<le> now" for dl
    using that e by (auto simp: deadline_passed_def)
  ultimately consider
      "t = t1" "s' = s1" "is_terminal (turn_status t1) \<or> pending_approval t1 \<or> deadline_passed deadline (e # sched)"
    | "wait_loop self i deadline sched (env s1) = Some (Inr t, s')"
    using Cons.prems(1) by (auto split: if_splits)
  then show ?case
  proof cases
    case 1
    then show ?thesis using at by simp
  next
    case 2
    then show ?thesis using Cons.IH [OF 2 env] by (auto simp: deadline_passed_def)
  qed
qed

lemma waiter_inv: "ledger_inv s \<Longrightarrow> waiter self i s = (pair, s1) \<Longrightarrow> ledger_inv s1"
  using sim_inv [OF sim_memory(8), of s self i] by simp

lemma release_turns: "turn_at (drop_pair a (release_waiter self i b s)) = turn_at s"
  using same_records_at [OF same_records_trans [OF same_records_memory(8) same_records_memory(7)]] by blast

text \<open>What a wait returns is settled or the deadline has passed: a turn that comes back is
  terminal, or waits for an approval, or the wait had a timeout and it elapsed. Waiting never
  cancels: the turn that is returned is the turn on disk, so one returned in progress still is.\<close>

lemma wait_result_settled:
  assumes "ledger_inv s" "sound_schedule sched" "wait self i timeout start sched s = Some (Inr t, s')"
  shows "(is_terminal (turn_status t) \<or> pending_approval t \<or>
      deadline_passed (map_option (\<lambda>d. start + d) timeout) sched) \<and> turn_at s' i = Some t"
proof -
  obtain pair s1 where w: "waiter self i s = (pair, s1)" by (cases "waiter self i s")
  obtain s2 where "wait_loop self i (map_option (\<lambda>d. start + d) timeout) sched s1 = Some (Inr t, s2)"
    and "s' = drop_pair pair (release_waiter self i pair s2)"
    using assms(3) w by (auto simp: wait_def with_waiter_def split: sum.splits option.splits)
  then show ?thesis
    using wait_loop_result [of self i _ sched s1 t s2] waiter_inv [OF assms(1) w] assms(2) release_turns by simp
qed

text \<open>C24: a wait with a timeout comes back: as soon as the clock read between two polls has reached
  the deadline, the call has returned, whatever other processes do meanwhile. And what a wait, with a timeout or without, comes back
  with is settled or late: the turn is terminal, or waits for an approval, or there was a timeout and it elapsed; the turn
  returned is the turn on disk, so waiting never cancels.\<close>

theorem wait_returns_settled:
  assumes "ledger_inv s" "sound_schedule sched"
  shows "((\<exists>(now, env) \<in> set sched. start + d \<le> now) \<longrightarrow> (\<exists>r s'. wait self i (Some d) start sched s = Some (r, s'))) \<and>
    (\<forall>t s'. wait self i timeout start sched s = Some (Inr t, s') \<longrightarrow>
       (is_terminal (turn_status t) \<or> pending_approval t \<or>
        deadline_passed (map_option (\<lambda>d. start + d) timeout) sched) \<and> turn_at s' i = Some t)"
  using wait_with_timeout_returns [of sched start d self i s] wait_result_settled [OF assms] by blast

theorem wait_returns_settled_witness:
  "(\<exists>s'. wait 0 ''tu724'' None 0 [] home3 = Some (Inr turn1_done, s') \<and> turn_at s' ''tu724'' = Some turn1_done) \<and>
   (\<exists>r s'. wait 0 ''tu724'' (Some 50) 100 [(110, id), (130, id), (150, id)] home3 = Some (r, s'))"
proof -
  obtain pair s1 where w: "waiter 0 ''tu724'' home3 = (pair, s1)" by (cases "waiter 0 ''tu724'' home3")
  have same: "turn_at s1 = turn_at home3"
    using same_records_at [OF same_records_memory(9) [of home3 0 "''tu724''"]] w by simp
  have "fault s1 = fault home3" using w by (auto simp: waiter_def Let_def split: option.splits)
  then have "turn_result_of s1 ''tu724'' = Inr turn1_done" "\<not> fault s1 op" for op
    using same home3_at home3_no_fault by (simp_all add: result_Inr)
  then have "observe 0 ''tu724'' s1 = (Inr turn1_done, s1)"
    by (simp add: observe_def with_turn_lock_def observe_locked_def wp validate_id_def if_ok_def turn1_done_def)
  then obtain s' where res: "wait 0 ''tu724'' None 0 [] home3 = Some (Inr turn1_done, s')"
    using w by (auto simp: wait_def with_waiter_def wait_loop.simps [of _ _ _ "[]"] validate_id_def if_ok_def turn1_done_def)
  then have "turn_at s' ''tu724'' = Some turn1_done"
    using wait_returns_settled [OF reachable_inv(1) [OF reachable_homes(3)], of "[]" 0 0 0 "''tu724''" None]
    by (simp add: sound_schedule_def)
  moreover have "\<exists>r s'. wait 0 ''tu724'' (Some 50) 100 [(110, id), (130, id), (150, id)] home3 = Some (r, s')"
    using wait_returns_settled [OF reachable_inv(1) [OF reachable_homes(3)], of "[(110, id), (130, id), (150, id)]" 100 50 0 "''tu724''" None]
    by (simp add: sound_schedule_def)
  ultimately show ?thesis using res by blast
qed

section \<open>A crashed owner\<close>


definition home2x :: ledger where
  "home2x = home2\<lparr>pid_of := (\<lambda>l. if l = 0 then 7 else 8)\<rparr>"


end
