(* ===== verification/Launch.thy ===== *)
theory Launch
  imports SourceWire Home
begin

text \<open>
  \<^verbatim>\<open>crates/adapter-grok/src/defaults.rs\<close> and \<^verbatim>\<open>launch.rs\<close>: which model and effort a
  turn runs with, and the command line of the agent. The texts of configuration errors are
  constructors that hold what the message is made of.
\<close>

section \<open>Model and effort\<close>

definition BUILTIN_MODEL :: string where "BUILTIN_MODEL = ''grok-4.6''"
definition BUILTIN_EFFORT :: string where "BUILTIN_EFFORT = ''high''"
definition GROK_ALIAS :: string where "GROK_ALIAS = ''grok''"
definition KEY_MODEL :: string where "KEY_MODEL = ''default_model''"
definition KEY_EFFORT :: string where "KEY_EFFORT = ''default_effort''"

record home_defaults =
  default_model :: "string option"
  default_effort :: "string option"

definition no_defaults :: home_defaults where
  "no_defaults = \<lparr>default_model = None, default_effort = None\<rparr>"

datatype config_reason =
    CannotRead
  | MalformedLine nat
  | DuplicateKey string
  | UnknownKey string
  | BlankField

datatype resolve_error = InvalidConfig config_reason | ModelMismatch string string

definition tab :: char where
  "tab = CHR 0x09"

text \<open>Byte 0x22 is the double quote, 0x27 the single one.\<close>

definition unquote :: "string \<Rightarrow> string" where
  "unquote v =
     (if length v \<ge> 2 \<and> ((hd v = CHR 0x22 \<and> last v = CHR 0x22) \<or> (hd v = CHR 0x27 \<and> last v = CHR 0x27))
      then butlast (tl v) else v)"

fun parse_default_lines ::
  "nat \<Rightarrow> string list \<Rightarrow> home_defaults \<Rightarrow> string list \<Rightarrow> resolve_error + home_defaults" where
  "parse_default_lines idx seen d [] = Inr d"
| "parse_default_lines idx seen d (line # rest) =
     (let trimmed = trim line in
      if trimmed = [] \<or> starts_with trimmed ''#'' \<or> trimmed = ''---''
      then parse_default_lines (Suc idx) seen d rest
      else if starts_with line '' '' \<or> starts_with line [tab] \<or> starts_with trimmed ''-''
      then Inl (InvalidConfig (MalformedLine (idx + 1)))
      else case split_once (CHR '':'') trimmed of
        None \<Rightarrow> Inl (InvalidConfig (MalformedLine (idx + 1)))
      | Some (key0, value0) \<Rightarrow>
          (let key = trim key0 in
           if key \<in> set seen then Inl (InvalidConfig (DuplicateKey key))
           else
             (let value = unquote (trim value0) in
              if key = KEY_MODEL
              then parse_default_lines (Suc idx) (key # seen) (d\<lparr>default_model := Some value\<rparr>) rest
              else if key = KEY_EFFORT
              then parse_default_lines (Suc idx) (key # seen) (d\<lparr>default_effort := Some value\<rparr>) rest
              else Inl (InvalidConfig (UnknownKey key)))))"

definition parse_home_defaults :: "string \<Rightarrow> resolve_error + home_defaults" where
  "parse_home_defaults raw = parse_default_lines 0 [] no_defaults (lines raw)"

text \<open>
  \<open>file\<close> is the outcome of reading \<^verbatim>\<open>config.yaml\<close>: its body, \<open>Inl True\<close> when there is no such
  file, \<open>Inl False\<close> for every other error.
\<close>

definition load_home_defaults :: "bool + string \<Rightarrow> resolve_error + home_defaults" where
  "load_home_defaults file =
     (case file of
        Inr raw \<Rightarrow> parse_home_defaults raw
      | Inl not_found \<Rightarrow> if not_found then Inr no_defaults else Inl (InvalidConfig CannotRead))"

definition present_field :: "string \<Rightarrow> string option" where
  "present_field raw = (if raw = [] then None else Some raw)"

definition normalize_present :: "string \<Rightarrow> resolve_error + string" where
  "normalize_present raw =
     (if trim raw = [] then Inl (InvalidConfig BlankField)
      else if trim raw = GROK_ALIAS then Inr BUILTIN_MODEL
      else Inr (trim raw))"

definition resolve_layer :: "string option \<Rightarrow> string option \<Rightarrow> string \<Rightarrow> resolve_error + string" where
  "resolve_layer explicit config builtin =
     (case explicit of
        Some v \<Rightarrow> normalize_present v
      | None \<Rightarrow> (case config of Some v \<Rightarrow> normalize_present v | None \<Rightarrow> Inr builtin))"

definition resolve_first_turn :: "string \<Rightarrow> string \<Rightarrow> home_defaults \<Rightarrow> resolve_error + (string \<times> string)" where
  "resolve_first_turn model effort d =
     (case resolve_layer (present_field model) (default_model d) BUILTIN_MODEL of
        Inl e \<Rightarrow> Inl e
      | Inr m \<Rightarrow>
          (case resolve_layer (present_field effort) (default_effort d) BUILTIN_EFFORT of
             Inl e \<Rightarrow> Inl e
           | Inr f \<Rightarrow> Inr (m, f)))"

definition follow_up_model :: "string \<Rightarrow> string \<Rightarrow> resolve_error + string" where
  "follow_up_model requested frozen =
     (case present_field requested of
        None \<Rightarrow> Inr frozen
      | Some r \<Rightarrow>
          (case normalize_present r of
             Inl e \<Rightarrow> Inl e
           | Inr r' \<Rightarrow> if r' \<noteq> frozen then Inl (ModelMismatch r' frozen) else Inr r'))"

definition follow_up_effort :: "string \<Rightarrow> string \<Rightarrow> home_defaults \<Rightarrow> resolve_error + string" where
  "follow_up_effort requested previous d =
     (case present_field requested of
        Some r \<Rightarrow> normalize_present r
      | None \<Rightarrow>
          if previous \<noteq> [] then Inr previous
          else resolve_layer None (default_effort d) BUILTIN_EFFORT)"

definition resolve_follow_up ::
  "string \<Rightarrow> string \<Rightarrow> string \<Rightarrow> string \<Rightarrow> home_defaults \<Rightarrow> resolve_error + (string \<times> string)" where
  "resolve_follow_up requested_model requested_effort frozen_model previous_effort d =
     (case normalize_present frozen_model of
        Inl e \<Rightarrow> Inl e
      | Inr frozen \<Rightarrow>
          (case follow_up_model requested_model frozen of
             Inl e \<Rightarrow> Inl e
           | Inr m \<Rightarrow>
               (case follow_up_effort requested_effort previous_effort d of
                  Inl e \<Rightarrow> Inl e
                | Inr f \<Rightarrow> Inr (m, f))))"

section \<open>The command line\<close>

definition UNENFORCEABLE_EXTRA_FIELD_NAMES :: "string list" where
  "UNENFORCEABLE_EXTRA_FIELD_NAMES = [''writableRoots'', ''networkAccess'', ''excludeSlashTmp'', ''excludeTmpdirEnvVar'']"

record extra_spawn_fields =
  writable_roots :: "string list option"
  network_access :: "bool option"
  exclude_slash_tmp :: "bool option"
  exclude_tmpdir_env_var :: "bool option"

definition first_set :: "extra_spawn_fields \<Rightarrow> string option" where
  "first_set x =
     (if writable_roots x \<noteq> None then Some (UNENFORCEABLE_EXTRA_FIELD_NAMES ! 0)
      else if network_access x \<noteq> None then Some (UNENFORCEABLE_EXTRA_FIELD_NAMES ! 1)
      else if exclude_slash_tmp x \<noteq> None then Some (UNENFORCEABLE_EXTRA_FIELD_NAMES ! 2)
      else if exclude_tmpdir_env_var x \<noteq> None then Some (UNENFORCEABLE_EXTRA_FIELD_NAMES ! 3)
      else None)"

record launch_request =
  req_program :: string
  req_cwd :: string
  req_approval :: approval_policy
  req_sandbox :: thread_sandbox
  req_extra :: extra_spawn_fields
  req_model :: string
  req_effort :: string

record launch_plan =
  plan_program :: string
  plan_args :: "string list"

datatype launch_error = Unenforceable string string | LaunchInvalidConfig resolve_error

definition launch_error_of :: "resolve_error \<Rightarrow> launch_error" where
  "launch_error_of e = LaunchInvalidConfig e"

definition always_approve :: "approval_policy \<Rightarrow> bool" where
  "always_approve p = (case p of Never \<Rightarrow> True | Untrusted \<Rightarrow> False | OnRequest \<Rightarrow> False)"

definition launch_args :: "launch_request \<Rightarrow> string list" where
  "launch_args req =
     [''--cwd'', req_cwd req, ''--sandbox'', ''workspace'']
     @ (if \<not> always_approve (req_approval req) then [''--permission-mode'', ''default''] else [])
     @ [''agent'', ''--no-leader'']
     @ (if always_approve (req_approval req) then [''--always-approve''] else [])
     @ [''-m'', req_model req, ''--reasoning-effort'', req_effort req]
     @ [''stdio'']"

definition plan_launch :: "launch_request \<Rightarrow> launch_error + launch_plan" where
  "plan_launch req =
     (case first_set (req_extra req) of
        Some field \<Rightarrow> Inl (Unenforceable field ''adapter cannot implement this subset field'')
      | None \<Rightarrow>
          (case req_sandbox req of
             ReadOnly \<Rightarrow> Inl (Unenforceable ''sandbox'' ''no verified Grok profile that denies workspace writes'')
           | WorkspaceWrite \<Rightarrow>
               if \<not> is_absolute (req_cwd req)
               then Inl (Unenforceable ''cwd'' ''cwd must be an absolute path'')
               else Inr \<lparr>plan_program = req_program req, plan_args = launch_args req\<rparr>))"

section \<open>Properties\<close>

lemma first_set_None:
  "first_set x = None \<longleftrightarrow>
     writable_roots x = None \<and> network_access x = None \<and> exclude_slash_tmp x = None \<and> exclude_tmpdir_env_var x = None"
  by (auto simp: first_set_def)

text \<open>C12: the agent is started only when every restriction the caller asked for can be enforced: no
  extra field is set, the sandbox is \<open>workspace-write\<close> and the working directory is absolute.
  Then the sandbox is on the command line before the \<open>agent\<close> subcommand, and the agent may act
  without asking exactly when the approval policy is \<open>never\<close>, for model, effort and directory
  that are not themselves that flag.\<close>

theorem launch_fails_closed:
  "(\<exists>p. plan_launch req = Inr p) =
     (writable_roots (req_extra req) = None \<and> network_access (req_extra req) = None \<and>
      exclude_slash_tmp (req_extra req) = None \<and> exclude_tmpdir_env_var (req_extra req) = None \<and>
      req_sandbox req = WorkspaceWrite \<and> is_absolute (req_cwd req)) \<and>
   (\<forall>p. plan_launch req = Inr p \<longrightarrow>
      take 4 (plan_args p) = [''--cwd'', req_cwd req, ''--sandbox'', ''workspace''] \<and>
      (''--always-approve'' \<notin> {req_cwd req, req_model req, req_effort req} \<longrightarrow>
        (''--always-approve'' \<in> set (plan_args p) \<longleftrightarrow> req_approval req = Never)))"
proof -
  have "(\<exists>p. plan_launch req = Inr p) \<longleftrightarrow>
      first_set (req_extra req) = None \<and> req_sandbox req = WorkspaceWrite \<and> is_absolute (req_cwd req)"
    by (auto simp: plan_launch_def split: option.splits thread_sandbox.splits)
  moreover have "plan_args p = launch_args req" if "plan_launch req = Inr p" for p
    using that by (auto simp: plan_launch_def split: option.splits thread_sandbox.splits if_splits)
  ultimately show ?thesis
    by (auto simp: first_set_None launch_args_def always_approve_def split: approval_policy.splits)
qed

definition example_launch :: launch_request where
  "example_launch =
     \<lparr>req_program = ''grok'', req_cwd = ''/w'', req_approval = OnRequest, req_sandbox = WorkspaceWrite,
      req_extra = \<lparr>writable_roots = None, network_access = None, exclude_slash_tmp = None, exclude_tmpdir_env_var = None\<rparr>,
      req_model = ''grok-4.6'', req_effort = ''high''\<rparr>"

theorem launch_fails_closed_witness:
  "\<exists>p. plan_launch example_launch = Inr p \<and> ''--always-approve'' \<notin> set (plan_args p)"
proof -
  obtain p where "plan_launch example_launch = Inr p"
    using launch_fails_closed [of example_launch] by (auto simp: example_launch_def is_absolute_Cons)
  then show ?thesis using launch_fails_closed [of example_launch] by (auto simp: example_launch_def)
qed

text \<open>A follow-up turn runs with the model its thread was created with. Whatever is requested,
  a successful resolution returns the thread's model in normal form, and a request for another
  one is refused as a mismatch.\<close>

theorem follow_up_freezes_model:
  assumes "normalize_present frozen_model = Inr frozen"
  shows "(\<forall>m e. resolve_follow_up rm re frozen_model pe d = Inr (m, e) \<longrightarrow> m = frozen) \<and>
    (\<forall>r. rm \<noteq> [] \<longrightarrow> normalize_present rm = Inr r \<longrightarrow> r \<noteq> frozen \<longrightarrow>
       resolve_follow_up rm re frozen_model pe d = Inl (ModelMismatch r frozen))"
  using assms
  by (auto simp: resolve_follow_up_def follow_up_model_def present_field_def split: sum.splits if_splits)

lemma trim_example: "trim ''grok'' = ''grok''" "trim ''other'' = ''other''"
  by (simp_all add: trim_def is_continuation_def byte_of_def is_whitespace_def)

theorem follow_up_freezes_model_witness:
  "resolve_follow_up ''other'' [] ''grok'' [] no_defaults = Inl (ModelMismatch ''other'' ''grok-4.6'')"
  using follow_up_freezes_model [of "''grok''" "''grok-4.6''" "''other''" "[]" "[]" no_defaults]
  by (simp add: normalize_present_def trim_example GROK_ALIAS_def BUILTIN_MODEL_def)

lemma normalize_present_Inr: "normalize_present raw = Inr v \<Longrightarrow> v \<noteq> [] \<and> v \<noteq> GROK_ALIAS"
  by (auto simp: normalize_present_def BUILTIN_MODEL_def GROK_ALIAS_def split: if_splits)

lemma resolve_layer_Inr: "resolve_layer a b builtin = Inr v \<Longrightarrow> builtin \<notin> {[], GROK_ALIAS} \<Longrightarrow> v \<noteq> [] \<and> v \<noteq> GROK_ALIAS"
  by (auto simp: resolve_layer_def dest: normalize_present_Inr split: option.splits)

text \<open>A resolved model and effort are never empty, and the alias \<open>grok\<close> never survives; a field
  that was sent decides alone, a blank one being an error instead of falling back to the next
  layer.\<close>

theorem first_turn_resolution:
  assumes "resolve_first_turn model effort d = Inr (m, e)"
  shows "m \<noteq> [] \<and> m \<noteq> GROK_ALIAS \<and> e \<noteq> [] \<and>
    (model \<noteq> [] \<longrightarrow> normalize_present model = Inr m) \<and>
    (model = [] \<longrightarrow> default_model d = None \<longrightarrow> m = BUILTIN_MODEL) \<and>
    (effort \<noteq> [] \<longrightarrow> normalize_present effort = Inr e) \<and>
    (effort = [] \<longrightarrow> default_effort d = None \<longrightarrow> e = BUILTIN_EFFORT)"
  using assms resolve_layer_Inr [of "present_field model" "default_model d" BUILTIN_MODEL m]
    resolve_layer_Inr [of "present_field effort" "default_effort d" BUILTIN_EFFORT e]
  by (auto simp: resolve_first_turn_def resolve_layer_def present_field_def BUILTIN_MODEL_def BUILTIN_EFFORT_def
      GROK_ALIAS_def split: sum.splits option.splits)

theorem first_turn_resolution_witness:
  "resolve_first_turn ''grok'' [] no_defaults = Inr (''grok-4.6'', ''high'') \<and> ''grok-4.6'' \<noteq> GROK_ALIAS"
proof -
  have "resolve_first_turn ''grok'' [] no_defaults = Inr (''grok-4.6'', ''high'')"
    by (simp add: resolve_first_turn_def resolve_layer_def present_field_def normalize_present_def trim_example
        GROK_ALIAS_def BUILTIN_MODEL_def BUILTIN_EFFORT_def no_defaults_def)
  then show ?thesis using first_turn_resolution by blast
qed

section \<open>The configuration file\<close>

definition config_line :: "string \<Rightarrow> bool" where
  "config_line line \<longleftrightarrow> \<not> (trim line = [] \<or> starts_with (trim line) ''#'' \<or> trim line = ''---'')"

definition line_key :: "string \<Rightarrow> string option" where
  "line_key line = map_option (\<lambda>(k, v). trim k) (split_once (CHR '':'') (trim line))"

lemma parse_default_lines_keys:
  "parse_default_lines idx seen d ls = Inr d' \<Longrightarrow>
     (\<forall>line \<in> set (filter config_line ls). line_key line \<in> {Some KEY_MODEL, Some KEY_EFFORT}) \<and>
     distinct (map line_key (filter config_line ls)) \<and>
     Some ` set seen \<inter> line_key ` set (filter config_line ls) = {} \<and>
     (default_model d' \<noteq> default_model d \<longrightarrow> Some KEY_MODEL \<in> line_key ` set (filter config_line ls)) \<and>
     (default_effort d' \<noteq> default_effort d \<longrightarrow> Some KEY_EFFORT \<in> line_key ` set (filter config_line ls))"
proof (induction idx seen d ls rule: parse_default_lines.induct)
  case (2 idx seen d line rest)
  show ?case
  proof (cases "config_line line")
    case False
    then have skip: "trim line = [] \<or> starts_with (trim line) ''#'' \<or> trim line = ''---''" by (simp add: config_line_def)
    then have "parse_default_lines (Suc idx) seen d rest = Inr d'" using "2.prems" by (auto simp: Let_def)
    then show ?thesis using "2.IH"(1) [OF refl skip] False by simp
  next
    case True
    then have keep: "\<not> (trim line = [] \<or> starts_with (trim line) ''#'' \<or> trim line = ''---'')" by (simp add: config_line_def)
    then obtain key0 value0 where sp: "split_once (CHR '':'') (trim line) = Some (key0, value0)"
      and good: "\<not> (starts_with line '' '' \<or> starts_with line [tab] \<or> starts_with (trim line) ''-'')"
      and fresh: "trim key0 \<notin> set seen" and known: "trim key0 = KEY_MODEL \<or> trim key0 = KEY_EFFORT"
      using "2.prems" by (auto simp: Let_def split: if_splits option.splits)
    have key: "line_key line = Some (trim key0)" using sp by (simp add: line_key_def)
    have neq: "KEY_MODEL \<noteq> KEY_EFFORT" by (simp add: KEY_MODEL_def KEY_EFFORT_def)
    show ?thesis
    proof (cases "trim key0 = KEY_MODEL")
      case True
      have step: "parse_default_lines (Suc idx) (trim key0 # seen) (d\<lparr>default_model := Some (unquote (trim value0))\<rparr>) rest = Inr d'"
        using "2.prems" keep good sp fresh True by (simp add: Let_def)
      show ?thesis
        using "2.IH"(2) [OF refl keep good sp refl refl fresh refl True step] \<open>config_line line\<close> key known fresh True by auto
    next
      case False
      with known have eff: "trim key0 = KEY_EFFORT" by simp
      have step: "parse_default_lines (Suc idx) (trim key0 # seen) (d\<lparr>default_effort := Some (unquote (trim value0))\<rparr>) rest = Inr d'"
        using "2.prems" keep good sp fresh False eff by (simp add: Let_def)
      show ?thesis
        using "2.IH"(3) [OF refl keep good sp refl refl fresh refl False eff step] \<open>config_line line\<close> key known fresh eff by auto
    qed
  qed
qed simp

text \<open>A configuration file is accepted only if every line that is neither blank nor a comment
  sets one of the two known keys, and none of them twice.\<close>

theorem config_keys_closed:
  assumes "parse_home_defaults raw = Inr d"
  shows "set (map line_key (filter config_line (lines raw))) \<subseteq> {Some KEY_MODEL, Some KEY_EFFORT} \<and>
    distinct (map line_key (filter config_line (lines raw)))"
  using parse_default_lines_keys [OF assms [unfolded parse_home_defaults_def]] by auto

theorem config_keys_closed_witness:
  "parse_home_defaults ''default_model: m1'' = Inr \<lparr>default_model = Some ''m1'', default_effort = None\<rparr> \<and>
     distinct (map line_key (filter config_line (lines ''default_model: m1'')))"
proof -
  have "parse_home_defaults ''default_model: m1'' = Inr \<lparr>default_model = Some ''m1'', default_effort = None\<rparr>"
    by (simp add: parse_home_defaults_def lines_def newline_def Let_def trim_def is_continuation_def byte_of_def
        is_whitespace_def starts_with_def unquote_def KEY_MODEL_def no_defaults_def tab_def)
  then show ?thesis using config_keys_closed by blast
qed

end
