(* ===== verification/Teardown.thy ===== *)
theory Teardown
  imports Prelude
begin

text \<open>
  \<^verbatim>\<open>crates/adapter-grok/src/teardown.rs\<close>: the table of live child processes and how their
  process groups are killed. The state holds the atomics of the module, the log of the signals
  that were sent, the clock in milliseconds and what the operating system answers about a
  process at a given instant. Time passes in the sleeps, which may last longer than asked for.
\<close>

datatype signal = SIGTERM | SIGKILL

datatype target = Group u32 | Leader u32

definition MAX_LIVE :: nat where
  "MAX_LIVE = 64"

record os_state =
  live_pids :: "u32 list"
  is_shutting_down :: bool
  spawns_open :: u32
  sent :: "(target \<times> signal) list"
  now :: nat
  overslept :: "nat \<Rightarrow> nat"
  waitpid_rc :: "nat \<Rightarrow> u32 \<Rightarrow> int"
  kill0_errno :: "nat \<Rightarrow> u32 \<Rightarrow> int option"

definition ESRCH :: int where
  "ESRCH = 3"

definition pid_alive :: "os_state \<Rightarrow> u32 \<Rightarrow> bool" where
  "pid_alive s pid =
     (let rc = waitpid_rc s (now s) pid in
      if rc > 0 then False
      else if rc = 0 then True
      else case kill0_errno s (now s) pid of
        None \<Rightarrow> True
      | Some errno \<Rightarrow> errno \<noteq> ESRCH)"

definition sleep_ms :: "nat \<Rightarrow> os_state \<Rightarrow> os_state" where
  "sleep_ms n s = s\<lparr>now := now s + n + overslept s (now s)\<rparr>"

definition send :: "u32 \<Rightarrow> signal \<Rightarrow> os_state \<Rightarrow> os_state" where
  "send pid sg s = s\<lparr>sent := sent s @ [(Group pid, sg), (Leader pid, sg)]\<rparr>"

text \<open>Poll every 20 ms until the leader is gone (\<open>True\<close>) or the deadline has passed.\<close>

function poll_gone :: "nat \<Rightarrow> u32 \<Rightarrow> os_state \<Rightarrow> bool \<times> os_state" where
  "poll_gone deadline pid s =
     (if now s < deadline then
        if \<not> pid_alive s pid then (True, s)
        else poll_gone deadline pid (sleep_ms 20 s)
      else (False, s))"
  by pat_completeness auto
termination
  by (relation "measure (\<lambda>(deadline, pid, s). deadline - now s)") (auto simp: sleep_ms_def)

declare poll_gone.simps [simp del]

definition teardown_process_group :: "u32 \<Rightarrow> os_state \<Rightarrow> os_state" where
  "teardown_process_group pid s =
     (if pid = 0 then s
      else
        let s1 = send pid SIGTERM s;
            (leader_gone, s2) = poll_gone (now s1 + 2000) pid s1;
            s3 = send pid SIGKILL s2 in
        if leader_gone then s3 else snd (poll_gone (now s3 + 500) pid s3))"

section \<open>The table\<close>

fun put_first_free :: "u32 \<Rightarrow> u32 list \<Rightarrow> u32 list option" where
  "put_first_free pid [] = None"
| "put_first_free pid (p # ps) =
     (if p = 0 then Some (pid # ps) else map_option ((#) p) (put_first_free pid ps))"

definition register_child_pid :: "u32 \<Rightarrow> os_state \<Rightarrow> bool \<times> os_state" where
  "register_child_pid pid s =
     (if pid = 0 then (True, s)
      else case put_first_free pid (live_pids s) of
        Some ps \<Rightarrow> (True, s\<lparr>live_pids := ps\<rparr>)
      | None \<Rightarrow> (False, s))"

definition unregister_child_pid :: "u32 \<Rightarrow> os_state \<Rightarrow> os_state" where
  "unregister_child_pid pid s =
     (if pid = 0 then s else s\<lparr>live_pids := map (\<lambda>p. if p = pid then 0 else p) (live_pids s)\<rparr>)"

definition teardown_slot :: "nat \<Rightarrow> os_state \<Rightarrow> os_state" where
  "teardown_slot i s =
     (let pid = live_pids s ! i; s' = s\<lparr>live_pids := (live_pids s)[i := 0]\<rparr> in
      if pid \<noteq> 0 then teardown_process_group pid s' else s')"

definition teardown_registered_children :: "os_state \<Rightarrow> os_state" where
  "teardown_registered_children s = fold teardown_slot [0..<length (live_pids s)] s"

datatype track_error = LiveTableFull

text \<open>\<open>Ok\<close> is the \<open>ChildReap\<close> of the pid; \<open>drop_child_reap\<close> is its destructor.\<close>

definition track_child :: "u32 \<Rightarrow> (os_state, track_error, u32) action" where
  "track_child pid s =
     (if pid = 0 then ok 0 s
      else
        let (registered, s') = register_child_pid pid s in
        if \<not> registered then err LiveTableFull (teardown_process_group pid s') else ok pid s')"

definition drop_child_reap :: "u32 \<Rightarrow> os_state \<Rightarrow> os_state" where
  "drop_child_reap pid s = unregister_child_pid pid (teardown_process_group pid s)"

definition begin_acp_spawn :: "os_state \<Rightarrow> os_state" where
  "begin_acp_spawn s = s\<lparr>spawns_open := spawns_open s + 1\<rparr>"

definition drop_acp_spawn :: "os_state \<Rightarrow> os_state" where
  "drop_acp_spawn s = s\<lparr>spawns_open := spawns_open s - 1\<rparr>"

section \<open>The end of the parent\<close>

text \<open>
  \<open>others t\<close> is what the other threads do to the table and the counter during the sleep that
  starts at time \<open>t\<close>.
\<close>

type_synonym others = "nat \<Rightarrow> u32 list \<times> u32 \<Rightarrow> u32 list \<times> u32"

definition sleep_with_others :: "others \<Rightarrow> nat \<Rightarrow> os_state \<Rightarrow> os_state" where
  "sleep_with_others others n s =
     (let (ps, k) = others (now s) (live_pids s, spawns_open s) in
      (sleep_ms n s)\<lparr>live_pids := ps, spawns_open := k\<rparr>)"

section \<open>How the clock and the table move\<close>

lemma poll_gone_frame:
  "poll_gone deadline pid s = (r, s') \<Longrightarrow> s' = s\<lparr>now := now s'\<rparr> \<and> now s \<le> now s'"
proof (induction deadline pid s rule: poll_gone.induct)
  case (1 deadline pid s)
  show ?case
  proof (cases "now s < deadline \<and> pid_alive s pid")
    case True
    then have "poll_gone deadline pid (sleep_ms 20 s) = (r, s')"
      using "1.prems" by (simp add: poll_gone.simps [of deadline pid s])
    then have "s' = (sleep_ms 20 s)\<lparr>now := now s'\<rparr> \<and> now (sleep_ms 20 s) \<le> now s'"
      using "1.IH" True by simp
    then show ?thesis by (simp add: sleep_ms_def)
  next
    case False
    then show ?thesis using "1.prems" by (auto simp: poll_gone.simps [of deadline pid s] split: if_splits)
  qed
qed

lemma teardown_frame:
  assumes "pid \<noteq> 0"
  shows "sent (teardown_process_group pid s) =
      sent s @ [(Group pid, SIGTERM), (Leader pid, SIGTERM), (Group pid, SIGKILL), (Leader pid, SIGKILL)]"
    and "live_pids (teardown_process_group pid s) = live_pids s"
    and "now s \<le> now (teardown_process_group pid s)"
    and "is_shutting_down (teardown_process_group pid s) = is_shutting_down s"
proof -
  obtain g s2 where p1: "poll_gone (now (send pid SIGTERM s) + 2000) pid (send pid SIGTERM s) = (g, s2)" by fastforce
  obtain g' s4 where p2: "poll_gone (now (send pid SIGKILL s2) + 500) pid (send pid SIGKILL s2) = (g', s4)" by fastforce
  have s2: "s2 = (send pid SIGTERM s)\<lparr>now := now s2\<rparr>" "now s \<le> now s2"
    using poll_gone_frame [OF p1] by (simp_all add: send_def)
  have s4: "s4 = (send pid SIGKILL s2)\<lparr>now := now s4\<rparr>" "now s2 \<le> now s4"
    using poll_gone_frame [OF p2] by (simp_all add: send_def)
  have run: "teardown_process_group pid s = (if g then send pid SIGKILL s2 else s4)"
    using assms by (simp add: teardown_process_group_def p1 p2 Let_def)
  have sel: "sent s2 = sent s @ [(Group pid, SIGTERM), (Leader pid, SIGTERM)]" "live_pids s2 = live_pids s"
    "is_shutting_down s2 = is_shutting_down s"
    by (subst s2(1), simp add: send_def)+
  have sel4: "sent s4 = sent s2 @ [(Group pid, SIGKILL), (Leader pid, SIGKILL)]" "live_pids s4 = live_pids s2"
    "is_shutting_down s4 = is_shutting_down s2"
    by (subst s4(1), simp add: send_def)+
  show "sent (teardown_process_group pid s) =
      sent s @ [(Group pid, SIGTERM), (Leader pid, SIGTERM), (Group pid, SIGKILL), (Leader pid, SIGKILL)]"
    and "live_pids (teardown_process_group pid s) = live_pids s"
    and "now s \<le> now (teardown_process_group pid s)"
    and "is_shutting_down (teardown_process_group pid s) = is_shutting_down s"
    using s2(2) s4(2) by (simp_all add: run sel sel4) (simp_all add: send_def sel)
qed

text \<open>What a teardown of a slot, and of all of them, leaves behind.\<close>

definition killed :: "os_state \<Rightarrow> u32 \<Rightarrow> bool" where
  "killed s pid \<longleftrightarrow> (Group pid, SIGKILL) \<in> set (sent s) \<and> (Leader pid, SIGKILL) \<in> set (sent s)"

lemma teardown_slot_effect:
  "live_pids (teardown_slot i s) = (live_pids s)[i := 0]"
  "now s \<le> now (teardown_slot i s)"
  "killed s pid \<Longrightarrow> killed (teardown_slot i s) pid"
  "i < length (live_pids s) \<Longrightarrow> live_pids s ! i \<noteq> 0 \<Longrightarrow> killed (teardown_slot i s) (live_pids s ! i)"
  "is_shutting_down (teardown_slot i s) = is_shutting_down s"
  using teardown_frame [of "live_pids s ! i" "s\<lparr>live_pids := (live_pids s)[i := 0]\<rparr>"]
  by (auto simp: teardown_slot_def Let_def killed_def)

lemma teardown_slots_effect:
  assumes "n \<le> length (live_pids s)"
  shows "let s' = fold teardown_slot [0..<n] s in
    live_pids s' = replicate n 0 @ drop n (live_pids s) \<and> now s \<le> now s' \<and>
    is_shutting_down s' = is_shutting_down s \<and>
    (\<forall>pid. killed s pid \<or> pid \<noteq> 0 \<and> pid \<in> set (take n (live_pids s)) \<longrightarrow> killed s' pid)"
  using assms
proof (induction n)
  case 0
  then show ?case by simp
next
  case (Suc n)
  define s' where "s' = fold teardown_slot [0..<n] s"
  have IH: "live_pids s' = replicate n 0 @ drop n (live_pids s)" "now s \<le> now s'"
      "is_shutting_down s' = is_shutting_down s"
      "\<And>pid. killed s pid \<or> pid \<noteq> 0 \<and> pid \<in> set (take n (live_pids s)) \<Longrightarrow> killed s' pid"
    using Suc by (auto simp: s'_def Let_def)
  have d: "drop n (live_pids s) = live_pids s ! n # drop (Suc n) (live_pids s)"
    using Suc.prems by (simp add: Cons_nth_drop_Suc)
  have nth: "n < length (live_pids s')" "live_pids s' ! n = live_pids s ! n"
    using Suc.prems by (simp_all add: IH(1) nth_append)
  have "live_pids (teardown_slot n s') = replicate (Suc n) 0 @ drop (Suc n) (live_pids s)"
    unfolding teardown_slot_effect IH(1) d
    by (simp add: list_update_append replicate_append_same flip: replicate_Suc)
  moreover have "now s \<le> now (teardown_slot n s')"
    using IH(2) teardown_slot_effect(2) [of s' n] by simp
  moreover have "killed (teardown_slot n s') pid"
    if "killed s pid \<or> pid \<noteq> 0 \<and> pid \<in> set (take (Suc n) (live_pids s))" for pid
  proof (cases "killed s' pid")
    case True
    then show ?thesis by (rule teardown_slot_effect)
  next
    case False
    then have "pid = live_pids s ! n" "pid \<noteq> 0"
      using that IH(4) Suc.prems by (auto simp: take_Suc_conv_app_nth)
    then show ?thesis using teardown_slot_effect(4) [OF nth(1)] nth(2) by simp
  qed
  moreover have "fold teardown_slot [0..<Suc n] s = teardown_slot n s'"
    by (simp add: s'_def)
  ultimately show ?case using IH(3) teardown_slot_effect(5) by (simp add: Let_def)
qed

lemma teardown_registered_effect:
  "live_pids (teardown_registered_children s) = replicate (length (live_pids s)) 0"
  "now s \<le> now (teardown_registered_children s)"
  "killed s pid \<or> pid \<noteq> 0 \<and> pid \<in> set (live_pids s) \<Longrightarrow> killed (teardown_registered_children s) pid"
  "is_shutting_down (teardown_registered_children s) = is_shutting_down s"
  using teardown_slots_effect [of "length (live_pids s)" s]
  by (auto simp: teardown_registered_children_def Let_def)

text \<open>
  The loop of \<open>parent_exit_teardown\<close>: every round ends with a sleep of at least 20 ms, so the
  hard deadline ends it.
\<close>

function parent_exit_loop :: "others \<Rightarrow> nat \<Rightarrow> nat \<Rightarrow> os_state \<Rightarrow> os_state" where
  "parent_exit_loop others deadline hard s =
     (let s1 = teardown_registered_children s; spawning = (spawns_open s1 \<noteq> 0) in
      if now s1 \<ge> hard \<or> (now s1 \<ge> deadline \<and> \<not> spawning) then teardown_registered_children s1
      else parent_exit_loop others deadline hard (sleep_with_others others 20 s1))"
  by pat_completeness auto
termination
proof (relation "measure (\<lambda>(others, deadline, hard, s). hard - now s)")
  fix others deadline hard s x xa
  assume x: "x = teardown_registered_children s"
    "\<not> (now x \<ge> hard \<or> now x \<ge> deadline \<and> \<not> xa)"
  then have "now s \<le> now x" and "now x < hard" using teardown_registered_effect(2) by auto
  then show "((others, deadline, hard, sleep_with_others others 20 x), others, deadline, hard, s)
      \<in> measure (\<lambda>(others, deadline, hard, s). hard - now s)"
    by (simp add: sleep_with_others_def sleep_ms_def split: prod.split)
qed simp

declare parent_exit_loop.simps [simp del]

definition parent_exit_teardown :: "others \<Rightarrow> os_state \<Rightarrow> os_state" where
  "parent_exit_teardown others s =
     (let s0 = s\<lparr>is_shutting_down := True\<rparr> in
      parent_exit_loop others (now s0 + 500) (now s0 + 2000) s0)"

text \<open>The signal handler; its result is the exit code, kept to 8 bits by the system.\<close>

definition signal_teardown :: "nat \<Rightarrow> os_state \<Rightarrow> nat \<times> os_state" where
  "signal_teardown sg s =
     (128 + sg,
      fold (\<lambda>pid s. if pid \<noteq> 0 then send pid SIGKILL s else s) (live_pids s) (s\<lparr>is_shutting_down := True\<rparr>))"

section \<open>No child survives its parent\<close>

lemma sleep_with_others_killed: "killed (sleep_with_others others n s) pid \<longleftrightarrow> killed s pid"
  by (simp add: sleep_with_others_def sleep_ms_def killed_def split: prod.split)

lemma sleep_with_others_shutting: "is_shutting_down (sleep_with_others others n s) = is_shutting_down s"
  by (simp add: sleep_with_others_def sleep_ms_def split: prod.split)

lemma parent_exit_loop_effect:
  "let s' = parent_exit_loop others deadline hard s in
     set (live_pids s') \<subseteq> {0} \<and> is_shutting_down s' = is_shutting_down s \<and>
     (\<forall>pid. killed s pid \<or> pid \<noteq> 0 \<and> pid \<in> set (live_pids s) \<longrightarrow> killed s' pid)"
proof (induction others deadline hard s rule: parent_exit_loop.induct)
  case (1 others deadline hard s)
  let ?s1 = "teardown_registered_children s"
  let ?stop = "now ?s1 \<ge> hard \<or> now ?s1 \<ge> deadline \<and> \<not> spawns_open ?s1 \<noteq> 0"
  show ?case
  proof (cases ?stop)
    case True
    then have "parent_exit_loop others deadline hard s = teardown_registered_children ?s1"
      by (simp add: parent_exit_loop.simps [of others deadline hard s] Let_def)
    then show ?thesis by (auto simp: teardown_registered_effect Let_def)
  next
    case False
    let ?s2 = "sleep_with_others others 20 ?s1"
    have run: "parent_exit_loop others deadline hard s = parent_exit_loop others deadline hard ?s2"
      using False by (subst parent_exit_loop.simps) (auto simp: Let_def)
    have IH: "set (live_pids (parent_exit_loop others deadline hard ?s2)) \<subseteq> {0}"
        "is_shutting_down (parent_exit_loop others deadline hard ?s2) = is_shutting_down ?s2"
        "\<And>pid. killed ?s2 pid \<Longrightarrow> killed (parent_exit_loop others deadline hard ?s2) pid"
      using "1.IH" [OF refl refl] False by (auto simp: Let_def)
    then show ?thesis unfolding run
      by (simp add: Let_def sleep_with_others_killed sleep_with_others_shutting teardown_registered_effect)
  qed
qed


lemma put_first_free_Some:
  "put_first_free pid ps = Some qs \<Longrightarrow>
     length qs = length ps \<and> pid \<in> set qs \<and> set ps - {0} \<subseteq> set qs \<and> set qs \<subseteq> insert pid (set ps)"
proof (induction ps arbitrary: qs)
  case (Cons p ps)
  then show ?case by (auto split: if_splits)
qed simp

lemma put_first_free_None: "put_first_free pid ps = None \<longleftrightarrow> 0 \<notin> set ps"
  by (induction ps) auto

text \<open>C26: a child is either tracked or killed: when the table of 64 has a free slot the child is in it, next to
  everything that was there, until its guard is dropped, which kills its group and takes it out;
  when the table is full, starting fails and the child's group is killed at once.\<close>

theorem child_tracked_or_killed:
  assumes "pid \<noteq> 0"
  shows "(case track_child pid s of
      (Inr reap, s') \<Rightarrow>
        reap = pid \<and> 0 \<in> set (live_pids s) \<and> length (live_pids s') = length (live_pids s)
        \<and> insert pid (set (live_pids s) - {0}) \<subseteq> set (live_pids s')
        \<and> killed (drop_child_reap pid s') pid
        \<and> set (live_pids (drop_child_reap pid s')) - {0} = set (live_pids s) - {0, pid}
    | (Inl e, s') \<Rightarrow> 0 \<notin> set (live_pids s) \<and> killed s' pid \<and> live_pids s' = live_pids s)"
proof (cases "put_first_free pid (live_pids s)")
  case None
  then have "track_child pid s = (Inl LiveTableFull, teardown_process_group pid s)"
    using assms by (simp add: track_child_def register_child_pid_def wp)
  moreover have "0 \<notin> set (live_pids s)" using None by (simp add: put_first_free_None)
  ultimately show ?thesis using teardown_frame [OF assms, of s] by (simp add: killed_def)
next
  case (Some qs)
  let ?s' = "s\<lparr>live_pids := qs\<rparr>"
  have run: "track_child pid s = (Inr pid, ?s')"
    using assms Some by (simp add: track_child_def register_child_pid_def wp)
  have "0 \<in> set (live_pids s)" using Some put_first_free_None [of pid "live_pids s"] by auto
  moreover note put_first_free_Some [OF Some]
  moreover have "killed (drop_child_reap pid ?s') pid"
    using assms teardown_frame [OF assms, of ?s']
    by (simp add: drop_child_reap_def unregister_child_pid_def killed_def)
  moreover have "live_pids (drop_child_reap pid ?s') = map (\<lambda>p. if p = pid then 0 else p) qs"
    using assms teardown_frame [OF assms, of ?s'] by (simp add: drop_child_reap_def unregister_child_pid_def)
  ultimately show ?thesis unfolding run using assms by auto
qed

definition sample_os :: os_state where
  "sample_os = \<lparr>live_pids = [5, 0], is_shutting_down = False, spawns_open = 0, sent = [], now = 0,
     overslept = \<lambda>_. 0, waitpid_rc = \<lambda>_ _. 0, kill0_errno = \<lambda>_ _. None\<rparr>"

theorem child_tracked_or_killed_witness:
  "\<exists>s'. track_child 9 sample_os = (Inr 9, s') \<and> {5, 9} \<subseteq> set (live_pids s')
     \<and> set (live_pids (drop_child_reap 9 s')) - {0} = {5}"
proof -
  let ?s' = "sample_os\<lparr>live_pids := [5, 9]\<rparr>"
  have run: "track_child 9 sample_os = (Inr 9, ?s')"
    by (simp add: track_child_def register_child_pid_def sample_os_def wp)
  have "set (live_pids (drop_child_reap 9 ?s')) - {0} = set (live_pids sample_os) - {0, 9}"
    using child_tracked_or_killed [of 9 sample_os] unfolding run by simp
  also have "\<dots> = {5}" by (simp add: sample_os_def insert_Diff_if)
  finally show ?thesis using run by (intro exI [of _ ?s']) simp
qed

end
