(* ===== verification/Facade.thy ===== *)
theory Facade
  imports Ledger Launch Json Teardown
begin

text \<open>
  \<^verbatim>\<open>crates/gamchi/src/ops.rs\<close> and what the three facades (command line, MCP, app server) share:
  the texts of the errors they report, the host they run on, and the system state their handlers
  act on: the ledgers of all homes, their configuration files, the result files and the
  processes.
\<close>

section \<open>Texts\<close>

text \<open>
  What the program takes from its host and from crates: environment variables, the current
  directory, the texts of I/O and JSON errors, \<open>{:?}\<close> of a string, JSON to text and back.
\<close>

record host =
  env_var :: "string \<Rightarrow> string option"
  current_dir :: "string + string"
  io_text :: "io_kind \<Rightarrow> string"
  json_error_text :: string
  config_io_text :: string
  debug_str :: "string \<Rightarrow> string"
  json_to_text :: "json \<Rightarrow> string"
  json_of_text :: "string \<Rightarrow> json option"

definition display_unsupported :: "host \<Rightarrow> unsupported_value_error \<Rightarrow> string" where
  "display_unsupported host e =
     ''unsupported '' @ unsupported_kind e @ '' '' @ debug_str host (unsupported_value e)"

fun display_status_message :: "host \<Rightarrow> status_message \<Rightarrow> string" where
  "display_status_message host NeedsTerminal = ''publish_terminal requires a terminal TurnStatus''"
| "display_status_message host (AlreadyPending i request) =
     ''turn '' @ i @ '' already has pending approval '' @ request"
| "display_status_message host (UnknownRequest request) = ''unknown request_id '' @ request"
| "display_status_message host (StaleRequest request) = ''stale request_id '' @ request"
| "display_status_message host (DuplicateRequest request) = ''duplicate request_id '' @ request"
| "display_status_message host (BadDecision e) = display_unsupported host e"

fun display_ledger_error :: "host \<Rightarrow> ledger_error \<Rightarrow> string" where
  "display_ledger_error host (Io k) = io_text host k"
| "display_ledger_error host Json = json_error_text host"
| "display_ledger_error host (NotFound kind i) = kind @ '' '' @ i @ '' not found''"
| "display_ledger_error host (TurnInProgress th i) =
     ''thread '' @ th @ '' already has inProgress turn '' @ i"
| "display_ledger_error host (AlreadyTerminal i status) =
     ''turn '' @ i @ '' already terminal ('' @ turn_status_as_str status @ '')''"
| "display_ledger_error host (InvalidHome reason) = reason"
| "display_ledger_error host (InvalidId i) = ''invalid id '' @ debug_str host i"
| "display_ledger_error host (InvalidStatus m) = display_status_message host m"

definition CONFIG_NAME :: string where
  "CONFIG_NAME = ''config.yaml''"

fun config_reason_text :: "host \<Rightarrow> config_reason \<Rightarrow> string" where
  "config_reason_text host CannotRead = ''cannot read '' @ CONFIG_NAME @ '': '' @ config_io_text host"
| "config_reason_text host (MalformedLine n) = ''malformed '' @ CONFIG_NAME @ '' line '' @ to_dec n"
| "config_reason_text host (DuplicateKey key) = ''duplicate key '' @ key @ '' in '' @ CONFIG_NAME"
| "config_reason_text host (UnknownKey key) = ''unknown key '' @ key @ '' in '' @ CONFIG_NAME"
| "config_reason_text host BlankField = ''blank model or effort''"

fun display_resolve_error :: "host \<Rightarrow> resolve_error \<Rightarrow> string" where
  "display_resolve_error host (InvalidConfig reason) = ''INVALID_CONFIG: '' @ config_reason_text host reason"
| "display_resolve_error host (ModelMismatch requested frozen) =
     ''INVALID_CONFIG: follow-up model '' @ requested @ '' is not thread model '' @ frozen"

fun display_launch_error :: "host \<Rightarrow> launch_error \<Rightarrow> string" where
  "display_launch_error host (Unenforceable field reason) = ''unenforceable '' @ field @ '': '' @ reason"
| "display_launch_error host (LaunchInvalidConfig e) = display_resolve_error host e"

section \<open>The system\<close>

record sys =
  homes :: "string \<Rightarrow> ledger"
  configs :: "string \<Rightarrow> bool + string"
  result_files :: "(string \<times> string) list"
  result_fault :: "string \<Rightarrow> bool"
  os :: os_state

type_synonym ('e, 'a) sys_action = "(sys, 'e, 'a) action"

text \<open>A ledger operation on the home of an open ledger.\<close>

definition in_home :: "string \<Rightarrow> 'a ledger_action \<Rightarrow> (ledger_error, 'a) sys_action" where
  "in_home h m s = (case m (homes s h) of (r, l) \<Rightarrow> (r, s\<lparr>homes := (homes s)(h := l)\<rparr>))"

definition map_err :: "('e \<Rightarrow> 'f) \<Rightarrow> ('e + 'a) \<Rightarrow> 'f + 'a" where
  "map_err f r = (case r of Inl e \<Rightarrow> Inl (f e) | Inr x \<Rightarrow> Inr x)"

definition with_err :: "('e \<Rightarrow> 'f) \<Rightarrow> ('s, 'e, 'a) action \<Rightarrow> ('s, 'f, 'a) action" where
  "with_err f m s = (case m s of (r, s') \<Rightarrow> (map_err f r, s'))"

text \<open>\<open>.map_err(|e| e.to_string())\<close> after a ledger call.\<close>

definition call :: "host \<Rightarrow> string \<Rightarrow> 'a ledger_action \<Rightarrow> (string, 'a) sys_action" where
  "call host h m = with_err (display_ledger_error host) (in_home h m)"

definition on_os :: "(os_state \<Rightarrow> os_state) \<Rightarrow> ('e, unit) sys_action" where
  "on_os f s = (Inr (), s\<lparr>os := f (os s)\<rparr>)"

section \<open>Fields of JSON arguments\<close>

definition optional_text_field :: "json \<Rightarrow> string \<Rightarrow> string + string" where
  "optional_text_field args key =
     (case json_get args key of
        None \<Rightarrow> Inr []
      | Some JNull \<Rightarrow> Inr []
      | Some v \<Rightarrow>
          (case as_str v of
             None \<Rightarrow> Inl (key @ '' must be a string'')
           | Some s \<Rightarrow>
               if trim s = [] then Inl (''INVALID_CONFIG: blank '' @ key) else Inr s))"

text \<open>\<open>get(key).and_then(as_str).ok_or_else(...)\<close>.\<close>

definition required_str :: "json \<Rightarrow> string \<Rightarrow> string \<Rightarrow> string + string" where
  "required_str args key message =
     (case get_str args key of None \<Rightarrow> Inl message | Some s \<Rightarrow> Inr s)"

section \<open>Turn requests\<close>

datatype agent_command = Grok string | Override string "string list"

record turn_request =
  tr_cwd :: string
  tr_prompt :: string
  tr_approval :: approval_policy
  tr_sandbox :: thread_sandbox
  tr_extra :: extra_spawn_fields
  tr_model :: string
  tr_effort :: string
  tr_command :: agent_command
  tr_client_request_id :: "string option"
  tr_follow_up_thread_id :: "string option"
  tr_reuse_thread_id :: "string option"

definition no_extra :: extra_spawn_fields where
  "no_extra = \<lparr>writable_roots = None, network_access = None, exclude_slash_tmp = None, exclude_tmpdir_env_var = None\<rparr>"

definition acp_command :: "host \<Rightarrow> agent_command" where
  "acp_command host =
     (case env_var host ''GAMCHI_ACP_PROGRAM'' of
        Some p \<Rightarrow> Override p []
      | None \<Rightarrow> Grok ''grok'')"

definition start_request ::
  "host \<Rightarrow> string \<Rightarrow> string \<Rightarrow> approval_policy \<Rightarrow> thread_sandbox \<Rightarrow> string \<Rightarrow> string \<Rightarrow> string option \<Rightarrow> turn_request" where
  "start_request host cwd prompt approval sandbox model effort client =
     \<lparr>tr_cwd = cwd, tr_prompt = prompt, tr_approval = approval, tr_sandbox = sandbox, tr_extra = no_extra,
      tr_model = model, tr_effort = effort, tr_command = acp_command host, tr_client_request_id = client,
      tr_follow_up_thread_id = None, tr_reuse_thread_id = None\<rparr>"

definition followup_request ::
  "host \<Rightarrow> wire_thread \<Rightarrow> string \<Rightarrow> string \<Rightarrow> string \<Rightarrow> string option \<Rightarrow> turn_request" where
  "followup_request host th prompt model effort cwd =
     \<lparr>tr_cwd = (case cwd of Some c \<Rightarrow> c | None \<Rightarrow> thread_cwd th), tr_prompt = prompt,
      tr_approval = thread_approval_policy th, tr_sandbox = thread_sandbox th, tr_extra = no_extra,
      tr_model = model, tr_effort = effort, tr_command = acp_command host, tr_client_request_id = None,
      tr_follow_up_thread_id = Some (thread_id th), tr_reuse_thread_id = None\<rparr>"

section \<open>Opening a ledger\<close>

definition open_home :: "host \<Rightarrow> string option \<Rightarrow> string + string" where
  "open_home host explicit = map_err home_reason (resolve_home_from_os (env_var host) explicit)"

text \<open>The open \<open>Ledger\<close> value is its number \<open>self\<close> with the home it was opened on.\<close>

definition open_ledger :: "host \<Rightarrow> nat \<Rightarrow> string option \<Rightarrow> (string, string) sys_action" where
  "open_ledger host self explicit =
     and_then (of_result (open_home host explicit)) (\<lambda>h. call host h (open_ledger_home self h))"

text \<open>The value is dropped at the end of the block that opened it, on every path.\<close>

definition with_ledger ::
  "(string, string) sys_action \<Rightarrow> nat \<Rightarrow> (string \<Rightarrow> (string, 'a) sys_action) \<Rightarrow> (string, 'a) sys_action" where
  "with_ledger opened self body =
     and_then opened (\<lambda>h s.
       case body h s of (r, s') \<Rightarrow> (r, s'\<lparr>homes := (homes s')(h := drop_ledger self (homes s' h))\<rparr>))"

section \<open>Cancelling\<close>

definition teardown_recorded_child :: "string \<Rightarrow> turn \<Rightarrow> (string, unit) sys_action" where
  "teardown_recorded_child h t s =
     (case in_home h (read_generation (turn_generation_id t)) s of
        (Inl e, s') \<Rightarrow> ok () s'
      | (Inr g, s') \<Rightarrow>
          (case child_pid g of
             None \<Rightarrow> ok () s'
           | Some pid \<Rightarrow>
               if recorded_child_is_alive g (homes s' h) then on_os (teardown_process_group pid) s'
               else ok () s'))"

definition cancel_turn :: "host \<Rightarrow> nat \<Rightarrow> string \<Rightarrow> string \<Rightarrow> (string, turn) sys_action" where
  "cancel_turn host self h i =
     and_then (call host h (cancel self i)) (\<lambda>t.
       if turn_status t \<noteq> Interrupted then ok t
       else
         and_then (teardown_recorded_child h t) (\<lambda>_.
         call host h (read_turn i)))"

section \<open>Turns as JSON\<close>

definition RESULT_CAP :: nat where
  "RESULT_CAP = 64 * 1024"

definition MAX_WAIT_MS :: u64 where
  "MAX_WAIT_MS = 50000"

text \<open>\<open>#[derive(Serialize)]\<close> of an item.\<close>

definition item_json :: "item \<Rightarrow> json" where
  "item_json it =
     JObj [(''id'', JStr (item_id it)), (''item_type'', JStr (item_type it)), (''text'', JStr (item_text it)),
           (''status'', JStr (item_status it))]"

definition turn_fields :: "turn \<Rightarrow> (string \<times> json) list" where
  "turn_fields t =
     [(''turn_id'', JStr (turn_id t)), (''thread_id'', JStr (turn_thread_id t)),
      (''status'', JStr (turn_status_as_str (turn_status t))), (''stop_reason'', JStr (stop_reason t)),
      (''failure_reason'', JStr (failure_reason t)), (''items'', JArr (map item_json (turn_items t)))]
     @ (if pending_approval t
        then [(''await_reason'', JStr ''pending_approval''), (''request_id'', JStr (pending_request_id t))]
        else [])"

definition turn_json :: "turn \<Rightarrow> json" where
  "turn_json t = JObj (turn_fields t)"

text \<open>Writing the result file: its failure is ignored, the directory is created first.\<close>

definition write_result_file :: "string \<Rightarrow> string \<Rightarrow> sys \<Rightarrow> sys" where
  "write_result_file path body s =
     (if result_fault s path then s else s\<lparr>result_files := AList.update path body (result_files s)\<rparr>)"

definition result_path :: "string \<Rightarrow> turn \<Rightarrow> string" where
  "result_path h t = path_join (path_join h ''results'') (turn_id t @ ''.json'')"

definition bounded_turn_json :: "host \<Rightarrow> turn \<Rightarrow> string option \<Rightarrow> sys \<Rightarrow> json \<times> sys" where
  "bounded_turn_json host t home s =
     (let v = turn_fields t; raw = json_to_text host (JObj v) in
      if length raw \<le> RESULT_CAP then (JObj (v @ [(''truncated'', JBool False)]), s)
      else case home of
        Some h \<Rightarrow>
          (JObj (AList.update ''items'' (JArr [])
                  (v @ [(''truncated'', JBool True), (''path'', JStr (result_path h t))])),
           write_result_file (result_path h t) raw s)
      | None \<Rightarrow> (JObj (AList.update ''items'' (JArr []) (v @ [(''truncated'', JBool True)])), s))"

text \<open>The same as the last step of a handler.\<close>

definition bounded_reply :: "host \<Rightarrow> string \<Rightarrow> turn \<Rightarrow> (string, json) sys_action" where
  "bounded_reply host h t s = (case bounded_turn_json host t (Some h) s of (v, s') \<Rightarrow> (Inr v, s'))"

section \<open>How the pieces run\<close>

lemma in_home_run: "in_home h m s = (fst (m (homes s h)), s\<lparr>homes := (homes s)(h := snd (m (homes s h)))\<rparr>)"
  by (simp add: in_home_def split: prod.split)

lemma with_err_run [wp]: "with_err f m s = (map_err f (fst (m s)), snd (m s))"
  by (simp add: with_err_def split: prod.split)

lemma call_run [wp]:
  "call host h m s =
     (map_err (display_ledger_error host) (fst (m (homes s h))), s\<lparr>homes := (homes s)(h := snd (m (homes s h)))\<rparr>)"
  by (simp add: call_def with_err_run in_home_run)

lemma on_os_run [wp]: "on_os f s = (Inr (), s\<lparr>os := f (os s)\<rparr>)"
  by (simp add: on_os_def)

lemma map_err_simps [simp]: "map_err f (Inl e) = Inl (f e)" "map_err f (Inr x) = Inr x"
  by (simp_all add: map_err_def)

lemma map_err_Inr [simp]: "map_err f r = Inr x \<longleftrightarrow> r = Inr x"
  by (cases r) simp_all

lemma read_only_home [simp]: "s\<lparr>homes := (homes s)(h := homes s h)\<rparr> = s"
  by simp

end
