(* ===== verification/Mapper.thy ===== *)
theory Mapper
  imports Store Json
begin

text \<open>
  \<^verbatim>\<open>crates/adapter-grok/src/map.rs\<close>: the mapper from the agent's \<open>session/update\<close>
  notifications to the items of one turn.

  The notification types belong to the agent client protocol crate; of their variants and fields
  there are those the source names, and one constructor for all others. A panic of the source (an
  index out of range, an \<open>unwrap\<close> of \<open>None\<close>) is the error \<open>Panic\<close>.
\<close>

section \<open>Notifications\<close>

datatype tool_kind = Edit | Execute | Other | Fetch | Search | Delete | Move | Unnamed_kind nat

datatype tool_call_status = ToolCompleted | ToolFailed | ToolPending | ToolInProgress | Unnamed_status nat

datatype content_block = TextBlock string | Unnamed_block nat

record tool_call =
  call_id :: string
  call_kind :: tool_kind
  call_title :: string
  call_status :: tool_call_status
  call_raw_input :: "json option"

record tool_call_update =
  update_id :: string
  update_kind :: "tool_kind option"
  update_title :: "string option"
  update_status :: "tool_call_status option"

datatype session_update =
    AgentThoughtChunk content_block
  | AgentMessageChunk content_block
  | PlanUpdate "string list"
  | ToolCall tool_call
  | ToolCallUpdate tool_call_update
  | Unnamed_update nat

section \<open>Identifiers, kinds, statuses\<close>

definition ITEM_STATUS_IN_PROGRESS :: string where "ITEM_STATUS_IN_PROGRESS = ''inProgress''"
definition ITEM_STATUS_COMPLETED :: string where "ITEM_STATUS_COMPLETED = ''completed''"
definition ITEM_STATUS_FAILED :: string where "ITEM_STATUS_FAILED = ''failed''"
definition USER_ITEM_ID :: string where "USER_ITEM_ID = ''user-message''"
definition AGENT_ITEM_ID :: string where "AGENT_ITEM_ID = ''agent-message''"
definition PLAN_ITEM_ID :: string where "PLAN_ITEM_ID = ''plan''"

lemmas mapper_constants = ITEM_STATUS_IN_PROGRESS_def ITEM_STATUS_COMPLETED_def ITEM_STATUS_FAILED_def
  USER_ITEM_ID_def AGENT_ITEM_ID_def PLAN_ITEM_ID_def

datatype mapper_error = ExcludedFatal string | Panic

definition reject_fatal :: "string \<Rightarrow> mapper_error + unit" where
  "reject_fatal ty = (let (_, fatal) = known_item_type ty in if fatal then Inl (ExcludedFatal ty) else Inr ())"

definition emit_item_type :: "string \<Rightarrow> mapper_error + unit" where
  "emit_item_type ty = reject_fatal ty"

definition is_shell :: "string \<Rightarrow> json option \<Rightarrow> bool" where
  "is_shell title raw \<longleftrightarrow>
     (let t = to_ascii_lowercase title in
      str_contains t ''shell'' \<or> str_contains t ''bash'' \<or> str_contains t ''zsh'' \<or>
      (case raw of None \<Rightarrow> False | Some v \<Rightarrow> json_get v ''command'' \<noteq> None))"

text \<open>\<open>render\<close> is \<open>Value::to_string\<close>.\<close>

definition is_web :: "(json \<Rightarrow> string) \<Rightarrow> string \<Rightarrow> json option \<Rightarrow> bool" where
  "is_web render title raw \<longleftrightarrow>
     (let blob = title @ (case raw of None \<Rightarrow> [] | Some v \<Rightarrow> render v) in
      str_contains blob ''http://'' \<or> str_contains blob ''https://'' \<or> str_contains blob ''www.'')"

definition map_kind :: "(json \<Rightarrow> string) \<Rightarrow> tool_kind \<Rightarrow> string \<Rightarrow> json option \<Rightarrow> string option" where
  "map_kind render kind title raw =
     (case kind of
        Edit \<Rightarrow> Some ITEM_FILE_CHANGE
      | Execute \<Rightarrow> Some ITEM_COMMAND_EXECUTION
      | Other \<Rightarrow> if is_shell title raw then Some ITEM_COMMAND_EXECUTION else None
      | Fetch \<Rightarrow> if is_web render title raw then Some ITEM_WEB_SEARCH else None
      | Search \<Rightarrow> if is_web render title raw then Some ITEM_WEB_SEARCH else None
      | Delete \<Rightarrow> None
      | Move \<Rightarrow> None
      | Unnamed_kind _ \<Rightarrow> None)"

fun item_status_of :: "tool_call_status option \<Rightarrow> string" where
  "item_status_of (Some ToolCompleted) = ITEM_STATUS_COMPLETED"
| "item_status_of (Some ToolFailed) = ITEM_STATUS_FAILED"
| "item_status_of (Some ToolPending) = ITEM_STATUS_IN_PROGRESS"
| "item_status_of (Some ToolInProgress) = ITEM_STATUS_IN_PROGRESS"
| "item_status_of None = ITEM_STATUS_IN_PROGRESS"
| "item_status_of (Some (Unnamed_status _)) = ITEM_STATUS_IN_PROGRESS"

definition sanitize_char :: "string \<Rightarrow> char" where
  "sanitize_char ch = (case ch of [c] \<Rightarrow> if id_char c then c else CHR ''_'' | _ \<Rightarrow> CHR ''_'')"

definition sanitize_id :: "string \<Rightarrow> string" where
  "sanitize_id raw =
     (let s = map sanitize_char (utf8_chars raw);
          s = (if s = [] then ''id'' else s) in
      if length s > 128 then take 128 s else s)"

section \<open>The mapper\<close>

record mapper =
  mapped_items :: "item list"
  mapped_tools :: "(string \<times> nat) list"

type_synonym 'a mapper_action = "(mapper, mapper_error, 'a) action"

definition new_mapper :: "string \<Rightarrow> mapper" where
  "new_mapper user_text =
     \<lparr>mapped_items = [\<lparr>item_id = USER_ITEM_ID, item_type = ITEM_USER_MESSAGE, item_text = user_text,
                       item_status = ITEM_STATUS_COMPLETED\<rparr>],
      mapped_tools = []\<rparr>"

text \<open>\<open>iter().position\<close>, \<open>iter().find\<close>, and indexing, which panics out of range.\<close>

fun position :: "('a \<Rightarrow> bool) \<Rightarrow> 'a list \<Rightarrow> nat option" where
  "position P [] = None"
| "position P (x # xs) = (if P x then Some 0 else map_option Suc (position P xs))"

definition item_at :: "nat \<Rightarrow> item mapper_action" where
  "item_at idx m = (if idx < length (mapped_items m) then ok (mapped_items m ! idx) m else err Panic m)"

definition set_item :: "nat \<Rightarrow> (item \<Rightarrow> item) \<Rightarrow> unit mapper_action" where
  "set_item idx f m =
     (if idx < length (mapped_items m)
      then modify (mapped_items_update (\<lambda>its. its[idx := f (its ! idx)])) m
      else err Panic m)"

definition push_item :: "item \<Rightarrow> unit mapper_action" where
  "push_item it = modify (mapped_items_update (\<lambda>its. its @ [it]))"

definition item_by_id :: "string \<Rightarrow> item mapper_action" where
  "item_by_id i m =
     (case List.find (\<lambda>it. item_id it = i) (mapped_items m) of Some it \<Rightarrow> ok it m | None \<Rightarrow> err Panic m)"

definition upsert_agent :: "string \<Rightarrow> unit mapper_action" where
  "upsert_agent chunk m =
     (case position (\<lambda>it. item_id it = AGENT_ITEM_ID) (mapped_items m) of
        Some idx \<Rightarrow> set_item idx (item_text_update (\<lambda>t. t @ chunk)) m
      | None \<Rightarrow> push_item \<lparr>item_id = AGENT_ITEM_ID, item_type = ITEM_AGENT_MESSAGE, item_text = chunk,
                           item_status = ITEM_STATUS_IN_PROGRESS\<rparr> m)"

definition upsert_plan :: "string list \<Rightarrow> unit mapper_action" where
  "upsert_plan entries m =
     (let text = join_with [newline] entries in
      case position (\<lambda>it. item_id it = PLAN_ITEM_ID) (mapped_items m) of
        Some idx \<Rightarrow> set_item idx (item_text_update (\<lambda>_. text)) m
      | None \<Rightarrow> push_item \<lparr>item_id = PLAN_ITEM_ID, item_type = ITEM_PLAN, item_text = text,
                           item_status = ITEM_STATUS_IN_PROGRESS\<rparr> m)"

definition store_tool :: "string \<Rightarrow> item \<Rightarrow> item mapper_action" where
  "store_tool i it m =
     (case map_of (mapped_tools m) i of
        Some idx \<Rightarrow> and_then (set_item idx (\<lambda>_. it)) (\<lambda>_. item_at idx) m
      | None \<Rightarrow>
          (let idx = length (mapped_items m) in
           and_then (modify (\<lambda>m. m\<lparr>mapped_tools := AList.update i idx (mapped_tools m)\<rparr>)) (\<lambda>_.
           and_then (push_item it) (\<lambda>_. item_at idx)) m))"

definition apply_tool_call :: "(json \<Rightarrow> string) \<Rightarrow> tool_call \<Rightarrow> item list mapper_action" where
  "apply_tool_call render call =
     (case map_kind render (call_kind call) (call_title call) (call_raw_input call) of
        None \<Rightarrow> ok []
      | Some ty \<Rightarrow>
          and_then (of_result (reject_fatal ty)) (\<lambda>_.
            let i = sanitize_id (call_id call);
                it = \<lparr>item_id = i, item_type = ty, item_text = call_title call,
                      item_status = item_status_of (Some (call_status call))\<rparr> in
            and_then (store_tool i it) (\<lambda>stored. ok [stored])))"

text \<open>The branch for a known tool call: status, title and kind are overwritten one after the other.\<close>

definition update_known_tool :: "(json \<Rightarrow> string) \<Rightarrow> nat \<Rightarrow> tool_call_update \<Rightarrow> item list mapper_action" where
  "update_known_tool render idx u =
     and_then (case update_status u of
                 None \<Rightarrow> ok ()
               | Some st \<Rightarrow> set_item idx (item_status_update (\<lambda>_. item_status_of (Some st)))) (\<lambda>_.
     and_then (case update_title u of
                 None \<Rightarrow> ok ()
               | Some title \<Rightarrow> set_item idx (item_text_update (\<lambda>_. title))) (\<lambda>_.
     and_then (case update_kind u of
                 None \<Rightarrow> ok ()
               | Some kind \<Rightarrow>
                   and_then (item_at idx) (\<lambda>it.
                     case map_kind render kind (item_text it) None of
                       None \<Rightarrow> ok ()
                     | Some ty \<Rightarrow>
                         and_then (of_result (reject_fatal ty)) (\<lambda>_.
                         set_item idx (item_type_update (\<lambda>_. ty))))) (\<lambda>_.
     and_then (item_at idx) (\<lambda>it. ok [it]))))"

definition apply_tool_update :: "(json \<Rightarrow> string) \<Rightarrow> tool_call_update \<Rightarrow> item list mapper_action" where
  "apply_tool_update render u m =
     (let i = sanitize_id (update_id u);
          kind = (case update_kind u of None \<Rightarrow> Other | Some k \<Rightarrow> k);
          title = (case update_title u of None \<Rightarrow> [] | Some t \<Rightarrow> t) in
      case map_of (mapped_tools m) i of
        Some idx \<Rightarrow> update_known_tool render idx u m
      | None \<Rightarrow>
          (case map_kind render kind title None of
             None \<Rightarrow> ok [] m
           | Some ty \<Rightarrow>
               and_then (of_result (reject_fatal ty)) (\<lambda>_.
                 let it = \<lparr>item_id = i, item_type = ty, item_text = title,
                           item_status = item_status_of (update_status u)\<rparr> in
                 and_then (store_tool i it) (\<lambda>stored. ok [stored])) m))"

fun apply_update :: "(json \<Rightarrow> string) \<Rightarrow> session_update \<Rightarrow> item list mapper_action" where
  "apply_update render (AgentThoughtChunk _) = ok []"
| "apply_update render (AgentMessageChunk (TextBlock text)) =
     and_then (upsert_agent text) (\<lambda>_. and_then (item_by_id AGENT_ITEM_ID) (\<lambda>it. ok [it]))"
| "apply_update render (PlanUpdate entries) =
     and_then (upsert_plan entries) (\<lambda>_. and_then (item_by_id PLAN_ITEM_ID) (\<lambda>it. ok [it]))"
| "apply_update render (ToolCall call) = apply_tool_call render call"
| "apply_update render (ToolCallUpdate u) = apply_tool_update render u"
| "apply_update render _ = ok []"

definition finish_agent_message :: "item option mapper_action" where
  "finish_agent_message m =
     (case position (\<lambda>it. item_id it = AGENT_ITEM_ID) (mapped_items m) of
        None \<Rightarrow> ok None m
      | Some idx \<Rightarrow>
          and_then (set_item idx (item_status_update (\<lambda>_. ITEM_STATUS_COMPLETED))) (\<lambda>_.
          and_then (item_at idx) (\<lambda>it. ok (Some it))) m)"

section \<open>Sanitised identifiers\<close>

lemma sanitize_char_id: "id_char (sanitize_char ch)"
  by (auto simp: sanitize_char_def id_char_def split: list.split)

lemma sanitize_id_valid: "valid_id (sanitize_id raw)"
proof -
  let ?s = "map sanitize_char (utf8_chars raw)"
  let ?t = "if ?s = [] then ''id'' else ?s"
  have "list_all id_char ''id''" by (simp add: id_char_def is_ascii_alphanumeric_def byte_of_def)
  then have "list_all id_char ?t" "?t \<noteq> []"
    by (auto simp: list_all_iff sanitize_char_id)
  moreover have "list_all id_char (take 128 ?t)"
    using \<open>list_all id_char ?t\<close> by (rule list_all_take)
  ultimately show ?thesis
    unfolding sanitize_id_def Let_def valid_id_def by simp
qed

lemma id_char_ascii: "id_char c \<Longrightarrow> \<not> is_continuation c"
  by (auto simp: id_char_def is_ascii_alphanumeric_def is_continuation_def byte_of_def)

lemma sanitize_id_idempotent: "valid_id i \<Longrightarrow> sanitize_id i = i"
proof -
  assume v: "valid_id i"
  then have "utf8_chars i = map (\<lambda>c. [c]) i"
    by (intro utf8_chars_single) (auto simp: valid_id_def list_all_iff id_char_ascii)
  moreover have "map (sanitize_char \<circ> (\<lambda>c. [c])) i = i"
    using v by (intro map_idI) (auto simp: valid_id_def list_all_iff sanitize_char_def)
  ultimately show ?thesis using v by (simp add: sanitize_id_def Let_def valid_id_def)
qed

section \<open>The mapper's invariant\<close>

text \<open>
  Tool calls point to items that carry their identifier; every item can be stored in the ledger
  (its identifier is valid) and is of a public type.
\<close>

definition item_ok :: "item \<Rightarrow> bool" where
  "item_ok it \<longleftrightarrow> valid_id (item_id it) \<and> item_type it \<in> set PUBLIC_ITEM_TYPES"

definition mapper_ok :: "mapper \<Rightarrow> bool" where
  "mapper_ok m \<longleftrightarrow>
     (\<forall>i idx. map_of (mapped_tools m) i = Some idx \<longrightarrow>
        idx < length (mapped_items m) \<and> item_id (mapped_items m ! idx) = i) \<and>
     (\<forall>it \<in> set (mapped_items m). item_ok it)"

lemma map_kind_public: "map_kind render kind title raw = Some ty \<Longrightarrow> ty \<in> set PUBLIC_ITEM_TYPES"
  by (auto simp: map_kind_def PUBLIC_ITEM_TYPES_def split: tool_kind.splits if_splits)

lemma reject_public: "ty \<in> set PUBLIC_ITEM_TYPES \<Longrightarrow> reject_fatal ty = Inr ()"
  by (simp add: reject_fatal_def known_item_type_def)

lemma item_at_run: "idx < length (mapped_items m) \<Longrightarrow> item_at idx m = (Inr (mapped_items m ! idx), m)"
  by (simp add: item_at_def wp)

lemma set_item_run:
  "idx < length (mapped_items m) \<Longrightarrow>
     set_item idx f m = (Inr (), m\<lparr>mapped_items := (mapped_items m)[idx := f (mapped_items m ! idx)]\<rparr>)"
  by (simp add: set_item_def wp)

lemma push_item_run: "push_item it m = (Inr (), m\<lparr>mapped_items := mapped_items m @ [it]\<rparr>)"
  by (simp add: push_item_def wp)

lemmas item_runs = item_at_run set_item_run push_item_run

lemma mapper_ok_set:
  assumes "mapper_ok m" "idx < length (mapped_items m)"
    and "item_id it = item_id (mapped_items m ! idx)" "item_type it \<in> set PUBLIC_ITEM_TYPES"
  shows "mapper_ok (m\<lparr>mapped_items := (mapped_items m)[idx := it]\<rparr>)"
proof -
  have "valid_id (item_id it)" using assms by (auto simp: mapper_ok_def item_ok_def)
  then show ?thesis using assms
    by (auto simp: mapper_ok_def item_ok_def nth_list_update dest!: set_update_subset_insert [THEN subsetD])
qed

lemma mapper_ok_push: "mapper_ok m \<Longrightarrow> item_ok it \<Longrightarrow> mapper_ok (m\<lparr>mapped_items := mapped_items m @ [it]\<rparr>)"
  by (fastforce simp: mapper_ok_def nth_append)

lemma mapper_okD:
  assumes "mapper_ok m"
  shows "map_of (mapped_tools m) i = Some idx \<Longrightarrow> idx < length (mapped_items m)"
    "map_of (mapped_tools m) i = Some idx \<Longrightarrow> item_id (mapped_items m ! idx) = i"
    "idx < length (mapped_items m) \<Longrightarrow> item_ok (mapped_items m ! idx)"
  using assms by (auto simp: mapper_ok_def)

lemma position_Some: "position P xs = Some n \<Longrightarrow> n < length xs \<and> P (xs ! n)"
  by (induction xs arbitrary: n) (auto split: if_splits)

lemma position_None: "position P xs = None \<longleftrightarrow> (\<forall>x \<in> set xs. \<not> P x)"
  by (induction xs) auto

text \<open>
  What every operation gives: success, the invariant, and at most one emitted item, which is the
  one item of the mapper that was replaced in place or appended.
\<close>

definition one_change :: "item list \<Rightarrow> item list \<Rightarrow> item list \<Rightarrow> bool" where
  "one_change old its new \<longleftrightarrow>
     (its = [] \<and> new = old) \<or>
     (\<exists>it. its = [it] \<and> new = old @ [it]) \<or>
     (\<exists>it idx. its = [it] \<and> idx < length old \<and> item_id it = item_id (old ! idx) \<and> new = old[idx := it])"

lemma one_change_set:
  "idx < length old \<Longrightarrow> item_id it = item_id (old ! idx) \<Longrightarrow> one_change old [it] (old[idx := it])"
  unfolding one_change_def by blast

definition emits :: "mapper \<Rightarrow> item list \<Rightarrow> mapper \<Rightarrow> bool" where
  "emits m its m' \<longleftrightarrow> mapper_ok m' \<and> one_change (mapped_items m) its (mapped_items m')"

definition touched :: "mapper \<Rightarrow> nat \<Rightarrow> mapper \<Rightarrow> bool" where
  "touched m idx m' \<longleftrightarrow>
     mapper_ok m' \<and> idx < length (mapped_items m) \<and>
     (\<exists>it. mapped_items m' = (mapped_items m)[idx := it] \<and> item_id it = item_id (mapped_items m ! idx))"

lemma touched_refl: "mapper_ok m \<Longrightarrow> idx < length (mapped_items m) \<Longrightarrow> touched m idx m"
  by (auto simp: touched_def intro: exI [of _ "mapped_items m ! idx"])

lemma touched_set:
  assumes "touched m idx m'" "item_id (f (mapped_items m' ! idx)) = item_id (mapped_items m' ! idx)"
    and "item_type (f (mapped_items m' ! idx)) \<in> set PUBLIC_ITEM_TYPES"
  shows "runs_to (set_item idx f) m' (\<lambda>_. touched m idx)"
proof -
  have idx: "idx < length (mapped_items m')" and "mapper_ok m'" using assms(1) by (auto simp: touched_def)
  then show ?thesis using assms mapper_ok_set [of m' idx "f (mapped_items m' ! idx)"]
    by (auto simp: runs_to_def set_item_run touched_def)
qed

lemma touched_item: "touched m idx m' \<Longrightarrow> idx < length (mapped_items m') \<and> item_ok (mapped_items m' ! idx)"
  by (auto simp: touched_def intro: mapper_okD(3))

lemma emit_item_at:
  assumes "touched m idx m'"
  shows "runs_to (and_then (item_at idx) (\<lambda>it. ok [it])) m' (emits m)"
proof -
  obtain it where "mapped_items m' = (mapped_items m)[idx := it]" "item_id it = item_id (mapped_items m ! idx)"
    "mapper_ok m'" "idx < length (mapped_items m)" using assms by (auto simp: touched_def)
  then show ?thesis by (auto simp: runs_to_def wp item_runs emits_def one_change_def)
qed

lemma store_tool_ok:
  assumes "mapper_ok m" "item_ok it" "item_id it = i"
  shows "runs_to (and_then (store_tool i it) (\<lambda>stored. ok [stored])) m (emits m)"
proof (cases "map_of (mapped_tools m) i")
  case None
  have "mapper_ok (m\<lparr>mapped_tools := AList.update i (length (mapped_items m)) (mapped_tools m), mapped_items := mapped_items m @ [it]\<rparr>)"
    using assms mapper_okD(1,2) [OF assms(1)]
    by (fastforce simp: mapper_ok_def nth_append less_Suc_eq)
  then show ?thesis using None
    by (simp add: runs_to_def store_tool_def Let_def wp item_runs emits_def one_change_def)
next
  case (Some idx)
  then show ?thesis
    using assms mapper_okD(1,2) [OF assms(1), of i idx] mapper_ok_set [OF assms(1), of idx it]
    by (simp add: runs_to_def store_tool_def wp item_runs emits_def one_change_set item_ok_def)
qed

lemma emits_none: "mapper_ok m \<Longrightarrow> emits m [] m"
  by (simp add: emits_def one_change_def)

lemma apply_tool_call_ok: "mapper_ok m \<Longrightarrow> runs_to (apply_tool_call render call) m (emits m)"
  unfolding apply_tool_call_def Let_def
  by (intro runs_to_case_option runs_to_ok runs_to_result_then [OF reject_public] store_tool_ok)
    (auto simp: emits_none item_ok_def sanitize_id_valid dest: map_kind_public)

lemma optional_set_ok:
  assumes "touched m idx m'"
    and "\<And>x it. item_ok it \<Longrightarrow> item_id (f x it) = item_id it \<and> item_type (f x it) \<in> set PUBLIC_ITEM_TYPES"
  shows "runs_to (case v of None \<Rightarrow> ok () | Some x \<Rightarrow> set_item idx (f x)) m' (\<lambda>_. touched m idx)"
  using assms touched_item [OF assms(1)]
  by (intro runs_to_case_option runs_to_ok touched_set) simp_all

lemma retype_ok:
  assumes "touched m idx m'"
  shows "runs_to (case k of None \<Rightarrow> ok () | Some kind \<Rightarrow>
       and_then (item_at idx) (\<lambda>it. case map_kind render kind (item_text it) None of
           None \<Rightarrow> ok ()
         | Some ty \<Rightarrow> and_then (of_result (reject_fatal ty)) (\<lambda>_. set_item idx (item_type_update (\<lambda>_. ty))))) m'
    (\<lambda>_. touched m idx)"
proof (intro runs_to_case_option runs_to_ok)
  fix kind
  let ?ty = "map_kind render kind (item_text (mapped_items m' ! idx)) None"
  have "runs_to (case ?ty of None \<Rightarrow> ok ()
      | Some ty \<Rightarrow> and_then (of_result (reject_fatal ty)) (\<lambda>_. set_item idx (item_type_update (\<lambda>_. ty)))) m' (\<lambda>_. touched m idx)"
    using assms
    by (intro runs_to_case_option runs_to_ok runs_to_result_then [OF reject_public] touched_set)
      (auto dest: map_kind_public)
  then show "runs_to (and_then (item_at idx) (\<lambda>it. case map_kind render kind (item_text it) None of
           None \<Rightarrow> ok ()
         | Some ty \<Rightarrow> and_then (of_result (reject_fatal ty)) (\<lambda>_. set_item idx (item_type_update (\<lambda>_. ty))))) m'
    (\<lambda>_. touched m idx)"
    using touched_item [OF assms] by (simp add: runs_to_def and_then_run item_at_run)
qed (rule assms)

lemma update_known_tool_ok:
  assumes "mapper_ok m" "idx < length (mapped_items m)"
  shows "runs_to (update_known_tool render idx u) m (emits m)"
  unfolding update_known_tool_def
  by (rule runs_to_and_then [OF optional_set_ok [OF touched_refl [OF assms]]], simp add: item_ok_def,
      rule runs_to_and_then [OF optional_set_ok], assumption, simp add: item_ok_def,
      rule runs_to_and_then [OF retype_ok], assumption, rule emit_item_at)

lemma apply_tool_update_ok: "mapper_ok m \<Longrightarrow> runs_to (apply_tool_update render u) m (emits m)"
proof (cases "map_of (mapped_tools m) (sanitize_id (update_id u))")
  case (Some idx)
  moreover assume "mapper_ok m"
  ultimately have "runs_to (update_known_tool render idx u) m (emits m)"
    using mapper_okD(1) by (intro update_known_tool_ok) auto
  then show ?thesis using Some by (simp add: runs_to_def apply_tool_update_def)
next
  case None
  assume m: "mapper_ok m"
  let ?k = "case update_kind u of None \<Rightarrow> Other | Some k \<Rightarrow> k" and ?t = "case update_title u of None \<Rightarrow> [] | Some t \<Rightarrow> t"
  have "runs_to (case map_kind render ?k ?t None of None \<Rightarrow> ok [] | Some ty \<Rightarrow>
      and_then (of_result (reject_fatal ty)) (\<lambda>_. let it = \<lparr>item_id = sanitize_id (update_id u), item_type = ty,
           item_text = ?t, item_status = item_status_of (update_status u)\<rparr> in
         and_then (store_tool (sanitize_id (update_id u)) it) (\<lambda>stored. ok [stored]))) m (emits m)"
    unfolding Let_def using m
    by (intro runs_to_case_option runs_to_ok runs_to_result_then [OF reject_public] store_tool_ok)
      (auto simp: emits_none item_ok_def sanitize_id_valid dest: map_kind_public)
  then show ?thesis
    using None by (auto simp: runs_to_def apply_tool_update_def Let_def split: option.splits)
qed

lemma fixed_ids_valid [simp]: "valid_id AGENT_ITEM_ID" "valid_id PLAN_ITEM_ID" "valid_id USER_ITEM_ID"
  by (simp_all add: mapper_constants valid_id_def id_char_def is_ascii_alphanumeric_def byte_of_def)

lemma public_types [simp]: "ITEM_AGENT_MESSAGE \<in> set PUBLIC_ITEM_TYPES" "ITEM_PLAN \<in> set PUBLIC_ITEM_TYPES"
  "ITEM_USER_MESSAGE \<in> set PUBLIC_ITEM_TYPES"
  by (simp_all add: PUBLIC_ITEM_TYPES_def)

text \<open>The fixed items: appended when missing, changed in place otherwise, and found again.\<close>

lemma find_after_update: "position P xs = Some n \<Longrightarrow> P y \<Longrightarrow> List.find P (xs[n := y]) = Some y"
  by (induction xs arbitrary: n) (auto split: if_splits)

lemma find_after_push: "position P xs = None \<Longrightarrow> P y \<Longrightarrow> List.find P (xs @ [y]) = Some y"
  by (induction xs) (auto split: if_splits)

lemma fixed_item_ok:
  assumes "mapper_ok m" "item_id it = i" "item_ok it"
    and "\<And>x. item_id (f x) = item_id x \<and> item_type (f x) = item_type x"
  shows "runs_to (and_then (\<lambda>m. case position (\<lambda>it. item_id it = i) (mapped_items m) of
      Some idx \<Rightarrow> set_item idx f m | None \<Rightarrow> push_item it m)
      (\<lambda>_. and_then (item_by_id i) (\<lambda>it. ok [it]))) m (emits m)"
proof (cases "position (\<lambda>it. item_id it = i) (mapped_items m)")
  case None
  then show ?thesis using assms
    by (simp add: runs_to_def wp push_item_run item_by_id_def find_after_push mapper_ok_push emits_def one_change_def)
next
  case (Some idx)
  then have idx: "idx < length (mapped_items m)" "item_id (mapped_items m ! idx) = i"
    by (auto dest: position_Some)
  then have "mapper_ok (m\<lparr>mapped_items := (mapped_items m)[idx := f (mapped_items m ! idx)]\<rparr>)"
    using assms(1,4) mapper_okD(3) [OF assms(1)] by (intro mapper_ok_set) (auto simp: item_ok_def)
  then show ?thesis using Some idx assms(4)
    by (auto simp: runs_to_def wp set_item_run item_by_id_def find_after_update emits_def one_change_def)
qed

lemma apply_update_ok: "mapper_ok m \<Longrightarrow> runs_to (apply_update render u) m (emits m)"
proof (induction render u rule: apply_update.induct)
  case (2 render t)
  show ?case
    using fixed_item_ok [OF "2", of "\<lparr>item_id = AGENT_ITEM_ID, item_type = ITEM_AGENT_MESSAGE,
        item_text = t, item_status = ITEM_STATUS_IN_PROGRESS\<rparr>" AGENT_ITEM_ID "item_text_update (\<lambda>x. x @ t)"]
    by (simp add: upsert_agent_def [abs_def] item_ok_def)
next
  case (3 render entries)
  show ?case
    using fixed_item_ok [OF "3", of "\<lparr>item_id = PLAN_ITEM_ID, item_type = ITEM_PLAN,
        item_text = join_with [newline] entries, item_status = ITEM_STATUS_IN_PROGRESS\<rparr>" PLAN_ITEM_ID
        "item_text_update (\<lambda>_. join_with [newline] entries)"]
    by (simp add: upsert_plan_def [abs_def] Let_def item_ok_def)
qed (simp_all add: runs_to_ok emits_none apply_tool_call_ok apply_tool_update_ok)

end
