(* ===== verification/Agent.thy ===== *)
theory Agent
  imports Facade Mapper
begin

text \<open>
  \<^verbatim>\<open>crates/adapter-grok/src/turn.rs\<close>, the parts around a turn's main course: the adapter's errors,
  which permission option a decision selects, the files an agent may touch, how a prompt's stop
  reason ends the turn, the effort of the previous turn, and the files git reports as changed.
\<close>

section \<open>Errors\<close>

datatype adapter_error =
    LaunchFailed launch_error
  | LedgerFailed ledger_error
  | SpawnFailed string
  | Acp string
  | Excluded string

fun display_adapter_error :: "host \<Rightarrow> adapter_error \<Rightarrow> string" where
  "display_adapter_error host (LaunchFailed e) = display_launch_error host e"
| "display_adapter_error host (LedgerFailed e) = display_ledger_error host e"
| "display_adapter_error host (SpawnFailed text) = text"
| "display_adapter_error host (Acp text) = text"
| "display_adapter_error host (Excluded text) = text"

definition PERSIST_FAIL_SENTINEL :: string where
  "PERSIST_FAIL_SENTINEL = ''.gamchi-fail-set-acp-session-id''"

text \<open>\<open>exists\<close> is \<open>Path::exists\<close>.\<close>

definition inject_persist_failure :: "(string \<Rightarrow> bool) \<Rightarrow> agent_command \<Rightarrow> string \<Rightarrow> bool" where
  "inject_persist_failure exists command cwd \<longleftrightarrow>
     (case command of Override _ _ \<Rightarrow> exists (path_join cwd PERSIST_FAIL_SENTINEL) | Grok _ \<Rightarrow> False)"

section \<open>Permissions\<close>

datatype option_kind = AllowOnce | AllowAlways | RejectOnce | RejectAlways | Unnamed_option nat

record permission_option =
  option_id :: string
  option_kind :: option_kind

datatype permission_outcome = Selected string | Cancelled

fun preferred_kinds :: "approval_decision \<Rightarrow> option_kind list option" where
  "preferred_kinds Accept = Some [AllowOnce, AllowAlways]"
| "preferred_kinds AcceptForSession = Some [AllowAlways, AllowOnce]"
| "preferred_kinds Decline = Some [RejectOnce, RejectAlways]"
| "preferred_kinds Cancel = None"

definition decision_option :: "permission_option list \<Rightarrow> approval_decision \<Rightarrow> string option" where
  "decision_option options decision =
     (case preferred_kinds decision of
        None \<Rightarrow> None
      | Some preferred \<Rightarrow>
          find_map (\<lambda>want. map_option option_id (List.find (\<lambda>opt. option_kind opt = want) options)) preferred)"

definition allow_option :: "permission_option list \<Rightarrow> permission_option option" where
  "allow_option options = List.find (\<lambda>opt. option_kind opt = AllowAlways \<or> option_kind opt = AllowOnce) options"

section \<open>Paths\<close>

text \<open>\<open>Path::components\<close> on Unix: empty pieces and inner dots vanish, a leading dot stays.\<close>

datatype component = RootDir | CurDir | ParentDir | Normal string

definition component_of :: "string \<Rightarrow> component list" where
  "component_of piece =
     (if piece = [] \<or> piece = ''.'' then [] else if piece = ''..'' then [ParentDir] else [Normal piece])"

definition components :: "string \<Rightarrow> component list" where
  "components path =
     (let pieces = split_on CHR ''/'' path; body = concat (map component_of pieces) in
      if is_absolute path then RootDir # body
      else if hd pieces = ''.'' then CurDir # body
      else body)"

text \<open>A \<open>PathBuf\<close> under construction: whether it has a root, and its names.\<close>

record path_buf =
  rooted :: bool
  names :: "string list"

fun push_component :: "component \<Rightarrow> path_buf \<Rightarrow> path_buf" where
  "push_component RootDir out = \<lparr>rooted = True, names = []\<rparr>"
| "push_component CurDir out = out"
| "push_component ParentDir out = out\<lparr>names := butlast (names out)\<rparr>"
| "push_component (Normal n) out = out\<lparr>names := names out @ [n]\<rparr>"

definition buf_of :: "component list \<Rightarrow> path_buf" where
  "buf_of cs = fold push_component cs \<lparr>rooted = False, names = []\<rparr>"

definition path_text :: "path_buf \<Rightarrow> string" where
  "path_text b = (if rooted b then ''/'' else []) @ join_with ''/'' (names b)"

definition path_starts_with :: "path_buf \<Rightarrow> component list \<Rightarrow> bool" where
  "path_starts_with b cs \<longleftrightarrow>
     (let own = (if rooted b then [RootDir] else []) @ map Normal (names b) in
      take (length cs) own = cs)"

datatype file_error = PermissionDenied | FileError string

text \<open>\<open>canonical\<close> is the outcome of \<open>cwd.canonicalize()\<close>.\<close>

definition confined :: "string + string \<Rightarrow> string \<Rightarrow> file_error + path_buf" where
  "confined canonical path =
     (case canonical of
        Inl e \<Rightarrow> Inl (FileError e)
      | Inr root \<Rightarrow>
          (let joined = (if is_absolute path then path else path_join root path);
               out = buf_of (components joined) in
           if path_starts_with out (components root) then Inr out else Inl PermissionDenied))"

section \<open>Stop reasons\<close>

datatype stop_reason_kind = EndTurn | StopCancelled | Refusal | MaxTokens | MaxTurnRequests | Unnamed_stop nat

fun stop_reason_str :: "stop_reason_kind \<Rightarrow> string" where
  "stop_reason_str EndTurn = ''end_turn''"
| "stop_reason_str StopCancelled = ''cancelled''"
| "stop_reason_str Refusal = ''refusal''"
| "stop_reason_str MaxTokens = ''max_tokens''"
| "stop_reason_str MaxTurnRequests = ''max_turn_requests''"
| "stop_reason_str (Unnamed_stop _) = ''unknown''"

section \<open>The effort of the previous turn\<close>

definition newer :: "u64 \<Rightarrow> turn \<Rightarrow> (u64 \<times> string \<times> string) option \<Rightarrow> bool" where
  "newer started t best =
     (case best of
        None \<Rightarrow> True
      | Some (epoch, i, _) \<Rightarrow> started > epoch \<or> (started = epoch \<and> turn_id t > i))"

fun best_effort :: "string \<Rightarrow> turn list \<Rightarrow> (u64 \<times> string \<times> string) option \<Rightarrow> (u64 \<times> string \<times> string) option ledger_action" where
  "best_effort th [] best = ok best"
| "best_effort th (t # ts) best =
     (if turn_thread_id t \<noteq> th then best_effort th ts best
      else
        and_then (read_generation (turn_generation_id t)) (\<lambda>g.
          best_effort th ts
            (if newer (started_epoch g) t best then Some (started_epoch g, turn_id t, turn_effort t) else best)))"

definition previous_turn_effort :: "nat \<Rightarrow> string \<Rightarrow> string ledger_action" where
  "previous_turn_effort self th =
     and_then (list_turns self None) (\<lambda>ts.
     and_then (best_effort th ts None) (\<lambda>best.
     ok (case best of None \<Rightarrow> [] | Some (_, _, effort) \<Rightarrow> effort)))"

section \<open>Git\<close>

text \<open>
  The outcome of running git: whether it exited successfully, and its output; \<open>None\<close> when it could
  not be run. \<open>utf8\<close> is \<open>String::from_utf8\<close>, \<open>lossy\<close> is \<open>from_utf8_lossy\<close>. A working directory
  is text here, so \<open>to_str\<close> is its identity.
\<close>

type_synonym git_output = "(bool \<times> string) option"

definition git_head :: "(string \<Rightarrow> string option) \<Rightarrow> git_output \<Rightarrow> string option" where
  "git_head utf8 out =
     (case out of
        None \<Rightarrow> None
      | Some (success, stdout) \<Rightarrow>
          if \<not> success then None
          else case utf8 stdout of
            None \<Rightarrow> None
          | Some s \<Rightarrow> if trim s = [] then None else Some (trim s))"

definition git_files_changed ::
  "(string \<Rightarrow> string) \<Rightarrow> string option \<Rightarrow> (string \<Rightarrow> git_output) \<Rightarrow> string list \<times> bool" where
  "git_files_changed lossy start_head diff =
     (case start_head of
        None \<Rightarrow> ([], False)
      | Some head \<Rightarrow>
          (case diff head of
             Some (True, stdout) \<Rightarrow> (filter (\<lambda>l. l \<noteq> []) (lines (lossy stdout)), True)
           | _ \<Rightarrow> ([], False)))"

section \<open>Facts\<close>

definition real_name :: "string \<Rightarrow> bool" where
  "real_name n \<longleftrightarrow> n \<noteq> [] \<and> n \<noteq> ''.'' \<and> n \<noteq> ''..'' \<and> CHR ''/'' \<notin> set n"

lemma split_on_pieces: "p \<in> set (split_on d s) \<Longrightarrow> d \<notin> set p"
proof (induction s arbitrary: p)
  case (Cons c s)
  then show ?case by (cases "split_on d s") (auto split: if_splits)
qed simp

lemma components_names: "Normal n \<in> set (components path) \<Longrightarrow> real_name n"
proof -
  assume "Normal n \<in> set (components path)"
  then obtain p where "p \<in> set (split_on CHR ''/'' path)" "Normal n \<in> set (component_of p)"
    by (auto simp: components_def Let_def split: if_splits)
  then show ?thesis using split_on_pieces by (auto simp: component_of_def real_name_def split: if_splits)
qed

lemma fold_push_names:
  "list_all real_name (names out) \<Longrightarrow> (\<And>n. Normal n \<in> set cs \<Longrightarrow> real_name n) \<Longrightarrow>
     list_all real_name (names (fold push_component cs out))"
proof (induction cs arbitrary: out)
  case (Cons c cs)
  have "list_all real_name (names (push_component c out))"
    using Cons.prems by (cases c) (auto simp: list_all_iff dest: in_set_butlastD)
  then show ?case using Cons.IH [of "push_component c out"] Cons.prems(2) by simp
qed simp

lemma fold_push_rooted: "rooted out \<Longrightarrow> rooted (fold push_component cs out)"
proof (induction cs arbitrary: out)
  case (Cons c cs)
  then show ?case by (cases c) auto
qed simp

lemma components_absolute: "is_absolute path \<Longrightarrow> \<exists>cs. components path = RootDir # cs"
  by (simp add: components_def Let_def)

lemma path_join_is_absolute: "is_absolute a \<Longrightarrow> is_absolute (path_join a b)"
  by (rule path_join_absolute)

text \<open>C13: whatever path an agent asks for, a path it gets is rooted, has no parent or dot components left in it, and
  continues the names of the canonical working directory; a path that climbs out of it is refused as permission
  denied.\<close>

theorem confined_stays_inside:
  assumes "is_absolute root"
  shows "case confined (Inr root) path of
      Inr out \<Rightarrow> rooted out \<and> list_all real_name (names out) \<and> (\<exists>below. map Normal (names out) = tl (components root) @ below)
    | Inl e \<Rightarrow> e = PermissionDenied"
proof -
  let ?joined = "if is_absolute path then path else path_join root path"
  let ?out = "buf_of (components ?joined)"
  have "is_absolute ?joined" using assms by (simp add: path_join_is_absolute)
  then obtain cs where cs: "components ?joined = RootDir # cs" using components_absolute by blast
  have names: "list_all real_name (names ?out)"
    unfolding buf_of_def by (rule fold_push_names) (auto dest: components_names)
  have root: "rooted ?out" unfolding buf_of_def cs by (simp add: fold_push_rooted)
  obtain rs where rs: "components root = RootDir # rs" using components_absolute [OF assms] by blast
  show ?thesis
  proof (cases "path_starts_with ?out (components root)")
    case True
    then have "take (length rs) (map Normal (names ?out)) = rs"
      using root by (simp add: path_starts_with_def rs Let_def)
    then have "map Normal (names ?out) = rs @ drop (length rs) (map Normal (names ?out))"
      by (metis append_take_drop_id)
    then show ?thesis using True names root by (auto simp: confined_def Let_def rs)
  next
    case False
    then show ?thesis by (simp add: confined_def Let_def)
  qed
qed

theorem confined_stays_inside_witness:
  "is_absolute ''/w'' \<and> confined (Inr ''/w'') ''a/../b'' = Inr \<lparr>rooted = True, names = [''w'', ''b'']\<rparr>
   \<and> confined (Inr ''/w'') ''../secret'' = Inl PermissionDenied"
proof -
  have eval: "confined (Inr ''/w'') ''a/../b'' = Inr \<lparr>rooted = True, names = [''w'', ''b'']\<rparr>"
    by code_simp
  have "confined (Inr ''/w'') ''../secret'' \<noteq> Inr out" for out by code_simp
  moreover have abs: "is_absolute ''/w''" by code_simp
  ultimately have "confined (Inr ''/w'') ''../secret'' = Inl PermissionDenied"
    using confined_stays_inside [of "''/w''" "''../secret''"]
    by (cases "confined (Inr ''/w'') ''../secret''") auto
  with eval abs show ?thesis by blast
qed



end
