(* ===== verification/RunTurn.thy ===== *)
theory RunTurn
  imports Agent
begin

text \<open>
  \<^verbatim>\<open>crates/adapter-grok/src/turn.rs\<close>, the course of one turn: from the request over admission and
  the start of the agent process to the prompt's end.

  The agent is a script: what it sends while the client waits for each of its three replies, and
  the replies. The handlers of the connection run one at a time, in the order of arrival. What
  other threads and other processes do in between is an event of its own (\<open>Others\<close>), as is the
  moment at which the task behind a parked permission gets its decision (\<open>Decide\<close>).
\<close>

section \<open>The connection\<close>

record shared =
  sh_mapper :: mapper
  sh_fatal :: "string option"
  sh_history :: bool

text \<open>The fields of \<open>Shared\<close> that never change, and what the handlers capture.\<close>

record turn_ctx =
  ctx_host :: host
  ctx_self :: nat
  ctx_home :: string
  ctx_turn :: string
  ctx_thread :: string
  ctx_load_session :: "string option"
  ctx_instructions :: string
  ctx_approval :: approval_policy
  ctx_inject_persist_failure :: bool
  ctx_cwd :: string
  ctx_canonical_cwd :: "string + string"
  ctx_prompt :: string

datatype acp_answer =
    WriteDone
  | WriteRefused file_error
  | ReadBody string
  | ReadRefused
  | PermissionAnswer permission_outcome

datatype acp_request =
    Initialize
  | LoadSession string string
  | NewSession string "(string \<times> json) list option"
  | Prompt string string

record conn =
  the_sys :: sys
  shared :: shared
  gated :: "(permission_option list \<times> string) list"
  requests :: "acp_request list"
  answers :: "acp_answer list"
  files :: "(path_buf \<times> string) list"
  file_fault :: "path_buf \<Rightarrow> string option"

datatype event =
    Update session_update
  | WriteTextFile string string
  | ReadTextFile string
  | RequestPermission "permission_option list"
  | Decide nat "(ledger \<Rightarrow> ledger) list"
  | Others "sys \<Rightarrow> sys"

text \<open>A ledger call of the adapter.\<close>

definition ledger_call :: "turn_ctx \<Rightarrow> 'a ledger_action \<Rightarrow> (conn, ledger_error, 'a) action" where
  "ledger_call ctx m c =
     (case in_home (ctx_home ctx) m (the_sys c) of (r, s) \<Rightarrow> (r, c\<lparr>the_sys := s\<rparr>))"

definition try_call :: "turn_ctx \<Rightarrow> 'a ledger_action \<Rightarrow> conn \<Rightarrow> conn" where
  "try_call ctx m c = snd (ledger_call ctx m c)"

definition fail_turn :: "turn_ctx \<Rightarrow> string \<Rightarrow> conn \<Rightarrow> conn" where
  "fail_turn ctx reason = try_call ctx (publish_terminal (ctx_self ctx) (ctx_turn ctx) Failed [] reason)"

definition answer :: "acp_answer \<Rightarrow> conn \<Rightarrow> conn" where
  "answer a c = c\<lparr>answers := answers c @ [a]\<rparr>"

section \<open>Handlers\<close>

definition upsert_items :: "turn_ctx \<Rightarrow> item list \<Rightarrow> conn \<Rightarrow> conn" where
  "upsert_items ctx its = fold (\<lambda>it. try_call ctx (upsert_item (ctx_self ctx) (ctx_turn ctx) it)) its"

text \<open>The mapper does not panic on a well-formed state; the branch is there for completeness.\<close>

definition apply_notification :: "turn_ctx \<Rightarrow> session_update \<Rightarrow> conn \<Rightarrow> conn" where
  "apply_notification ctx u c =
     (if sh_history (shared c) then c
      else case apply_update (json_to_text (ctx_host ctx)) u (sh_mapper (shared c)) of
        (Inr its, m) \<Rightarrow> upsert_items ctx its (c\<lparr>shared := (shared c)\<lparr>sh_mapper := m\<rparr>\<rparr>)
      | (Inl (ExcludedFatal ty), m) \<Rightarrow> c\<lparr>shared := (shared c)\<lparr>sh_mapper := m, sh_fatal := Some ty\<rparr>\<rparr>
      | (Inl Panic, m) \<Rightarrow> c\<lparr>shared := (shared c)\<lparr>sh_mapper := m\<rparr>\<rparr>)"

definition write_text_file :: "turn_ctx \<Rightarrow> string \<Rightarrow> string \<Rightarrow> conn \<Rightarrow> (file_error + unit) \<times> conn" where
  "write_text_file ctx path content c =
     (case confined (ctx_canonical_cwd ctx) path of
        Inl e \<Rightarrow> (Inl e, c)
      | Inr file \<Rightarrow>
          (case file_fault c file of
             Some e \<Rightarrow> (Inl (FileError e), c)
           | None \<Rightarrow> (Inr (), c\<lparr>files := AList.update file content (files c)\<rparr>)))"

definition read_text_file :: "turn_ctx \<Rightarrow> string \<Rightarrow> conn \<Rightarrow> file_error + string" where
  "read_text_file ctx path c =
     (case confined (ctx_canonical_cwd ctx) path of
        Inl e \<Rightarrow> Inl e
      | Inr file \<Rightarrow>
          (case file_fault c file of
             Some e \<Rightarrow> Inl (FileError e)
           | None \<Rightarrow> (case map_of (files c) file of None \<Rightarrow> Inl (FileError ''not found'') | Some body \<Rightarrow> Inr body)))"

text \<open>
  A handler that fails answers its request with the error. Should the protocol crate end the
  connection over it, the reply the client waits for is an error, which a script may also give.
\<close>

definition on_write :: "turn_ctx \<Rightarrow> string \<Rightarrow> string \<Rightarrow> conn \<Rightarrow> conn" where
  "on_write ctx path content c =
     (case write_text_file ctx path content c of
        (Inl e, c') \<Rightarrow> answer (WriteRefused e) c'
      | (Inr _, c') \<Rightarrow> answer WriteDone c')"

definition on_read :: "turn_ctx \<Rightarrow> string \<Rightarrow> conn \<Rightarrow> conn" where
  "on_read ctx path c =
     (case read_text_file ctx path c of
        Inr body \<Rightarrow> answer (ReadBody body) c
      | Inl PermissionDenied \<Rightarrow> answer ReadRefused c
      | Inl (FileError _) \<Rightarrow> answer (ReadBody []) c)"

definition auto_allow_permission :: "permission_option list \<Rightarrow> conn \<Rightarrow> conn" where
  "auto_allow_permission options c =
     (case allow_option options of
        Some opt \<Rightarrow> answer (PermissionAnswer (Selected (option_id opt))) c
      | None \<Rightarrow>
          answer (PermissionAnswer Cancelled)
            (c\<lparr>shared := (shared c)\<lparr>sh_fatal := Some ''session/request_permission without allow option''\<rparr>\<rparr>))"

definition on_permission :: "turn_ctx \<Rightarrow> permission_option list \<Rightarrow> conn \<Rightarrow> conn" where
  "on_permission ctx options c =
     (if sh_history (shared c) then answer (PermissionAnswer Cancelled) c
      else if ctx_approval ctx = Never then auto_allow_permission options c
      else case ledger_call ctx (park_approval (ctx_self ctx) (ctx_turn ctx)) c of
        (Inl e, c') \<Rightarrow> answer (PermissionAnswer Cancelled) c'
      | (Inr parked, c') \<Rightarrow> c'\<lparr>gated := gated c' @ [(options, pending_request_id parked)]\<rparr>)"

text \<open>
  \<open>finish_gated_permission\<close>: the wait runs under a schedule of what happens between its polls.
  A schedule that ends while it still waits is not yet the event, and changes nothing.
\<close>

definition finish_gated_permission ::
  "turn_ctx \<Rightarrow> permission_option list \<Rightarrow> string \<Rightarrow> (ledger \<Rightarrow> ledger) list \<Rightarrow> conn \<Rightarrow> (permission_outcome \<times> conn) option" where
  "finish_gated_permission ctx options request sched c =
     (let s = the_sys c; h = ctx_home ctx in
      case wait_pending_decision (ctx_self ctx) (ctx_turn ctx) request sched (homes s h) of
        None \<Rightarrow> None
      | Some (r, l) \<Rightarrow>
          (let c' = try_call ctx (clear_pending (ctx_self ctx) (ctx_turn ctx) request)
                      (c\<lparr>the_sys := s\<lparr>homes := (homes s)(h := l)\<rparr>\<rparr>) in
           Some (case r of
                   Inr (Some decision) \<Rightarrow>
                     (case decision_option options decision of Some i \<Rightarrow> Selected i | None \<Rightarrow> Cancelled)
                 | _ \<Rightarrow> Cancelled, c')))"

definition on_decide :: "turn_ctx \<Rightarrow> nat \<Rightarrow> (ledger \<Rightarrow> ledger) list \<Rightarrow> conn \<Rightarrow> conn" where
  "on_decide ctx k sched c =
     (if k < length (gated c) then
        (case finish_gated_permission ctx (fst (gated c ! k)) (snd (gated c ! k)) sched c of
           None \<Rightarrow> c
         | Some (out, c') \<Rightarrow>
             answer (PermissionAnswer out) (c'\<lparr>gated := take k (gated c') @ drop (Suc k) (gated c')\<rparr>))
      else c)"

fun on_event :: "turn_ctx \<Rightarrow> event \<Rightarrow> conn \<Rightarrow> conn" where
  "on_event ctx (Update u) = apply_notification ctx u"
| "on_event ctx (WriteTextFile path content) = on_write ctx path content"
| "on_event ctx (ReadTextFile path) = on_read ctx path"
| "on_event ctx (RequestPermission options) = on_permission ctx options"
| "on_event ctx (Decide k sched) = on_decide ctx k sched"
| "on_event ctx (Others f) = (\<lambda>c. c\<lparr>the_sys := f (the_sys c)\<rparr>)"

definition receive :: "turn_ctx \<Rightarrow> event list \<Rightarrow> conn \<Rightarrow> conn" where
  "receive ctx evs = fold (on_event ctx) evs"

section \<open>The prompt\<close>

text \<open>An error of the protocol crate is its text; \<open>internal_text\<close> is that of an internal error.\<close>

record agent_script =
  init_events :: "event list"
  init_reply :: "string + bool"
  session_events :: "event list"
  load_reply :: "string + unit"
  new_reply :: "string + string"
  prompt_events :: "event list"
  prompt_reply :: "string + stop_reason_kind"
  internal_text :: "string \<Rightarrow> string"

definition send_request :: "acp_request \<Rightarrow> (conn, string, unit) action" where
  "send_request r = modify (\<lambda>c. c\<lparr>requests := requests c @ [r]\<rparr>)"

text \<open>Send a request, handle what arrives before the reply, return the reply.\<close>

definition exchange :: "turn_ctx \<Rightarrow> acp_request \<Rightarrow> event list \<Rightarrow> string + 'a \<Rightarrow> (conn, string, 'a) action" where
  "exchange ctx r evs reply =
     and_then (send_request r) (\<lambda>_. and_then (modify (receive ctx evs)) (\<lambda>_. of_result reply))"

definition set_history :: "bool \<Rightarrow> conn \<Rightarrow> conn" where
  "set_history b c = c\<lparr>shared := (shared c)\<lparr>sh_history := b\<rparr>\<rparr>"

definition load_session :: "turn_ctx \<Rightarrow> ('x) agent_script_scheme \<Rightarrow> string \<Rightarrow> bool \<Rightarrow> (conn, string, string) action" where
  "load_session ctx w sid advertised =
     (if \<not> advertised then
        and_then (modify (fail_turn ctx ''loadSession not advertised'')) (\<lambda>_.
        err (internal_text w ''loadSession not advertised''))
      else
        and_then (modify (set_history True)) (\<lambda>_.
        match_result (exchange ctx (LoadSession sid (ctx_cwd ctx)) (session_events w) (load_reply w))
          (\<lambda>e. and_then (modify (set_history False)) (\<lambda>_.
               and_then (modify (fail_turn ctx ''session/load failed'')) (\<lambda>_. err e)))
          (\<lambda>_. and_then (modify (set_history False)) (\<lambda>_. ok sid))))"

definition session_meta :: "string \<Rightarrow> (string \<times> json) list option" where
  "session_meta instructions = (if instructions = [] then None else Some [(''rules'', JStr instructions)])"

definition new_session :: "turn_ctx \<Rightarrow> ('x) agent_script_scheme \<Rightarrow> (conn, string, string) action" where
  "new_session ctx w =
     and_then (exchange ctx (NewSession (ctx_cwd ctx) (session_meta (ctx_instructions ctx))) (session_events w) (new_reply w)) (\<lambda>sid.
       if ctx_inject_persist_failure ctx then
         and_then (modify (fail_turn ctx ''ACP session id persistence failed'')) (\<lambda>_.
         err (internal_text w ''ACP session id persistence failed''))
       else
         match_result (ledger_call ctx (set_acp_session_id (ctx_self ctx) (ctx_thread ctx) sid))
           (\<lambda>e. and_then (modify (fail_turn ctx ''ACP session id persistence failed'')) (\<lambda>_.
                err (internal_text w (display_ledger_error (ctx_host ctx) e))))
           (\<lambda>_. ok sid))"

definition finish_message :: "turn_ctx \<Rightarrow> conn \<Rightarrow> conn" where
  "finish_message ctx c =
     (case finish_agent_message (sh_mapper (shared c)) of
        (Inr (Some it), m) \<Rightarrow> upsert_items ctx [it] (c\<lparr>shared := (shared c)\<lparr>sh_mapper := m\<rparr>\<rparr>)
      | (_, m) \<Rightarrow> c\<lparr>shared := (shared c)\<lparr>sh_mapper := m\<rparr>\<rparr>)"

definition drive_prompt :: "turn_ctx \<Rightarrow> ('x) agent_script_scheme \<Rightarrow> (conn, string, stop_reason_kind) action" where
  "drive_prompt ctx w =
     and_then (exchange ctx Initialize (init_events w) (init_reply w)) (\<lambda>advertised.
     and_then (case ctx_load_session ctx of
                 Some sid \<Rightarrow> load_session ctx w sid advertised
               | None \<Rightarrow> new_session ctx w) (\<lambda>sid.
     and_then (exchange ctx (Prompt sid (ctx_prompt ctx)) (prompt_events w) (prompt_reply w)) (\<lambda>stop.
     and_then (modify (finish_message ctx)) (\<lambda>_.
     ok stop))))"

section \<open>The end of a turn\<close>

definition publish_stop :: "turn_ctx \<Rightarrow> stop_reason_kind \<Rightarrow> (conn, adapter_error, turn) action" where
  "publish_stop ctx stop c =
     (case sh_fatal (shared c) of
        Some fatal \<Rightarrow>
          with_err LedgerFailed (ledger_call ctx (publish_terminal (ctx_self ctx) (ctx_turn ctx) Failed [] fatal)) c
      | None \<Rightarrow>
          (let stop_s = stop_reason_str stop; status = map_stop_reason stop_s;
               failure = (if status = Failed then stop_s else []) in
           with_err LedgerFailed (ledger_call ctx (publish_terminal (ctx_self ctx) (ctx_turn ctx) status stop_s failure)) c))"

record turn_outcome =
  out_turn :: turn
  files_changed :: "string list"
  files_changed_complete :: bool

record turn_world = agent_script +
  after_admit :: "sys \<Rightarrow> sys"
  spawn_reply :: "string + u32"
  after_spawn :: "sys \<Rightarrow> sys"
  at_end :: "sys \<Rightarrow> sys"
  path_exists :: "string \<Rightarrow> bool"
  canonicalize :: "string \<Rightarrow> string + string"
  head_output :: git_output
  diff_output :: "string \<Rightarrow> git_output"
  from_utf8 :: "string \<Rightarrow> string option"
  from_utf8_lossy :: "string \<Rightarrow> string"
  workspace :: "(path_buf \<times> string) list"
  workspace_fault :: "path_buf \<Rightarrow> string option"

definition finish_turn :: "turn_ctx \<Rightarrow> turn_world \<Rightarrow> stop_reason_kind \<Rightarrow> (conn, adapter_error, turn_outcome) action" where
  "finish_turn ctx w stop =
     and_then
       (match_result (ledger_call ctx (read_turn (ctx_turn ctx)))
          (\<lambda>_. publish_stop ctx stop)
          (\<lambda>t. if is_terminal (turn_status t) then ok t else publish_stop ctx stop)) (\<lambda>t c.
       case sh_fatal (shared c) of
         Some fatal \<Rightarrow> err (Excluded (''turn '' @ turn_id t @ '' failed: '' @ fatal)) c
       | None \<Rightarrow>
           (let (names, complete) =
              git_files_changed (from_utf8_lossy w) (git_head (from_utf8 w) (head_output w)) (diff_output w) in
            ok \<lparr>out_turn = t, files_changed = names, files_changed_complete = complete\<rparr> c))"

section \<open>Before the agent runs\<close>

definition adapter_call :: "string \<Rightarrow> 'a ledger_action \<Rightarrow> (adapter_error, 'a) sys_action" where
  "adapter_call h m = with_err LedgerFailed (in_home h m)"

definition resolved :: "resolve_error + 'a \<Rightarrow> adapter_error + 'a" where
  "resolved r = map_err (\<lambda>e. LaunchFailed (launch_error_of e)) r"

type_synonym chosen = "wire_thread \<times> string option \<times> string \<times> string"

definition choose_follow_up :: "nat \<Rightarrow> string \<Rightarrow> turn_request \<Rightarrow> home_defaults \<Rightarrow> string \<Rightarrow> bool \<Rightarrow> (adapter_error, chosen) sys_action" where
  "choose_follow_up self h req d i load =
     and_then (adapter_call h (read_thread i)) (\<lambda>th.
       if load \<and> acp_session_id th = [] then err (Acp ''follow-up requires a stored ACP session id'')
       else
         and_then (adapter_call h (previous_turn_effort self (thread_id th))) (\<lambda>previous.
         and_then (of_result (resolved (resolve_follow_up (tr_model req) (tr_effort req) (thread_model th) previous d))) (\<lambda>(model, effort).
         ok (th, if load then Some (acp_session_id th) else None, model, effort))))"

definition choose_first :: "nat \<Rightarrow> string \<Rightarrow> turn_request \<Rightarrow> home_defaults \<Rightarrow> (adapter_error, chosen) sys_action" where
  "choose_first self h req d =
     and_then (of_result (resolved (resolve_first_turn (tr_model req) (tr_effort req) d))) (\<lambda>(model, effort).
     and_then (adapter_call h (create_thread self
         \<lparr>nt_cwd = tr_cwd req, nt_model = model, nt_sandbox = tr_sandbox req, nt_approval_policy = tr_approval req,
          nt_developer_instructions = [], nt_acp_session_id = []\<rparr>)) (\<lambda>th.
     ok (th, None, model, effort)))"

definition choose_thread :: "nat \<Rightarrow> string \<Rightarrow> turn_request \<Rightarrow> home_defaults \<Rightarrow> (adapter_error, chosen) sys_action" where
  "choose_thread self h req d =
     (case tr_follow_up_thread_id req of
        Some i \<Rightarrow> choose_follow_up self h req d i True
      | None \<Rightarrow>
          (case tr_reuse_thread_id req of
             Some i \<Rightarrow> choose_follow_up self h req d i False
           | None \<Rightarrow> choose_first self h req d))"

definition plan_of :: "turn_request \<Rightarrow> string \<Rightarrow> string \<Rightarrow> adapter_error + launch_plan" where
  "plan_of req model effort =
     (case tr_command req of
        Grok program \<Rightarrow>
          map_err LaunchFailed (plan_launch
            \<lparr>req_program = program, req_cwd = tr_cwd req, req_approval = tr_approval req, req_sandbox = tr_sandbox req,
             req_extra = tr_extra req, req_model = model, req_effort = effort\<rparr>)
      | Override program args \<Rightarrow> Inr \<lparr>plan_program = program, plan_args = args\<rparr>)"

definition new_turn_of :: "turn_request \<Rightarrow> wire_thread \<Rightarrow> string \<Rightarrow> string \<Rightarrow> new_turn" where
  "new_turn_of req th model effort =
     \<lparr>nu_thread_id = thread_id th, nu_input = [\<lparr>input_kind = ''text'', input_text = tr_prompt req\<rparr>],
      nu_model = model, nu_effort = effort, nu_client_request_id = tr_client_request_id req\<rparr>"

text \<open>Up to and including the admission: the turn, its thread and the session to load.\<close>

definition prepare_turn :: "nat \<Rightarrow> string \<Rightarrow> turn_request \<Rightarrow> (adapter_error, turn \<times> wire_thread \<times> string option \<times> launch_plan) sys_action" where
  "prepare_turn self h req s =
     (if tr_follow_up_thread_id req \<noteq> None \<and> tr_reuse_thread_id req \<noteq> None
      then err (Acp ''follow_up_thread_id and reuse_thread_id are mutually exclusive'') s
      else
        and_then (of_result (resolved (load_home_defaults (configs s h)))) (\<lambda>d.
        and_then (choose_thread self h req d) (\<lambda>(th, load, model, effort).
        and_then (of_result (plan_of req model effort)) (\<lambda>plan.
        and_then (adapter_call h (admit_turn self (new_turn_of req th model effort))) (\<lambda>t.
        ok (t, th, load, plan))))) s)"

definition fail_admitted :: "host \<Rightarrow> nat \<Rightarrow> string \<Rightarrow> string \<Rightarrow> adapter_error \<Rightarrow> (adapter_error, 'a) sys_action" where
  "fail_admitted host self h i e =
     match_result (adapter_call h (read_turn i)) (\<lambda>_. err e)
       (\<lambda>t. if is_terminal (turn_status t) then err e
            else
              and_then (ignore_result (adapter_call h (publish_terminal self i Failed [] (display_adapter_error host e)))) (\<lambda>_.
              err e))"

text \<open>\<open>.map_err(fail_admitted)?\<close>.\<close>

definition or_fail :: "host \<Rightarrow> nat \<Rightarrow> string \<Rightarrow> string \<Rightarrow> (adapter_error, 'a) sys_action \<Rightarrow> (adapter_error, 'a) sys_action" where
  "or_fail host self h i m = match_result m (fail_admitted host self h i) ok"

definition early_outcome :: "string \<Rightarrow> string \<Rightarrow> (adapter_error, turn_outcome) sys_action" where
  "early_outcome h i =
     and_then (adapter_call h (read_turn i)) (\<lambda>t.
     ok \<lparr>out_turn = t, files_changed = [], files_changed_complete = False\<rparr>)"

fun upsert_first_items :: "host \<Rightarrow> nat \<Rightarrow> string \<Rightarrow> string \<Rightarrow> item list \<Rightarrow> (adapter_error, unit) sys_action" where
  "upsert_first_items host self h i [] = ok ()"
| "upsert_first_items host self h i (it # its) =
     and_then (or_fail host self h i (adapter_call h (upsert_item self i it))) (\<lambda>_.
     upsert_first_items host self h i its)"

section \<open>The whole turn\<close>

definition others_run :: "(sys \<Rightarrow> sys) \<Rightarrow> (adapter_error, unit) sys_action" where
  "others_run f = modify f"

text \<open>The connection and what follows it, with the child registered under \<open>pid\<close>.\<close>

definition converse :: "turn_ctx \<Rightarrow> turn_world \<Rightarrow> u32 \<Rightarrow> string \<Rightarrow> (conn, adapter_error, turn_outcome) action" where
  "converse ctx w pid generation =
     match_result
       (and_then (drive_prompt ctx w) (\<lambda>stop.
        and_then (modify (\<lambda>c. snd (publish_stop ctx stop c))) (\<lambda>_. ok stop)))
       (\<lambda>e. and_then (modify (\<lambda>c. c\<lparr>the_sys := at_end w ((the_sys c)\<lparr>os := drop_child_reap pid (os (the_sys c))\<rparr>)\<rparr>)) (\<lambda>_.
            and_then (modify (try_call ctx (mark_child_eof (ctx_self ctx) generation))) (\<lambda>_.
            and_then (modify (fail_turn ctx e)) (\<lambda>_. err (Acp e)))))
       (\<lambda>stop. and_then (modify (\<lambda>c. c\<lparr>the_sys := at_end w ((the_sys c)\<lparr>os := drop_child_reap pid (os (the_sys c))\<rparr>)\<rparr>)) (\<lambda>_.
            and_then (modify (try_call ctx (mark_child_eof (ctx_self ctx) generation))) (\<lambda>_.
            finish_turn ctx w stop)))"

definition open_conn :: "turn_world \<Rightarrow> string \<Rightarrow> sys \<Rightarrow> conn" where
  "open_conn w prompt s =
     \<lparr>the_sys = s, shared = \<lparr>sh_mapper = new_mapper prompt, sh_fatal = None, sh_history = False\<rparr>,
      gated = [], requests = [], answers = [], files = workspace w, file_fault = workspace_fault w\<rparr>"

definition in_conn :: "turn_world \<Rightarrow> string \<Rightarrow> (conn, adapter_error, 'a) action \<Rightarrow> (adapter_error, 'a) sys_action" where
  "in_conn w prompt m s = (case m (open_conn w prompt s) of (r, c) \<Rightarrow> (r, the_sys c))"

definition ctx_of :: "host \<Rightarrow> nat \<Rightarrow> string \<Rightarrow> turn_request \<Rightarrow> turn_world \<Rightarrow> turn \<Rightarrow> wire_thread \<Rightarrow> string option \<Rightarrow> turn_ctx" where
  "ctx_of host self h req w t th load =
     \<lparr>ctx_host = host, ctx_self = self, ctx_home = h, ctx_turn = turn_id t, ctx_thread = turn_thread_id t,
      ctx_load_session = load, ctx_instructions = developer_instructions th, ctx_approval = tr_approval req,
      ctx_inject_persist_failure = inject_persist_failure (path_exists w) (tr_command req) (tr_cwd req),
      ctx_cwd = tr_cwd req, ctx_canonical_cwd = canonicalize w (tr_cwd req), ctx_prompt = tr_prompt req\<rparr>"

text \<open>
  From the spawn gate to the child being recorded; the gate is given back on every path. The
  piped standard streams of a started child are there to be taken.
\<close>

definition drop_reap :: "u32 \<Rightarrow> (adapter_error, unit) sys_action" where
  "drop_reap pid = on_os (drop_child_reap pid)"

definition track :: "u32 \<Rightarrow> (adapter_error, unit) sys_action" where
  "track pid s =
     (case track_child pid (os s) of
        (Inl _, o') \<Rightarrow> (Inl (Acp ''too many live ACP children''), s\<lparr>os := o'\<rparr>)
      | (Inr _, o') \<Rightarrow> (Inr (), s\<lparr>os := o'\<rparr>))"

definition spawn_child :: "host \<Rightarrow> nat \<Rightarrow> string \<Rightarrow> string \<Rightarrow> turn_world \<Rightarrow> (adapter_error, u32) sys_action" where
  "spawn_child host self h i w =
     and_then (or_fail host self h i (of_result (map_err SpawnFailed (spawn_reply w)))) (\<lambda>pid.
     and_then (or_fail host self h i (track pid)) (\<lambda>_.
     ok pid))"

definition release_gate :: "(adapter_error, 'a) sys_action \<Rightarrow> (adapter_error, 'a) sys_action" where
  "release_gate m s = (case m s of (r, s') \<Rightarrow> (r, s'\<lparr>os := drop_acp_spawn (os s')\<rparr>))"

definition with_child :: "host \<Rightarrow> nat \<Rightarrow> string \<Rightarrow> turn_request \<Rightarrow> turn_world \<Rightarrow> turn \<Rightarrow> wire_thread \<Rightarrow> string option \<Rightarrow> u32 \<Rightarrow> (adapter_error, turn_outcome) sys_action" where
  "with_child host self h req w t th load pid =
     match_result (or_fail host self h (turn_id t) (adapter_call h (set_child_pid self (turn_generation_id t) pid)))
       (\<lambda>e. and_then (drop_reap pid) (\<lambda>_. err e))
       (\<lambda>_. and_then (others_run (after_spawn w)) (\<lambda>_.
            match_result (adapter_call h (read_turn (turn_id t)))
              (\<lambda>e. and_then (drop_reap pid) (\<lambda>_. err e))
              (\<lambda>t1 s.
                if is_terminal (turn_status t1) \<or> is_shutting_down (os s)
                then match_result (early_outcome h (turn_id t))
                       (\<lambda>e. and_then (drop_reap pid) (\<lambda>_. err e))
                       (\<lambda>out. and_then (drop_reap pid) (\<lambda>_. ok out)) s
                else in_conn w (tr_prompt req) (converse (ctx_of host self h req w t th load) w pid (turn_generation_id t)) s)))"

definition after_admission :: "host \<Rightarrow> nat \<Rightarrow> string \<Rightarrow> turn_request \<Rightarrow> turn_world \<Rightarrow> turn \<Rightarrow> wire_thread \<Rightarrow> string option \<Rightarrow> (adapter_error, turn_outcome) sys_action" where
  "after_admission host self h req w t th load =
     and_then (others_run (after_admit w)) (\<lambda>_.
     and_then (or_fail host self h (turn_id t) (adapter_call h (read_turn (turn_id t)))) (\<lambda>t1.
       if is_terminal (turn_status t1) then early_outcome h (turn_id t)
       else
         and_then (upsert_first_items host self h (turn_id t) (mapped_items (new_mapper (tr_prompt req)))) (\<lambda>_.
         and_then (on_os begin_acp_spawn) (\<lambda>_ s.
           if is_shutting_down (os s) then release_gate (early_outcome h (turn_id t)) s
           else and_then (release_gate (spawn_child host self h (turn_id t) w)) (\<lambda>pid.
                with_child host self h req w t th load pid) s))))"

definition run_turn :: "host \<Rightarrow> nat \<Rightarrow> string \<Rightarrow> turn_request \<Rightarrow> turn_world \<Rightarrow> (adapter_error, turn_outcome) sys_action" where
  "run_turn host self h req w =
     and_then (prepare_turn self h req) (\<lambda>(t, th, load, plan).
     after_admission host self h req w t th load)"

end
