(* ===== verification/RunTurnProps.thy ===== *)
theory RunTurnProps
  imports RunTurn LedgerOps
begin

text \<open>
  What the course of a turn (\<^verbatim>\<open>crates/adapter-grok/src/turn.rs\<close>) guarantees: whatever the agent
  sends and whatever other processes do in between, an admitted turn ends.
\<close>

section \<open>Faults are the system's\<close>

lemma observe_locked_fault [simp]: "fault (snd (observe_locked self i s)) = fault s"
  by (simp add: observe_locked_def wp split: sum.split)

lemma with_turn_lock_fault:
  "(\<And>s. fault (snd (body s)) = fault s) \<Longrightarrow> fault (snd (with_turn_lock i body s)) = fault s"
  by (simp add: with_turn_lock_def wp split: sum.split)

lemma wake_all_fault [simp]: "fault (wake_all self s) = fault s"
proof -
  have "fault (fold notify_all as s) = fault s" for as
    by (induction as arbitrary: s) (simp_all add: notify_all_def)
  then show ?thesis by (simp add: wake_all_def)
qed

lemma section_faults [simp]:
  "fault (snd (publish_section self i status stop failure s)) = fault s"
  "fault (snd (park_section self i s)) = fault s"
  "fault (snd (clear_section self i request s)) = fault s"
  "fault (snd (upsert_section self i it s)) = fault s"
  "fault (snd (set_acp_session_id self i session s)) = fault s"
  "fault (snd (set_child_pid self i pid s)) = fault s"
  "fault (snd (mark_child_eof self i s)) = fault s"
         apply (simp add: publish_section_def wp split: sum.split)
        apply (simp add: park_section_def wp Let_def split: sum.split)
       apply (simp add: clear_section_def wp Let_def split: sum.split)
      apply (simp add: upsert_section_def wp Let_def split: sum.split)
     apply (simp add: set_acp_session_id_def wp Let_def split: sum.split)
    apply (simp add: set_child_pid_def wp Let_def split: sum.split)
   apply (simp add: mark_child_eof_def wp Let_def split: sum.split)
  done

section \<open>What every step of a turn keeps\<close>

text \<open>A run of the ledger that brings no new file faults.\<close>

definition advances :: "ledger \<Rightarrow> ledger \<Rightarrow> bool" where
  "advances l l' \<longleftrightarrow> ledger_step\<^sup>*\<^sup>* l l' \<and> fault l' = fault l"

interpretation adv: frame_relation advances
  by unfold_locales (auto simp: advances_def)

lemma keeps_advances: "keeps ledger_step\<^sup>*\<^sup>* m \<Longrightarrow> (\<And>l. fault (snd (m l)) = fault l) \<Longrightarrow> keeps advances m"
  by (simp add: keeps_def advances_def)

lemma operations_advance:
  "keeps advances (publish_terminal self i status stop failure)"
  "keeps advances (park_approval self i)"
  "keeps advances (clear_pending self i request)"
  "keeps advances (upsert_item self i it)"
  "keeps advances (observe self i)"
  "keeps advances (read_turn i)"
  "keeps advances (set_acp_session_id self i session)"
  "keeps advances (set_child_pid self i pid)"
  "keeps advances (mark_child_eof self i)"
proof -
  show "keeps advances (publish_terminal self i status stop failure)"
    by (rule keeps_advances [OF run_publish_terminal])
      (simp add: publish_terminal_def wp with_turn_lock_fault split: sum.split)
  show "keeps advances (park_approval self i)"
    by (rule keeps_advances [OF run_park_approval]) (simp add: park_approval_def with_turn_lock_fault)
  show "keeps advances (clear_pending self i request)"
    by (rule keeps_advances [OF run_clear_pending]) (simp add: clear_pending_def with_turn_lock_fault)
  show "keeps advances (upsert_item self i it)"
    by (rule keeps_advances [OF run_upsert_item])
      (simp add: upsert_item_def wp with_turn_lock_fault split: sum.split)
  show "keeps advances (observe self i)"
    by (rule keeps_advances [OF run_observe]) (simp add: observe_def with_turn_lock_fault)
  show "keeps advances (read_turn i)"
    by (rule keeps_advances [OF run_reads(4)]) (simp add: wp)
  show "keeps advances (set_acp_session_id self i session)"
    by (rule keeps_advances) (auto simp: keeps_def intro: step_session)
  show "keeps advances (set_child_pid self i pid)"
    by (rule keeps_advances) (auto simp: keeps_def intro: step_child)
  show "keeps advances (mark_child_eof self i)"
    by (rule keeps_advances) (auto simp: keeps_def intro: step_eof)
qed

text \<open>The same for the system and for the connection: the home advances, a shutdown stays one.\<close>

definition sys_advances :: "string \<Rightarrow> sys \<Rightarrow> sys \<Rightarrow> bool" where
  "sys_advances h s s' \<longleftrightarrow>
     advances (homes s h) (homes s' h) \<and> (is_shutting_down (os s) \<longrightarrow> is_shutting_down (os s'))"

interpretation sysadv: frame_relation "sys_advances h" for h
  by unfold_locales (auto simp: sys_advances_def intro: adv.frame_refl adv.frame_trans)

definition conn_advances :: "string \<Rightarrow> conn \<Rightarrow> conn \<Rightarrow> bool" where
  "conn_advances h c c' \<longleftrightarrow> sys_advances h (the_sys c) (the_sys c')"

interpretation connadv: frame_relation "conn_advances h" for h
  by unfold_locales (auto simp: conn_advances_def intro: sysadv.frame_refl sysadv.frame_trans)

lemma in_home_advances: "keeps advances m \<Longrightarrow> keeps (sys_advances h) (in_home h m)"
  by (simp add: keeps_def sys_advances_def in_home_run)

lemma adapter_call_advances: "keeps advances m \<Longrightarrow> keeps (sys_advances h) (adapter_call h m)"
  using in_home_advances [of m h] by (simp add: keeps_def adapter_call_def with_err_run)

lemma ledger_call_run:
  "ledger_call ctx m c = (fst (in_home (ctx_home ctx) m (the_sys c)), c\<lparr>the_sys := snd (in_home (ctx_home ctx) m (the_sys c))\<rparr>)"
  by (simp add: ledger_call_def split: prod.split)

lemma ledger_call_advances: "keeps advances m \<Longrightarrow> keeps (conn_advances (ctx_home ctx)) (ledger_call ctx m)"
  using in_home_advances [of m "ctx_home ctx"] by (simp add: keeps_def conn_advances_def ledger_call_run)

lemma try_call_advances: "keeps advances m \<Longrightarrow> conn_advances (ctx_home ctx) c (try_call ctx m c)"
  unfolding try_call_def by (rule keepsD [OF ledger_call_advances])

lemma fail_turn_advances: "conn_advances (ctx_home ctx) c (fail_turn ctx reason c)"
  unfolding fail_turn_def by (intro try_call_advances operations_advance)

section \<open>Handlers advance\<close>

text \<open>What other threads and processes do: runs of the ledger, never the end of a shutdown.\<close>

definition sound_others :: "string \<Rightarrow> (sys \<Rightarrow> sys) \<Rightarrow> bool" where
  "sound_others h f \<longleftrightarrow> (\<forall>s. sys_advances h s (f s))"

definition sound_envs :: "(ledger \<Rightarrow> ledger) list \<Rightarrow> bool" where
  "sound_envs sched \<longleftrightarrow> (\<forall>env \<in> set sched. \<forall>l. advances l (env l))"

fun sound_event :: "string \<Rightarrow> event \<Rightarrow> bool" where
  "sound_event h (Others f) = sound_others h f"
| "sound_event h (Decide k sched) = sound_envs sched"
| "sound_event h _ = True"

lemma same_sys_advances: "the_sys c' = the_sys c \<Longrightarrow> conn_advances h c c'"
  by (simp add: conn_advances_def sysadv.frame_refl)

lemma answer_advances [simp]: "conn_advances h c (answer a c') \<longleftrightarrow> conn_advances h c c'"
  by (simp add: conn_advances_def answer_def)

lemma upsert_items_advances: "conn_advances (ctx_home ctx) c (upsert_items ctx its c)"
  unfolding upsert_items_def
proof (induction its arbitrary: c)
  case Nil
  then show ?case by (simp add: connadv.frame_refl)
next
  case (Cons it its)
  have "conn_advances (ctx_home ctx) c (try_call ctx (upsert_item (ctx_self ctx) (ctx_turn ctx) it) c)"
    by (intro try_call_advances operations_advance)
  then show ?case using Cons.IH by (auto intro: connadv.frame_trans)
qed

lemma conn_advances_sel: "the_sys c1 = the_sys c \<Longrightarrow> conn_advances h c1 c' \<Longrightarrow> conn_advances h c c'"
  by (simp add: conn_advances_def)

lemma apply_notification_advances: "conn_advances (ctx_home ctx) c (apply_notification ctx u c)"
proof -
  have "conn_advances (ctx_home ctx) c (upsert_items ctx its (c\<lparr>shared := x\<rparr>))" for its x
    by (rule conn_advances_sel [OF _ upsert_items_advances]) simp
  then show ?thesis
    by (auto simp: apply_notification_def connadv.frame_refl same_sys_advances split: prod.split sum.split mapper_error.split)
qed

lemma on_write_advances: "conn_advances h c (on_write ctx path content c)"
  by (auto simp: on_write_def write_text_file_def answer_def intro!: same_sys_advances
      split: sum.split option.split)

lemma on_read_advances: "conn_advances h c (on_read ctx path c)"
  by (auto simp: on_read_def answer_def intro!: same_sys_advances split: sum.split file_error.split)

lemma on_permission_advances: "conn_advances (ctx_home ctx) c (on_permission ctx options c)"
proof -
  have park: "conn_advances (ctx_home ctx) c (snd (ledger_call ctx (park_approval (ctx_self ctx) (ctx_turn ctx)) c))"
    by (rule keepsD [OF ledger_call_advances]) (rule operations_advance)
  obtain r c' where run: "ledger_call ctx (park_approval (ctx_self ctx) (ctx_turn ctx)) c = (r, c')" by fastforce
  have "conn_advances (ctx_home ctx) c (c'\<lparr>gated := x\<rparr>)" for x
    using park run by (simp add: conn_advances_def)
  moreover have "conn_advances (ctx_home ctx) c (auto_allow_permission options c)"
    by (auto simp: auto_allow_permission_def answer_def intro!: same_sys_advances split: option.split)
  ultimately show ?thesis using park run
    by (auto simp: on_permission_def connadv.frame_refl split: sum.split)
qed

lemma wait_decision_advances:
  "sound_envs sched \<Longrightarrow> wait_decision_loop self i request sched l = Some (r, l') \<Longrightarrow> advances l l'"
proof (induction sched arbitrary: l)
  case Nil
  have "advances l (snd (observe self i l))" by (rule keepsD [OF operations_advance(5)])
  then show ?case using Nil.prems(2) by (cases "observe self i l")
    (auto simp: wait_decision_loop.simps [of self i request "[]"] split: sum.splits if_splits)
next
  case (Cons env sched)
  have obs: "advances l (snd (observe self i l))" by (rule keepsD [OF operations_advance(5)])
  have "advances l l'" if "wait_decision_loop self i request sched (env (snd (observe self i l))) = Some (r, l')"
  proof -
    have "advances (env (snd (observe self i l))) l'" using Cons.IH [OF _ that] Cons.prems(1) by (simp add: sound_envs_def)
    moreover have "advances (snd (observe self i l)) (env (snd (observe self i l)))"
      using Cons.prems(1) by (simp add: sound_envs_def)
    ultimately show ?thesis using obs by (blast intro: adv.frame_trans)
  qed
  then show ?case using Cons.prems(2) obs by (cases "observe self i l")
    (auto simp: wait_decision_loop.simps [of self i request "env # sched"] split: sum.splits if_splits)
qed

lemma waiter_advances: "advances l (snd (waiter self i l))"
  by (auto simp: advances_def waiter_def Let_def same_records_def intro!: run_memory split: option.split)

lemma release_advances: "advances l (drop_pair a (release_waiter self i b l))"
  by (auto simp: advances_def drop_pair_def release_waiter_def remove_slot_def notify_all_def slot_def
      Let_def same_records_def intro!: run_memory split: option.split)

lemma with_waiter_advances:
  assumes "\<And>l l' r. body l = Some (r, l') \<Longrightarrow> advances l l'" and "with_waiter self i body l = Some (r, l')"
  shows "advances l l'"
proof -
  obtain pair l1 where w: "waiter self i l = (pair, l1)" by fastforce
  obtain l2 where b: "body l1 = Some (r, l2)" and e: "l' = drop_pair pair (release_waiter self i pair l2)"
    using assms(2) w by (auto simp: with_waiter_def Let_def split: option.splits)
  have "advances l l1" using waiter_advances [of l self i] w by simp
  moreover have "advances l1 l2" by (rule assms(1) [OF b])
  ultimately show ?thesis unfolding e by (blast intro: adv.frame_trans release_advances)
qed

lemma wait_pending_advances:
  assumes "sound_envs sched" and "wait_pending_decision self i request sched l = Some (r, l')"
  shows "advances l l'"
proof -
  have "advances a b" if "wait_decision_loop self i request sched a = Some (q, b)" for a b q
    using wait_decision_advances [OF assms(1) that] .
  then have "advances l l'" if "with_waiter self i (wait_decision_loop self i request sched) l = Some (r, l')"
    using that by (rule with_waiter_advances)
  then show ?thesis using assms(2) by (auto simp: wait_pending_decision_def adv.frame_refl split: sum.splits)
qed

lemma on_decide_advances:
  assumes "sound_envs sched"
  shows "conn_advances (ctx_home ctx) c (on_decide ctx k sched c)"
proof (cases "k < length (gated c)")
  case True
  let ?req = "snd (gated c ! k)"
  show ?thesis
  proof (cases "finish_gated_permission ctx (fst (gated c ! k)) ?req sched c")
    case None
    then show ?thesis using True by (simp add: on_decide_def connadv.frame_refl)
  next
    case (Some p)
    obtain out c' where p: "p = (out, c')" by (cases p)
    obtain r l where w: "wait_pending_decision (ctx_self ctx) (ctx_turn ctx) ?req sched (homes (the_sys c) (ctx_home ctx)) = Some (r, l)"
      and c': "c' = try_call ctx (clear_pending (ctx_self ctx) (ctx_turn ctx) ?req)
          (c\<lparr>the_sys := (the_sys c)\<lparr>homes := (homes (the_sys c))(ctx_home ctx := l)\<rparr>\<rparr>)"
      using Some p by (auto simp: finish_gated_permission_def Let_def split: option.splits)
    have "advances (homes (the_sys c) (ctx_home ctx)) l" by (rule wait_pending_advances [OF assms w])
    then have "conn_advances (ctx_home ctx) c (c\<lparr>the_sys := (the_sys c)\<lparr>homes := (homes (the_sys c))(ctx_home ctx := l)\<rparr>\<rparr>)"
      by (simp add: conn_advances_def sys_advances_def)
    then have "conn_advances (ctx_home ctx) c c'"
      unfolding c' by (rule connadv.frame_trans) (intro try_call_advances operations_advance)
    then show ?thesis using True Some p by (simp add: on_decide_def) (simp add: conn_advances_def)
  qed
qed (simp add: on_decide_def connadv.frame_refl)

lemma on_event_advances: "sound_event (ctx_home ctx) e \<Longrightarrow> conn_advances (ctx_home ctx) c (on_event ctx e c)"
proof (cases e)
  case (Others f)
  then show "sound_event (ctx_home ctx) e \<Longrightarrow> ?thesis" by (simp add: conn_advances_def sound_others_def)
qed (simp_all add: apply_notification_advances on_write_advances on_read_advances on_permission_advances on_decide_advances)

lemma receive_advances: "list_all (sound_event (ctx_home ctx)) evs \<Longrightarrow> conn_advances (ctx_home ctx) c (receive ctx evs c)"
  unfolding receive_def
proof (induction evs arbitrary: c)
  case Nil
  then show ?case by (simp add: connadv.frame_refl)
next
  case (Cons e evs)
  then show ?case using on_event_advances [of ctx e c] by (auto intro: connadv.frame_trans)
qed

section \<open>The prompt advances\<close>

lemma keeps_modify: "(\<And>c. R c (f c)) \<Longrightarrow> keeps R (modify f)"
  by (simp add: keeps_def wp)

lemma set_history_advances: "conn_advances h c (set_history b c)"
  by (simp add: set_history_def same_sys_advances)

lemma exchange_advances:
  "list_all (sound_event (ctx_home ctx)) evs \<Longrightarrow> keeps (conn_advances (ctx_home ctx)) (exchange ctx r evs reply)"
  unfolding exchange_def send_request_def
  by (intro connadv.frame_rules keeps_modify receive_advances same_sys_advances) simp_all

lemma finish_message_advances: "conn_advances (ctx_home ctx) c (finish_message ctx c)"
proof -
  have "conn_advances (ctx_home ctx) c (upsert_items ctx its (c\<lparr>shared := x\<rparr>))" for its x
    by (rule conn_advances_sel [OF _ upsert_items_advances]) simp
  then show ?thesis
    by (auto simp: finish_message_def same_sys_advances split: prod.split sum.split option.split)
qed

definition sound_script :: "string \<Rightarrow> 'x agent_script_scheme \<Rightarrow> bool" where
  "sound_script h w \<longleftrightarrow>
     list_all (sound_event h) (init_events w) \<and> list_all (sound_event h) (session_events w)
     \<and> list_all (sound_event h) (prompt_events w)"

lemmas conn_rules = connadv.frame_rules keeps_modify exchange_advances fail_turn_advances set_history_advances
  ledger_call_advances operations_advance finish_message_advances

lemma drive_prompt_advances:
  assumes "sound_script (ctx_home ctx) w"
  shows "keeps (conn_advances (ctx_home ctx)) (drive_prompt ctx w)"
proof -
  have ev: "list_all (sound_event (ctx_home ctx)) (init_events w)"
      "list_all (sound_event (ctx_home ctx)) (session_events w)" "list_all (sound_event (ctx_home ctx)) (prompt_events w)"
    using assms by (simp_all add: sound_script_def)
  have "keeps (conn_advances (ctx_home ctx)) (load_session ctx w sid adv)" for sid adv
    unfolding load_session_def using ev by (intro conn_rules)
  moreover have "keeps (conn_advances (ctx_home ctx)) (new_session ctx w)"
    unfolding new_session_def using ev by (intro conn_rules)
  ultimately show ?thesis
    unfolding drive_prompt_def using ev by (intro conn_rules)
qed

lemma publish_stop_publishes:
  "\<exists>st sr f. is_terminal st \<and> publish_stop ctx stop c =
     with_err LedgerFailed (ledger_call ctx (publish_terminal (ctx_self ctx) (ctx_turn ctx) st sr f)) c"
proof (cases "sh_fatal (shared c)")
  case None
  let ?st = "map_stop_reason (stop_reason_str stop)"
  show ?thesis
    by (rule exI [of _ ?st], rule exI [of _ "stop_reason_str stop"], rule exI [of _ "if ?st = Failed then stop_reason_str stop else []"])
      (simp add: publish_stop_def Let_def None)
next
  case (Some fatal)
  then show ?thesis by (auto simp: publish_stop_def intro!: exI [of _ Failed])
qed

lemma publish_stop_advances: "conn_advances (ctx_home ctx) c (snd (publish_stop ctx stop c))"
proof -
  obtain st sr f where p: "publish_stop ctx stop c =
     with_err LedgerFailed (ledger_call ctx (publish_terminal (ctx_self ctx) (ctx_turn ctx) st sr f)) c"
    using publish_stop_publishes by blast
  show ?thesis
    using keepsD [OF ledger_call_advances [OF operations_advance(1)], of ctx c] by (simp add: p with_err_run)
qed

section \<open>An admitted turn ends\<close>

text \<open>The turn is on disk and no file operation fails; it has ended.\<close>

definition on_disk :: "string \<Rightarrow> ledger \<Rightarrow> bool" where
  "on_disk i l \<longleftrightarrow> valid_id i \<and> ledger_inv l \<and> (\<forall>op. \<not> fault l op) \<and> (\<exists>t. turn_at l i = Some t)"

definition settled :: "string \<Rightarrow> ledger \<Rightarrow> bool" where
  "settled i l \<longleftrightarrow> (\<exists>t. turn_at l i = Some t \<and> is_terminal (turn_status t))"

lemma advances_evolves: "advances l l' \<Longrightarrow> ledger_inv l \<Longrightarrow> ledger_inv l' \<and> evolves (abs l) (abs l')"
  unfolding advances_def using sim_inv [OF ledger_run_simulates] ledger_run_evolves by blast

lemma on_disk_advances: "on_disk i l \<Longrightarrow> advances l l' \<Longrightarrow> on_disk i l'"
  using advances_evolves [of l l'] evolvesD(1) [of "abs l" "abs l'" i]
  by (auto simp: on_disk_def advances_def)

lemma settled_advances: "on_disk i l \<Longrightarrow> settled i l \<Longrightarrow> advances l l' \<Longrightarrow> settled i l'"
  using advances_evolves [of l l'] evolvesD(1) [of "abs l" "abs l'" i]
  by (force simp: on_disk_def settled_def turn_evolves_def outcome_def)

lemma on_disk_read: "on_disk i l \<Longrightarrow> turn_at l i = Some t \<Longrightarrow> read_turn i l = (Inr t, l)"
  by (simp add: on_disk_def wp turn_result_Inr)

lemma publish_on_disk:
  assumes "on_disk i l" "turn_at l i = Some t" "\<not> is_terminal (turn_status t)" "is_terminal status"
  shows "fst (publish_terminal self i status stop failure l)
      = Inr (t\<lparr>turn_status := status, stop_reason := stop, failure_reason := failure\<rparr>)"
    and "turn_at (snd (publish_terminal self i status stop failure l)) i
      = Some (t\<lparr>turn_status := status, stop_reason := stop, failure_reason := failure\<rparr>)"
proof -
  have "turn_id t = i" using assms(1,2) ledger_invD by (auto simp: on_disk_def)
  moreover have "turn_result_of l i = Inr t" "validate_id i = Inr ()" "\<And>op. \<not> fault l op"
    using assms(1,2) by (simp_all add: on_disk_def turn_result_Inr validate_id_def if_ok_def)
  ultimately show "fst (publish_terminal self i status stop failure l)
      = Inr (t\<lparr>turn_status := status, stop_reason := stop, failure_reason := failure\<rparr>)"
    and "turn_at (snd (publish_terminal self i status stop failure l)) i
      = Some (t\<lparr>turn_status := status, stop_reason := stop, failure_reason := failure\<rparr>)"
    using assms(3,4) publish_terminal_locked_turns [OF assms(3), of l self status stop failure]
    by (simp_all add: publish_terminal_def with_turn_lock_def publish_section_def wp if_ok_def)
qed

lemma publish_settles:
  assumes "on_disk i l" "is_terminal status"
  shows "settled i (snd (publish_terminal self i status stop failure l))"
proof -
  obtain t where t: "turn_at l i = Some t" using assms(1) by (auto simp: on_disk_def)
  show ?thesis
  proof (cases "is_terminal (turn_status t)")
    case True
    then have "settled i l" using t by (simp add: settled_def)
    from assms(1) this keepsD [OF operations_advance(1)] show ?thesis by (rule settled_advances)
  next
    case False
    then show ?thesis using publish_on_disk(2) [OF assms(1) t False assms(2)] assms(2) by (simp add: settled_def)
  qed
qed

text \<open>The end of a turn: settled, with a terminal turn in the outcome, unless the process shuts down.\<close>

definition shutdown :: "sys \<Rightarrow> bool" where
  "shutdown s \<longleftrightarrow> is_shutting_down (os s)"

definition ended :: "string \<Rightarrow> string \<Rightarrow> (adapter_error + turn_outcome) \<times> sys \<Rightarrow> bool" where
  "ended h i p \<longleftrightarrow>
     shutdown (snd p) \<or>
     settled i (homes (snd p) h) \<and> (\<forall>out. fst p = Inr out \<longrightarrow> is_terminal (turn_status (out_turn out)))"

lemma ended_Inl: "settled i (homes s h) \<Longrightarrow> ended h i (Inl e, s)"
  by (simp add: ended_def)

lemma disk_advances: "on_disk i (homes s h) \<Longrightarrow> sys_advances h s s' \<Longrightarrow> on_disk i (homes s' h)"
  by (auto simp: sys_advances_def intro: on_disk_advances)

lemma ended_and_then:
  assumes "on_disk i (homes s h)" "sys_advances h s (snd (m s))"
    and "\<And>e. fst (m s) = Inl e \<Longrightarrow> settled i (homes (snd (m s)) h)"
    and "\<And>x. fst (m s) = Inr x \<Longrightarrow> on_disk i (homes (snd (m s)) h) \<Longrightarrow> ended h i (f x (snd (m s)))"
  shows "ended h i (and_then m f s)"
  using assms disk_advances [OF assms(1,2)] by (cases "fst (m s)") (simp_all add: wp ended_Inl)

lemma adapter_call_run [wp]:
  "adapter_call h m s = (map_err LedgerFailed (fst (m (homes s h))), s\<lparr>homes := (homes s)(h := snd (m (homes s h)))\<rparr>)"
  by (simp add: adapter_call_def with_err_run in_home_run)

lemma early_outcome_ended:
  assumes "on_disk i (homes s h)" "settled i (homes s h) \<or> shutdown s"
  shows "ended h i (early_outcome h i s)"
proof -
  obtain t where t: "turn_at (homes s h) i = Some t" using assms(1) by (auto simp: on_disk_def)
  then have "early_outcome h i s = (Inr \<lparr>out_turn = t, files_changed = [], files_changed_complete = False\<rparr>, s)"
    using on_disk_read [OF assms(1) t] by (simp add: early_outcome_def and_then_run adapter_call_run ok_run)
  then show ?thesis using assms(2) t by (auto simp: ended_def settled_def)
qed

text \<open>An error after the admission is written to the turn, unless that has ended already.\<close>

lemma fail_admitted_settles:
  fixes i :: string
  assumes "on_disk i (homes s h)"
  shows "fst (fail_admitted host self h i e s :: (adapter_error + 'a) \<times> sys) = Inl e"
    and "settled i (homes (snd (fail_admitted host self h i e s :: (adapter_error + 'a) \<times> sys)) h)"
    and "sys_advances h s (snd (fail_admitted host self h i e s :: (adapter_error + 'a) \<times> sys))"
proof -
  obtain t where t: "turn_at (homes s h) i = Some t" using assms by (auto simp: on_disk_def)
  note r = on_disk_read [OF assms t]
  let ?p = "publish_terminal self i Failed [] (display_adapter_error host e)"
  have run: "(fail_admitted host self h i e s :: (adapter_error + 'a) \<times> sys) =
      (Inl e, if is_terminal (turn_status t) then s else s\<lparr>homes := (homes s)(h := snd (?p (homes s h)))\<rparr>)"
    using r by (simp add: fail_admitted_def match_result_run and_then_run adapter_call_run ignore_result_run err_run)
  have "settled i (homes s h)" if "is_terminal (turn_status t)" using that t by (simp add: settled_def)
  moreover have "settled i (snd (?p (homes s h)))" by (rule publish_settles [OF assms]) simp
  moreover have "advances (homes s h) (snd (?p (homes s h)))" by (rule keepsD [OF operations_advance(1)])
  ultimately show "fst (fail_admitted host self h i e s :: (adapter_error + 'a) \<times> sys) = Inl e"
    and "settled i (homes (snd (fail_admitted host self h i e s :: (adapter_error + 'a) \<times> sys)) h)"
    and "sys_advances h s (snd (fail_admitted host self h i e s :: (adapter_error + 'a) \<times> sys))"
    by (simp_all add: run sys_advances_def adv.frame_refl)
qed

lemma or_fail_effect:
  assumes "on_disk i (homes s h)" "keeps (sys_advances h) m"
  shows "sys_advances h s (snd (or_fail host self h i m s))"
    and "fst (or_fail host self h i m s) = Inl e \<Longrightarrow> settled i (homes (snd (or_fail host self h i m s)) h)"
    and "fst (or_fail host self h i m s) = Inr x \<Longrightarrow> m s = (Inr x, snd (or_fail host self h i m s))"
proof -
  have m: "sys_advances h s (snd (m s))" by (rule keepsD [OF assms(2)])
  have d: "on_disk i (homes (snd (m s)) h)" by (rule disk_advances [OF assms(1) m])
  note f = fail_admitted_settles [OF d, where host = host and self = self]
  show "sys_advances h s (snd (or_fail host self h i m s))"
    using m f(3) by (cases "fst (m s)") (auto simp: or_fail_def wp intro: sysadv.frame_trans)
  show "fst (or_fail host self h i m s) = Inl e \<Longrightarrow> settled i (homes (snd (or_fail host self h i m s)) h)"
    using f(2) by (cases "fst (m s)") (auto simp: or_fail_def wp)
  show "fst (or_fail host self h i m s) = Inr x \<Longrightarrow> m s = (Inr x, snd (or_fail host self h i m s))"
    by (cases "fst (m s)") (simp_all add: or_fail_def wp prod_eq_iff f(1))
qed

lemma drop_child_reap_shutting: "is_shutting_down (drop_child_reap pid o') = is_shutting_down o'"
  using teardown_frame(4) [of pid o']
  by (cases "pid = 0") (simp_all add: drop_child_reap_def unregister_child_pid_def teardown_process_group_def)

lemma drop_reap_advances: "sys_advances h s (s\<lparr>os := drop_child_reap pid (os s)\<rparr>)"
  by (simp add: sys_advances_def adv.frame_refl drop_child_reap_shutting)

lemma finish_turn_ended:
  assumes "on_disk (ctx_turn ctx) (homes (the_sys c) (ctx_home ctx))"
  shows "settled (ctx_turn ctx) (homes (the_sys (snd (finish_turn ctx w stop c))) (ctx_home ctx))"
    and "fst (finish_turn ctx w stop c) = Inr out \<Longrightarrow> is_terminal (turn_status (out_turn out))"
proof -
  let ?i = "ctx_turn ctx" and ?h = "ctx_home ctx"
  obtain t where t: "turn_at (homes (the_sys c) ?h) ?i = Some t" using assms by (auto simp: on_disk_def)
  have read: "ledger_call ctx (read_turn ?i) c = (Inr t, c)"
    using on_disk_read [OF assms t] by (simp add: ledger_call_run in_home_run)
  define body where "body = (if is_terminal (turn_status t) then ok t else publish_stop ctx stop)"
  have first: "\<exists>t' c'. body c = (Inr t', c') \<and> is_terminal (turn_status t') \<and> settled ?i (homes (the_sys c') ?h)"
  proof (cases "is_terminal (turn_status t)")
    case True
    then show ?thesis using t by (simp add: body_def wp settled_def)
  next
    case False
    obtain st sr f where p: "publish_stop ctx stop c =
        with_err LedgerFailed (ledger_call ctx (publish_terminal (ctx_self ctx) ?i st sr f)) c" and st: "is_terminal st"
      using publish_stop_publishes by blast
    show ?thesis
      using publish_on_disk(1) [OF assms t False st] publish_settles [OF assms st] False st
      by (simp add: body_def p with_err_run ledger_call_run in_home_run)
  qed
  then obtain t' c' where b: "body c = (Inr t', c')" "is_terminal (turn_status t')" "settled ?i (homes (the_sys c') ?h)"
    by blast
  have run: "finish_turn ctx w stop c = (case sh_fatal (shared c') of
      Some fatal \<Rightarrow> (Inl (Excluded (''turn '' @ turn_id t' @ '' failed: '' @ fatal)), c')
    | None \<Rightarrow> (Inr \<lparr>out_turn = t',
          files_changed = fst (git_files_changed (from_utf8_lossy w) (git_head (from_utf8 w) (head_output w)) (diff_output w)),
          files_changed_complete = snd (git_files_changed (from_utf8_lossy w) (git_head (from_utf8 w) (head_output w)) (diff_output w))\<rparr>, c'))"
    using b(1) by (simp add: finish_turn_def and_then_run match_result_run read ok_run err_run body_def
        split: option.split prod.split)
  show "settled ?i (homes (the_sys (snd (finish_turn ctx w stop c))) ?h)"
    using b(3) by (simp add: run split: option.split)
  show "fst (finish_turn ctx w stop c) = Inr out \<Longrightarrow> is_terminal (turn_status (out_turn out))"
    using b(2) by (auto simp: run split: option.splits)
qed

definition sound_world :: "string \<Rightarrow> turn_world \<Rightarrow> bool" where
  "sound_world h w \<longleftrightarrow>
     sound_script h w \<and> sound_others h (after_admit w) \<and> sound_others h (after_spawn w) \<and> sound_others h (at_end w)"

lemma fail_turn_settles:
  "on_disk (ctx_turn ctx) (homes (the_sys c) (ctx_home ctx)) \<Longrightarrow>
     settled (ctx_turn ctx) (homes (the_sys (fail_turn ctx reason c)) (ctx_home ctx))"
  using publish_settles [of "ctx_turn ctx" _ Failed]
  by (simp add: fail_turn_def try_call_def ledger_call_run in_home_run)

lemma converse_ended:
  assumes "sound_world (ctx_home ctx) w" "on_disk (ctx_turn ctx) (homes (the_sys c) (ctx_home ctx))"
  shows "settled (ctx_turn ctx) (homes (the_sys (snd (converse ctx w pid g c))) (ctx_home ctx))"
    and "fst (converse ctx w pid g c) = Inr out \<Longrightarrow> is_terminal (turn_status (out_turn out))"
proof -
  let ?h = "ctx_home ctx" and ?i = "ctx_turn ctx"
  define talk where "talk = and_then (drive_prompt ctx w) (\<lambda>stop.
        and_then (modify (\<lambda>c. snd (publish_stop ctx stop c))) (\<lambda>_. ok stop))"
  define close where "close = (\<lambda>c. try_call ctx (mark_child_eof (ctx_self ctx) g)
      (c\<lparr>the_sys := at_end w ((the_sys c)\<lparr>os := drop_child_reap pid (os (the_sys c))\<rparr>)\<rparr>))"
  have "sound_script ?h w" "sound_others ?h (at_end w)" using assms(1) by (simp_all add: sound_world_def)
  then have talks: "keeps (conn_advances ?h) talk"
    unfolding talk_def by (intro conn_rules drive_prompt_advances publish_stop_advances)
  have closes: "conn_advances ?h c (close c)" for c
  proof -
    have "conn_advances ?h c (c\<lparr>the_sys := at_end w ((the_sys c)\<lparr>os := drop_child_reap pid (os (the_sys c))\<rparr>)\<rparr>)"
      using \<open>sound_others ?h (at_end w)\<close>
      by (auto simp: conn_advances_def sound_others_def intro: sysadv.frame_trans [OF drop_reap_advances])
    then show ?thesis unfolding close_def
      by (rule connadv.frame_trans) (intro try_call_advances operations_advance)
  qed
  have run: "converse ctx w pid g c = (case fst (talk c) of
      Inl e \<Rightarrow> (Inl (Acp e), fail_turn ctx e (close (snd (talk c))))
    | Inr stop \<Rightarrow> finish_turn ctx w stop (close (snd (talk c))))"
    by (simp add: converse_def talk_def [symmetric] match_result_run and_then_run modify_run err_run close_def split: sum.split)
  have "conn_advances ?h c (close (snd (talk c)))"
    using keepsD [OF talks] closes by (rule connadv.frame_trans)
  then have d: "on_disk ?i (homes (the_sys (close (snd (talk c)))) ?h)"
    using assms(2) by (auto simp: conn_advances_def intro: disk_advances)
  show "settled ?i (homes (the_sys (snd (converse ctx w pid g c))) ?h)"
    using fail_turn_settles [OF d] finish_turn_ended(1) [OF d] by (simp add: run split: sum.split)
  show "fst (converse ctx w pid g c) = Inr out \<Longrightarrow> is_terminal (turn_status (out_turn out))"
    using finish_turn_ended(2) [OF d] by (auto simp: run split: sum.splits)
qed

lemma in_conn_ended:
  assumes "sound_world h w" "on_disk i (homes s h)" "ctx_home ctx = h" "ctx_turn ctx = i"
  shows "ended h i (in_conn w prompt (converse ctx w pid g) s)"
proof -
  have "on_disk (ctx_turn ctx) (homes (the_sys (open_conn w prompt s)) (ctx_home ctx))"
    using assms by (simp add: open_conn_def)
  then show ?thesis
    using converse_ended [of ctx w "open_conn w prompt s" pid g] assms
    by (auto simp: in_conn_def ended_def split: prod.split)
qed

text \<open>Giving back the guard of the child keeps an end.\<close>

lemma ended_drop_reap:
  assumes "ended h i (r, s)"
  shows "ended h i (r, s\<lparr>os := drop_child_reap pid (os s)\<rparr>)"
  using assms by (auto simp: ended_def shutdown_def drop_child_reap_shutting)

lemma with_child_ended:
  assumes "sound_world h w" "on_disk (turn_id t) (homes s h)"
  shows "ended h (turn_id t) (with_child host self h req w t th load pid s)"
proof -
  let ?i = "turn_id t"
  let ?set = "or_fail host self h ?i (adapter_call h (set_child_pid self (turn_generation_id t) pid))"
  have adv: "keeps (sys_advances h) (adapter_call h (set_child_pid self (turn_generation_id t) pid))"
    by (intro adapter_call_advances operations_advance)
  note set = or_fail_effect [OF assms(2) adv, where host = host and self = self]
  show ?thesis
  proof (cases "fst (?set s)")
    case (Inl e)
    then show ?thesis
      using ended_drop_reap [OF ended_Inl [OF set(2) [OF Inl]]]
      by (simp add: with_child_def match_result_run and_then_run drop_reap_def on_os_run err_run)
  next
    case (Inr g)
    define s1 where "s1 = snd (?set s)"
    define s2 where "s2 = after_spawn w s1"
    have "sys_advances h s1 s2" using assms(1) by (simp add: sound_world_def sound_others_def s2_def)
    then have d: "on_disk ?i (homes s2 h)"
      using disk_advances disk_advances [OF assms(2) set(1)] by (auto simp: s1_def)
    then obtain t1 where t1: "turn_at (homes s2 h) ?i = Some t1" by (auto simp: on_disk_def)
    have read: "adapter_call h (read_turn ?i) s2 = (Inr t1, s2)"
      using on_disk_read [OF d t1] by (simp add: adapter_call_run)
    let ?conn = "in_conn w (tr_prompt req) (converse (ctx_of host self h req w t th load) w pid (turn_generation_id t)) s2"
    let ?early = "early_outcome h ?i s2"
    have run: "with_child host self h req w t th load pid s =
        (if is_terminal (turn_status t1) \<or> is_shutting_down (os s2)
         then (fst ?early, (snd ?early)\<lparr>os := drop_child_reap pid (os (snd ?early))\<rparr>)
         else ?conn)"
      using Inr read by (simp add: with_child_def match_result_run and_then_run others_run_def modify_run
          drop_reap_def on_os_run err_run ok_run s1_def [symmetric] s2_def [symmetric] split: sum.split)
    have "ended h ?i ?conn"
      by (rule in_conn_ended [OF assms(1) d]) (simp_all add: ctx_of_def)
    moreover have "ended h ?i ?early" if "is_terminal (turn_status t1) \<or> is_shutting_down (os s2)"
      using that t1 by (intro early_outcome_ended [OF d]) (auto simp: settled_def shutdown_def)
    ultimately show ?thesis using ended_drop_reap [of h ?i "fst ?early" "snd ?early"] by (simp add: run)
  qed
qed

lemma upsert_first_items_effect:
  assumes "on_disk i (homes s h)"
  shows "sys_advances h s (snd (upsert_first_items host self h i its s)) \<and>
    (\<forall>e. fst (upsert_first_items host self h i its s) = Inl e \<longrightarrow> settled i (homes (snd (upsert_first_items host self h i its s)) h))"
  using assms
proof (induction its arbitrary: s)
  case Nil
  then show ?case by (simp add: wp sysadv.frame_refl)
next
  case (Cons it its)
  let ?m = "or_fail host self h i (adapter_call h (upsert_item self i it))"
  have adv: "keeps (sys_advances h) (adapter_call h (upsert_item self i it))"
    by (intro adapter_call_advances operations_advance)
  note up = or_fail_effect [OF Cons.prems adv, where host = host and self = self]
  have "on_disk i (homes (snd (?m s)) h)" by (rule disk_advances [OF Cons.prems up(1)])
  then have "sys_advances h (snd (?m s)) (snd (upsert_first_items host self h i its (snd (?m s)))) \<and>
    (\<forall>e. fst (upsert_first_items host self h i its (snd (?m s))) = Inl e \<longrightarrow>
       settled i (homes (snd (upsert_first_items host self h i its (snd (?m s)))) h))"
    by (rule Cons.IH)
  then show ?case using up(1,2) by (cases "fst (?m s)") (auto simp: wp intro: sysadv.frame_trans)
qed

lemma track_advances: "keeps (sys_advances h) (track pid)"
proof -
  have "is_shutting_down (snd (track_child pid o')) = is_shutting_down o'" for o'
    using teardown_frame(4) [of pid o']
    by (auto simp: track_child_def register_child_pid_def wp Let_def split: prod.split option.splits)
  note shut = this
  show ?thesis
  proof (rule keepsI)
    fix s :: sys
    obtain r o' where t: "track_child pid (os s) = (r, o')" by fastforce
    show "sys_advances h s (snd (track pid s))"
      using shut [of "os s"] t by (cases r) (simp_all add: track_def sys_advances_def adv.frame_refl)
  qed
qed

lemma spawn_child_effect:
  assumes "on_disk i (homes s h)"
  shows "sys_advances h s (snd (spawn_child host self h i w s))"
    and "fst (spawn_child host self h i w s) = Inl e \<Longrightarrow> settled i (homes (snd (spawn_child host self h i w s)) h)"
proof -
  let ?m1 = "or_fail host self h i (of_result (map_err SpawnFailed (spawn_reply w)))"
  note one = or_fail_effect [OF assms sysadv.keeps_of_result, where host = host and self = self and r1 = "map_err SpawnFailed (spawn_reply w)"]
  have d: "on_disk i (homes (snd (?m1 s)) h)" by (rule disk_advances [OF assms one(1)])
  note two = or_fail_effect [OF d track_advances, where host = host and self = self]
  show "sys_advances h s (snd (spawn_child host self h i w s))"
    using one(1) two(1) by (cases "fst (?m1 s)")
      (auto simp: spawn_child_def and_then_run ok_run intro: sysadv.frame_trans split: sum.split)
  show "fst (spawn_child host self h i w s) = Inl e \<Longrightarrow> settled i (homes (snd (spawn_child host self h i w s)) h)"
    using one(2) two(2) by (cases "fst (?m1 s)")
      (auto simp: spawn_child_def and_then_run ok_run split: sum.splits)
qed

lemma release_gate_ended: "ended h i (m s) \<Longrightarrow> ended h i (release_gate m s)"
  by (auto simp: release_gate_def ended_def shutdown_def drop_acp_spawn_def split: prod.split)

lemma gate_advances: "sys_advances h s (s\<lparr>os := begin_acp_spawn (os s)\<rparr>)" "sys_advances h s (s\<lparr>os := drop_acp_spawn (os s)\<rparr>)"
  by (simp_all add: sys_advances_def adv.frame_refl begin_acp_spawn_def drop_acp_spawn_def)

lemma release_gate_run: "release_gate m s = (fst (m s), (snd (m s))\<lparr>os := drop_acp_spawn (os (snd (m s)))\<rparr>)"
  by (simp add: release_gate_def split: prod.split)

lemma spawn_phase_ended:
  assumes "sound_world h w" "on_disk (turn_id t) (homes s h)"
  shows "ended h (turn_id t) (and_then (on_os begin_acp_spawn) (\<lambda>_ s.
      if is_shutting_down (os s) then release_gate (early_outcome h (turn_id t)) s
      else and_then (release_gate (spawn_child host self h (turn_id t) w)) (\<lambda>pid.
           with_child host self h req w t th load pid) s) s)"
proof -
  let ?i = "turn_id t"
  define s1 where "s1 = s\<lparr>os := begin_acp_spawn (os s)\<rparr>"
  have d: "on_disk ?i (homes s1 h)" unfolding s1_def by (rule disk_advances [OF assms(2) gate_advances(1)])
  let ?gate = "release_gate (spawn_child host self h ?i w)"
  have "ended h ?i (and_then ?gate (\<lambda>pid. with_child host self h req w t th load pid) s1)"
  proof (rule ended_and_then [OF d])
    show "sys_advances h s1 (snd (?gate s1))"
      using sysadv.frame_trans [OF spawn_child_effect(1) [OF d] gate_advances(2)] by (simp add: release_gate_run)
    show "settled ?i (homes (snd (?gate s1)) h)" if "fst (?gate s1) = Inl e" for e
      using spawn_child_effect(2) [OF d] that by (simp add: release_gate_run)
    show "ended h ?i (with_child host self h req w t th load pid (snd (?gate s1)))"
      if "on_disk ?i (homes (snd (?gate s1)) h)" for pid
      by (rule with_child_ended [OF assms(1) that])
  qed
  moreover have "ended h ?i (release_gate (early_outcome h ?i) s1)" if "is_shutting_down (os s1)"
    using that by (intro release_gate_ended early_outcome_ended [OF d]) (simp add: shutdown_def)
  ultimately show ?thesis
    by (simp add: and_then_run [of "on_os begin_acp_spawn"] on_os_run s1_def [symmetric])
qed

lemma after_admission_ended:
  assumes "sound_world h w" "on_disk (turn_id t) (homes s h)"
  shows "ended h (turn_id t) (after_admission host self h req w t th load s)"
proof -
  let ?i = "turn_id t"
  let ?spawn = "and_then (on_os begin_acp_spawn) (\<lambda>_ s.
      if is_shutting_down (os s) then release_gate (early_outcome h ?i) s
      else and_then (release_gate (spawn_child host self h ?i w)) (\<lambda>pid.
           with_child host self h req w t th load pid) s)"
  let ?items = "upsert_first_items host self h ?i (mapped_items (new_mapper (tr_prompt req)))"
  define s1 where "s1 = after_admit w s"
  have "sys_advances h s s1" using assms(1) by (simp add: s1_def sound_world_def sound_others_def)
  then have d: "on_disk ?i (homes s1 h)" using assms(2) by (rule disk_advances [rotated])
  then obtain t1 where t1: "turn_at (homes s1 h) ?i = Some t1" by (auto simp: on_disk_def)
  have "or_fail host self h ?i (adapter_call h (read_turn ?i)) s1 = (Inr t1, s1)"
    using on_disk_read [OF d t1] by (simp add: or_fail_def match_result_run adapter_call_run ok_run)
  then have run: "after_admission host self h req w t th load s =
      (if is_terminal (turn_status t1) then early_outcome h ?i s1 else and_then ?items (\<lambda>_. ?spawn) s1)"
    by (simp add: after_admission_def and_then_run [of "modify (after_admit w)"] others_run_def modify_run
        and_then_run [of "or_fail host self h ?i m" for m] s1_def [symmetric])
  note up = upsert_first_items_effect [OF d, of host self "mapped_items (new_mapper (tr_prompt req))"]
  have "ended h ?i (and_then ?items (\<lambda>_. ?spawn) s1)"
  proof (rule ended_and_then [OF d])
    show "sys_advances h s1 (snd (?items s1))" using up by blast
    show "settled ?i (homes (snd (?items s1)) h)" if "fst (?items s1) = Inl e" for e using up that by blast
    show "ended h ?i (?spawn (snd (?items s1)))" if "on_disk ?i (homes (snd (?items s1)) h)"
      by (rule spawn_phase_ended [OF assms(1) that])
  qed
  moreover have "ended h ?i (early_outcome h ?i s1)" if "is_terminal (turn_status t1)"
    using that t1 by (intro early_outcome_ended [OF d]) (simp add: settled_def)
  ultimately show ?thesis by (simp add: run)
qed

text \<open>C3: a turn never stays in progress behind a run that has returned. Whatever the agent sends or fails to
  send, however the start of its process ends, whatever permissions are asked for and whatever other processes do in between: when the code
  that runs an admitted turn returns, with a result or with an error, the turn on disk is
  terminal and a result carries a terminal turn, unless the process is shutting down.\<close>

theorem admitted_turn_ends:
  assumes "sound_world h w" "reachable (homes s h)" "\<And>op. \<not> fault (homes s h) op"
    and "valid_id (turn_id t)" "turn_at (homes s h) (turn_id t) = Some t"
    and "after_admission host self h req w t th load s = (r, s')"
  shows "is_shutting_down (os s') \<or>
    (\<exists>t'. turn_at (homes s' h) (turn_id t) = Some t' \<and> is_terminal (turn_status t')) \<and>
    (\<forall>out. r = Inr out \<longrightarrow> is_terminal (turn_status (out_turn out)))"
proof -
  have "on_disk (turn_id t) (homes s h)" using assms reachable_inv(1) by (simp add: on_disk_def)
  then show ?thesis using after_admission_ended [OF assms(1), of t s host self req th load] assms(6)
    by (simp add: ended_def settled_def shutdown_def)
qed

text \<open>Another process completes the turn between its admission and the start of the agent.\<close>

definition completed_elsewhere :: "sys \<Rightarrow> sys" where
  "completed_elsewhere s =
     s\<lparr>homes := (homes s)(''/h'' := snd (publish_section 0 ''tu724'' Completed ''end_turn'' [] (homes s ''/h'')))\<rparr>"

definition sample_sys :: sys where
  "sample_sys = \<lparr>homes = \<lambda>_. home2, configs = \<lambda>_. Inl True, result_files = [], result_fault = \<lambda>_. False, os = sample_os\<rparr>"

definition sample_world :: turn_world where
  "sample_world =
     \<lparr>init_events = [], init_reply = Inl ''closed'', session_events = [], load_reply = Inl ''closed'', new_reply = Inl ''closed'',
      prompt_events = [], prompt_reply = Inl ''closed'', internal_text = \<lambda>t. t, after_admit = completed_elsewhere,
      spawn_reply = Inl ''no such file'', after_spawn = \<lambda>s. s, at_end = \<lambda>s. s, path_exists = \<lambda>_. False, canonicalize = Inr,
      head_output = None, diff_output = \<lambda>_. None, from_utf8 = Some, from_utf8_lossy = \<lambda>t. t, workspace = [],
      workspace_fault = \<lambda>_. None\<rparr>"

lemma sample_world_sound: "sound_world ''/h'' sample_world"
proof -
  have "advances l (snd (publish_section 0 ''tu724'' Completed ''end_turn'' [] l))" for l
    by (auto simp: advances_def intro!: r_into_rtranclp step_publish)
  then show ?thesis
    by (simp add: sound_world_def sound_script_def sound_others_def sample_world_def sys_advances_def
        completed_elsewhere_def adv.frame_refl)
qed

definition sample_host :: host where
  "sample_host = \<lparr>env_var = \<lambda>_. None, current_dir = Inr ''/w'', io_text = \<lambda>_. ''io'', json_error_text = ''json'',
     config_io_text = ''io'', debug_str = \<lambda>t. t, json_to_text = \<lambda>_. [], json_of_text = \<lambda>_. None\<rparr>"

definition sample_request :: turn_request where
  "sample_request = start_request sample_host ''/w'' ''hi'' Never WorkspaceWrite [] [] None"

theorem admitted_turn_ends_witness:
  "\<exists>r s' out t'. after_admission sample_host 1 ''/h'' sample_request sample_world turn1 thread1 None sample_sys = (r, s')
     \<and> r = Inr out \<and> is_terminal (turn_status (out_turn out))
     \<and> turn_at (homes s' ''/h'') ''tu724'' = Some t' \<and> is_terminal (turn_status t')"
proof -
  have "turn_result_of home3 ''tu724'' = Inr turn1_done"
    using home3_at home3_no_fault by (simp add: turn_result_Inr)
  then have run: "after_admission sample_host 1 ''/h'' sample_request sample_world turn1 thread1 None sample_sys
      = (Inr \<lparr>out_turn = turn1_done, files_changed = [], files_changed_complete = False\<rparr>, completed_elsewhere sample_sys)"
    by (simp add: after_admission_def sample_world_def sample_sys_def completed_elsewhere_def others_run_def wp
        or_fail_def early_outcome_def home3_def [symmetric] turn1_done_def)
  have "reachable (homes sample_sys ''/h'')" "\<not> fault (homes sample_sys ''/h'') op"
      "turn_at (homes sample_sys ''/h'') (turn_id turn1) = Some turn1" for op
    using reachable_homes(2) home2_at by (simp_all add: sample_sys_def)
  note ends = admitted_turn_ends [OF sample_world_sound this(1,2) _ this(3) run]
  have "\<not> is_shutting_down (os (completed_elsewhere sample_sys))"
    by (simp add: completed_elsewhere_def sample_sys_def sample_os_def)
  then show ?thesis unfolding run using ends by auto
qed

end
