(* ===== verification/MapperProps.thy ===== *)
theory MapperProps
  imports Mapper LedgerOps
begin

text \<open>
  What the mapper of \<^verbatim>\<open>crates/adapter-grok/src/map.rs\<close> guarantees for every sequence of
  notifications, and how its items get into the ledger.
\<close>

text \<open>A turn's notifications, applied one after the other; the emitted items in order.\<close>

fun apply_all :: "(json \<Rightarrow> string) \<Rightarrow> session_update list \<Rightarrow> item list mapper_action" where
  "apply_all render [] = ok []"
| "apply_all render (u # us) =
     and_then (apply_update render u) (\<lambda>its. and_then (apply_all render us) (\<lambda>rest. ok (its @ rest)))"

lemma one_change_subset: "one_change old its new \<Longrightarrow> set its \<subseteq> set new"
  by (auto simp: one_change_def set_update_memI)

lemma new_mapper_ok: "mapper_ok (new_mapper t)"
  by (simp add: mapper_ok_def new_mapper_def item_ok_def)

lemma apply_all_ok:
  "mapper_ok m \<Longrightarrow> runs_to (apply_all render us) m (\<lambda>its m'. mapper_ok m' \<and> list_all item_ok its)"
proof (induction us arbitrary: m)
  case Nil
  then show ?case by (simp add: runs_to_ok)
next
  case (Cons u us)
  show ?case unfolding apply_all.simps
  proof (rule runs_to_and_then [OF apply_update_ok [OF Cons.prems]])
    fix its m'
    assume em: "emits m its m'"
    then have ok': "mapper_ok m'" "list_all item_ok its"
      by (auto simp: emits_def mapper_ok_def list_all_iff dest!: one_change_subset)
    show "runs_to (and_then (apply_all render us) (\<lambda>rest. ok (its @ rest))) m'
        (\<lambda>its m'. mapper_ok m' \<and> list_all item_ok its)"
      by (rule runs_to_and_then [OF Cons.IH [OF ok'(1)]]) (simp add: runs_to_ok ok'(2))
  qed
qed

text \<open>Whatever an agent sends, the mapper neither panics nor stops the turn with an
  excluded-fatal item, and every item it holds or emits has an identifier the ledger accepts and
  one of the six public item types.\<close>

theorem mapper_never_fails:
  "runs_to (apply_all render us) (new_mapper t) (\<lambda>its m. list_all item_ok (its @ mapped_items m))"
  by (rule runs_to_mono [OF apply_all_ok [OF new_mapper_ok]]) (auto simp: mapper_ok_def list_all_iff)

text \<open>Every identifier an agent chooses becomes a valid ledger identifier, and one that already
  is valid is kept.\<close>

theorem sanitize_id_normalises:
  "valid_id (sanitize_id raw) \<and> sanitize_id (sanitize_id raw) = sanitize_id raw \<and>
   (sanitize_id raw = raw \<longleftrightarrow> valid_id raw)"
  using sanitize_id_valid sanitize_id_idempotent by metis

section \<open>Into the ledger\<close>

lemma upsert_new: "item_id it \<notin> item_id ` set xs \<Longrightarrow> upsert it xs = xs @ [it]"
  by (induction xs) auto

lemma upsert_replace:
  "distinct (map item_id xs) \<Longrightarrow> idx < length xs \<Longrightarrow> item_id it = item_id (xs ! idx) \<Longrightarrow> upsert it xs = xs[idx := it]"
proof (induction xs arbitrary: idx)
  case (Cons x xs)
  then show ?case by (cases idx) (auto simp: image_iff)
qed simp

lemma map_update_same_id: "idx < length xs \<Longrightarrow> item_id it = item_id (xs ! idx) \<Longrightarrow> map item_id (xs[idx := it]) = map item_id xs"
  by (simp add: map_update list_update_same_conv)

lemma emits_upserts:
  assumes "emits m its m'" "distinct (map item_id (mapped_items m'))"
  shows "fold upsert its (mapped_items m) = mapped_items m' \<and> distinct (map item_id (mapped_items m))"
  using assms by (auto simp: emits_def one_change_def upsert_new upsert_replace map_update_same_id)

lemma apply_all_upserts:
  "mapper_ok m \<Longrightarrow> apply_all render us m = (Inr its, m') \<Longrightarrow> distinct (map item_id (mapped_items m')) \<Longrightarrow>
     fold upsert its (mapped_items m) = mapped_items m' \<and> distinct (map item_id (mapped_items m))"
proof (induction us arbitrary: m its)
  case Nil
  then show ?case by (simp add: wp)
next
  case (Cons u us)
  from Cons.prems(2) obtain its1 m1 its2 where run: "apply_update render u m = (Inr its1, m1)"
      "apply_all render us m1 = (Inr its2, m')" "its = its1 @ its2"
    by (auto simp: and_then_def ok_def split: prod.splits sum.splits simp del: apply_update.simps)
  have em: "emits m its1 m1" using apply_update_ok [OF Cons.prems(1), of render u] run(1) by (simp add: runs_to_def)
  then have "mapper_ok m1" by (simp add: emits_def)
  from Cons.IH [OF this run(2) Cons.prems(3)] emits_upserts [OF em] show ?case by (simp add: run(3))
qed

definition finished :: "item option \<Rightarrow> item list" where
  "finished it = (case it of None \<Rightarrow> [] | Some it \<Rightarrow> [it])"

lemma finish_agent_message_ok:
  assumes "mapper_ok m"
  shows "runs_to finish_agent_message m (\<lambda>it. emits m (finished it))"
proof (cases "position (\<lambda>it. item_id it = AGENT_ITEM_ID) (mapped_items m)")
  case None
  then show ?thesis using assms by (simp add: runs_to_def finish_agent_message_def wp emits_none finished_def)
next
  case (Some idx)
  then have idx: "idx < length (mapped_items m)" using position_Some by fastforce
  then have "item_type (mapped_items m ! idx) \<in> set PUBLIC_ITEM_TYPES"
    using assms by (auto simp: mapper_ok_def item_ok_def)
  then have "mapper_ok (m\<lparr>mapped_items := (mapped_items m)[idx := item_status_update (\<lambda>_. ITEM_STATUS_COMPLETED) (mapped_items m ! idx)]\<rparr>)"
    using mapper_ok_set [OF assms idx] by simp
  then show ?thesis using idx Some
    by (simp add: runs_to_def finish_agent_message_def wp item_runs emits_def one_change_set finished_def)
qed

text \<open>The ledger's items follow the mapper's. When the items of a turn are the mapper's and
  identifiers are pairwise different, upserting what one notification emits makes them the
  mapper's again: same items, same order.\<close>

theorem ledger_items_follow_mapper:
  assumes "mapper_ok m" "apply_update render u m = (Inr its, m')" "distinct (map item_id (mapped_items m'))"
  shows "fold upsert its (mapped_items m) = mapped_items m'"
proof -
  have "emits m its m'" using apply_update_ok [OF assms(1), of render u] assms(2) by (simp add: runs_to_def)
  then show ?thesis using emits_upserts assms(3) by blast
qed

definition example_call :: tool_call where
  "example_call = \<lparr>call_id = ''c1'', call_kind = Edit, call_title = ''patch'', call_status = ToolInProgress, call_raw_input = None\<rparr>"

theorem ledger_items_follow_mapper_witness:
  "\<exists>its m'. apply_update (\<lambda>_. []) (ToolCall example_call) (new_mapper ''hi'') = (Inr its, m') \<and>
     fold upsert its (mapped_items (new_mapper ''hi'')) = mapped_items m' \<and> length (mapped_items m') = 2"
proof -
  have id: "sanitize_id ''c1'' = ''c1''"
    by (rule sanitize_id_idempotent) (simp add: valid_id_def id_char_def is_ascii_alphanumeric_def byte_of_def)
  obtain its m' where run: "apply_update (\<lambda>_. []) (ToolCall example_call) (new_mapper ''hi'') = (Inr its, m')"
    "distinct (map item_id (mapped_items m'))" "length (mapped_items m') = 2"
    by (simp add: apply_tool_call_def example_call_def map_kind_def reject_public PUBLIC_ITEM_TYPES_def wp
        store_tool_def new_mapper_def Let_def item_runs id USER_ITEM_ID_def)
  then show ?thesis using ledger_items_follow_mapper [OF new_mapper_ok run(1,2)] by blast
qed

section \<open>Agent messages\<close>

definition agent_item :: "string \<Rightarrow> string \<Rightarrow> item" where
  "agent_item t st = \<lparr>item_id = AGENT_ITEM_ID, item_type = ITEM_AGENT_MESSAGE, item_text = t, item_status = st\<rparr>"

lemma agent_chunk_again:
  assumes "mapped_items m = [u, agent_item t st]" "item_id u \<noteq> AGENT_ITEM_ID"
  shows "apply_update render (AgentMessageChunk (TextBlock c)) m =
    (Inr [agent_item (t @ c) st], m\<lparr>mapped_items := [u, agent_item (t @ c) st]\<rparr>)"
  using assms by (simp add: wp upsert_agent_def set_item_run item_by_id_def agent_item_def)

lemma agent_chunks_again:
  "mapped_items m = [u, agent_item t st] \<Longrightarrow> item_id u \<noteq> AGENT_ITEM_ID \<Longrightarrow>
     \<exists>its. apply_all render (map (\<lambda>c. AgentMessageChunk (TextBlock c)) cs) m =
       (Inr its, m\<lparr>mapped_items := [u, agent_item (t @ concat cs) st]\<rparr>)"
proof (induction cs arbitrary: m t)
  case Nil
  then show ?case by (simp add: wp)
next
  case (Cons c cs)
  let ?m = "m\<lparr>mapped_items := [u, agent_item (t @ c) st]\<rparr>"
  have "\<exists>its. apply_all render (map (\<lambda>c. AgentMessageChunk (TextBlock c)) cs) ?m =
       (Inr its, m\<lparr>mapped_items := [u, agent_item (t @ concat (c # cs)) st]\<rparr>)"
    using Cons.IH [of ?m "t @ c"] Cons.prems(2) by simp
  then show ?case using agent_chunk_again [OF Cons.prems, of render c]
    by (auto simp: and_then_run ok_run simp del: apply_update.simps)
qed

text \<open>The text of the agent message is the concatenation of its chunks in order; it is in
  progress until the prompt returns and completed then.\<close>

theorem agent_message_accumulates:
  "\<exists>its m. apply_all render (map (\<lambda>c. AgentMessageChunk (TextBlock c)) (c # cs)) (new_mapper t) = (Inr its, m) \<and>
     mapped_items m = mapped_items (new_mapper t) @ [agent_item (concat (c # cs)) ITEM_STATUS_IN_PROGRESS] \<and>
     fst (finish_agent_message m) = Inr (Some (agent_item (concat (c # cs)) ITEM_STATUS_COMPLETED))"
proof -
  let ?u = "\<lparr>item_id = USER_ITEM_ID, item_type = ITEM_USER_MESSAGE, item_text = t, item_status = ITEM_STATUS_COMPLETED\<rparr>"
  let ?m = "\<lambda>x. \<lparr>mapped_items = [?u, agent_item x ITEM_STATUS_IN_PROGRESS], mapped_tools = []\<rparr>"
  have u: "item_id ?u \<noteq> AGENT_ITEM_ID" by (simp add: USER_ITEM_ID_def AGENT_ITEM_ID_def)
  then have first: "apply_update render (AgentMessageChunk (TextBlock c)) (new_mapper t) =
      (Inr [agent_item c ITEM_STATUS_IN_PROGRESS], ?m c)"
    by (simp add: wp upsert_agent_def push_item_run item_by_id_def agent_item_def new_mapper_def)
  obtain its where "apply_all render (map (\<lambda>c. AgentMessageChunk (TextBlock c)) cs) (?m c) = (Inr its, ?m (c @ concat cs))"
    using agent_chunks_again [of "?m c" ?u c ITEM_STATUS_IN_PROGRESS render cs] u by auto
  then have "apply_all render (map (\<lambda>c. AgentMessageChunk (TextBlock c)) (c # cs)) (new_mapper t) =
      (Inr (agent_item c ITEM_STATUS_IN_PROGRESS # its), ?m (concat (c # cs)))"
    using first by (simp add: and_then_run ok_run del: apply_update.simps)
  moreover have "fst (finish_agent_message (?m x)) = Inr (Some (agent_item x ITEM_STATUS_COMPLETED))" for x
    using u by (simp add: finish_agent_message_def wp item_runs agent_item_def)
  ultimately show ?thesis by (auto simp: new_mapper_def)
qed


end
