(* ===== verification/Cooperative.thy ===== *)
theory Cooperative
  imports RunTurnProps MapperProps
begin

text \<open>
  The run of an admitted turn with an agent that keeps to the protocol: driver, mapper, ledger and
  process table together. \<open>Conversation\<close> puts the admission before it.
\<close>

section \<open>The records of a running turn\<close>

lemma memory_turns_dir [simp]:
  "turns_dir (wake self i s) = turns_dir s" "turns_dir (wake_all self s) = turns_dir s"
  "turns_dir (wake_and_drop self i s) = turns_dir s" "turns_dir (release_live self g s) = turns_dir s"
  "turns_dir (hold_live self g s) = turns_dir s" "turns_dir (bump_seq self s) = turns_dir s" "turns_dir (tick s) = turns_dir s"
  by (simp_all add: same_records_memory [unfolded same_records_def] same_records_bump [unfolded same_records_def])

lemma put_turns_dir [simp]:
  "turns_dir (put_turn t s) = AList.update (json_name (turn_id t)) (Body t) (turns_dir s)"
  "turns_dir (put_thread th s) = turns_dir s" "turns_dir (put_generation_at i g s) = turns_dir s"
  "turns_dir (put_generation g s) = turns_dir s"
  by (simp_all add: put_turn_def put_thread_def put_generation_at_def put_generation_def)

lemma put_generation_at_dom: "dom (generation_at (put_generation_at i g s)) = insert i (dom (generation_at s))"
  by (auto simp: put_generation_at_def generation_at_def update_conv' json_name_def body_of_def split: if_splits)

lemmas [simp] = distinct_update

lemma delete_update_same [simp]: "AList.delete k (AList.update k v al) = AList.delete k al"
  by (induction al) auto

text \<open>
  Behind the turn: its thread as it was admitted, the other files of the turns directory, the
  generations there were.
\<close>

record background =
  bg_thread :: wire_thread
  bg_turns :: "(string \<times> turn node) list"
  bg_generations :: "string set"

text \<open>
  The turn, its thread (with a given session, and the turn as its turn in progress until it is over) and its
  generation are on disk under their own names, the background is as it was, and no file operation fails.
\<close>

definition ready :: "background \<Rightarrow> turn \<Rightarrow> string \<Rightarrow> ledger \<Rightarrow> bool" where
  "ready bg t session l \<longleftrightarrow>
     (\<forall>op. \<not> fault l op) \<and>
     valid_id (turn_id t) \<and> turn_at l (turn_id t) = Some t \<and>
     valid_id (turn_thread_id t) \<and> thread_id (bg_thread bg) = turn_thread_id t \<and>
     thread_at l (turn_thread_id t) = Some ((bg_thread bg)
       \<lparr>acp_session_id := session, in_progress_turn_id := if is_terminal (turn_status t) then [] else turn_id t\<rparr>) \<and>
     valid_id (turn_generation_id t) \<and> generation_at l (turn_generation_id t) \<noteq> None \<and>
     distinct (map fst (turns_dir l)) \<and> AList.delete (json_name (turn_id t)) (turns_dir l) = bg_turns bg \<and>
     bg_generations bg \<subseteq> dom (generation_at l)"

lemma readyD:
  assumes "ready bg t session l"
  shows "\<not> fault l op" "valid_id (turn_id t)" "turn_at l (turn_id t) = Some t" "valid_id (turn_thread_id t)"
    "valid_id (turn_generation_id t)" "turn_result_of l (turn_id t) = Inr t"
    "validate_id (turn_id t) = Inr ()" "validate_id (turn_thread_id t) = Inr ()" "validate_id (turn_generation_id t) = Inr ()"
  using assms by (simp_all add: ready_def turn_result_Inr validate_id_def if_ok_def)

lemma upsert_item_ready:
  assumes "ready bg t session l" "\<not> is_terminal (turn_status t)" "valid_id (item_id it)"
  shows "runs_to (upsert_item self (turn_id t) it) l (\<lambda>t' l'. t' = t\<lparr>turn_items := upsert it (turn_items t)\<rparr> \<and> ready bg t' session l')"
  using assms readyD [OF assms(1)]
  by (simp add: runs_to_def upsert_item_def with_turn_lock_def upsert_section_def wp validate_id_def if_ok_def ready_def Let_def)

lemma put_generation_at_at [simp]:
  "turn_at (put_generation_at i g l) = turn_at l" "thread_at (put_generation_at i g l) = thread_at l"
  "generation_at (put_generation_at i g l) i = Some g"
  by (simp_all add: fun_eq_iff put_generation_at_def turn_at_def thread_at_def generation_at_def)

lemma set_child_pid_ready:
  assumes "ready bg t session l"
  shows "runs_to (set_child_pid self (turn_generation_id t) pid) l (\<lambda>_. ready bg t session)"
proof -
  obtain g where "generation_result l (turn_generation_id t) = Inr g"
    using assms by (auto simp: ready_def generation_result_Inr)
  then show ?thesis using assms readyD [OF assms]
    by (simp add: runs_to_def set_child_pid_def wp validate_id_def if_ok_def ready_def Let_def put_generation_at_dom subset_insertI2)
qed

lemma mark_child_eof_ready:
  assumes "ready bg t session l"
  shows "runs_to (mark_child_eof self (turn_generation_id t)) l (\<lambda>_. ready bg t session)"
proof -
  obtain g where "generation_result l (turn_generation_id t) = Inr g"
    using assms by (auto simp: ready_def generation_result_Inr)
  then show ?thesis using assms readyD [OF assms]
    by (simp add: runs_to_def mark_child_eof_def wp validate_id_def if_ok_def ready_def Let_def put_generation_at_dom subset_insertI2)
qed

lemma set_session_ready:
  assumes "ready bg t session l"
  shows "runs_to (set_acp_session_id self (turn_thread_id t) session') l (\<lambda>_. ready bg t session')"
proof -
  let ?th = "(bg_thread bg)\<lparr>acp_session_id := session, in_progress_turn_id := if is_terminal (turn_status t) then [] else turn_id t\<rparr>"
  have "thread_result l (turn_thread_id t) = Inr ?th"
    using assms by (auto simp: ready_def thread_result_Inr)
  then show ?thesis using assms readyD [OF assms]
    by (simp add: runs_to_def set_acp_session_id_def wp validate_id_def if_ok_def ready_def Let_def)
qed

lemma publish_ready:
  assumes "ready bg t session l" "\<not> is_terminal (turn_status t)" "is_terminal status"
  shows "runs_to (publish_terminal self (turn_id t) status stop failure) l
    (\<lambda>t' l'. t' = t\<lparr>turn_status := status, stop_reason := stop, failure_reason := failure\<rparr> \<and> ready bg t' session l')"
proof -
  obtain th where th: "thread_at l (turn_thread_id t) = Some th" "thread_id th = turn_thread_id t" "acp_session_id th = session"
    using assms by (auto simp: ready_def)
  then have "thread_result (put_turn t' (bump_seq self l)) (turn_thread_id t) = Inr th" for t'
    using readyD [OF assms(1)] by (simp add: thread_result_Inr)
  then show ?thesis using th assms readyD [OF assms(1)]
    by (simp add: runs_to_def publish_terminal_def with_turn_lock_def publish_section_def publish_terminal_locked_def wp
      validate_id_def if_ok_def ready_def Let_def)
qed

section \<open>The connection at work\<close>

definition working :: "background \<Rightarrow> turn_ctx \<Rightarrow> bool \<Rightarrow> os_state \<Rightarrow> string \<Rightarrow> mapper \<Rightarrow> turn \<Rightarrow> conn \<Rightarrow> bool" where
  "working bg ctx history sys_os session m t c \<longleftrightarrow>
     shared c = \<lparr>sh_mapper = m, sh_fatal = None, sh_history = history\<rparr> \<and> mapper_ok m \<and>
     turn_id t = ctx_turn ctx \<and> turn_thread_id t = ctx_thread ctx \<and>
     ready bg t session (homes (the_sys c) (ctx_home ctx)) \<and> os (the_sys c) = sys_os"

lemma ledger_call_runs:
  assumes "runs_to m (homes (the_sys c) (ctx_home ctx)) Q"
  shows "runs_to (ledger_call ctx m) c (\<lambda>x c'. \<exists>l'. Q x l' \<and>
    c' = c\<lparr>the_sys := (the_sys c)\<lparr>homes := (homes (the_sys c))(ctx_home ctx := l')\<rparr>\<rparr>)"
  using assms by (auto simp: runs_to_def ledger_call_run in_home_run)

lemma try_call_runs:
  assumes "runs_to m (homes (the_sys c) (ctx_home ctx)) Q"
  shows "\<exists>x l'. Q x l' \<and> try_call ctx m c = c\<lparr>the_sys := (the_sys c)\<lparr>homes := (homes (the_sys c))(ctx_home ctx := l')\<rparr>\<rparr>"
  using ledger_call_runs [OF assms] unfolding runs_to_def try_call_def by force

definition with_items :: "item list \<Rightarrow> turn \<Rightarrow> turn" where
  "with_items its t = t\<lparr>turn_items := fold upsert its (turn_items t)\<rparr>"

lemma with_items_simps [simp]:
  "with_items [] t = t"
  "with_items its (with_items its' t) = with_items (its' @ its) t"
  "turn_status (with_items its t) = turn_status t" "turn_id (with_items its t) = turn_id t"
  "turn_thread_id (with_items its t) = turn_thread_id t" "turn_generation_id (with_items its t) = turn_generation_id t"
  by (simp_all add: with_items_def)

lemma upsert_items_working:
  "working bg ctx history sys_os session m t c \<Longrightarrow> \<not> is_terminal (turn_status t) \<Longrightarrow> list_all item_ok its \<Longrightarrow>
     working bg ctx history sys_os session m (with_items its t) (upsert_items ctx its c)"
proof (induction its arbitrary: t c)
  case (Cons it its)
  have "valid_id (item_id it)" "ready bg t session (homes (the_sys c) (ctx_home ctx))" "ctx_turn ctx = turn_id t"
    using Cons.prems by (auto simp: item_ok_def working_def)
  then have "working bg ctx history sys_os session m (with_items [it] t)
      (try_call ctx (upsert_item (ctx_self ctx) (ctx_turn ctx) it) c)"
    using try_call_runs [OF upsert_item_ready [OF _ Cons.prems(2)], of bg session c ctx it "ctx_self ctx"] Cons.prems(1)
    unfolding working_def with_items_def by fastforce
  then show ?case
    using Cons.IH [of "with_items [it] t"] Cons.prems(2,3) by (simp add: upsert_items_def)
qed (simp add: upsert_items_def)

lemma apply_notification_working:
  assumes "working bg ctx False sys_os session m t c" "\<not> is_terminal (turn_status t)"
    and "apply_update (json_to_text (ctx_host ctx)) u m = (Inr its, m')"
  shows "working bg ctx False sys_os session m' (with_items its t) (apply_notification ctx u c)"
proof -
  have em: "emits m its m'" using apply_update_ok [of m "json_to_text (ctx_host ctx)" u] assms(1,3)
    by (simp add: working_def runs_to_def)
  then have its: "list_all item_ok its"
    by (auto simp: emits_def mapper_ok_def list_all_iff dest!: one_change_subset)
  have "working bg ctx False sys_os session m' t (c\<lparr>shared := (shared c)\<lparr>sh_mapper := m'\<rparr>\<rparr>)"
    using assms(1) em by (simp add: working_def emits_def)
  from upsert_items_working [OF this assms(2) its] show ?thesis
    using assms(1,3) by (simp add: apply_notification_def working_def)
qed

text \<open>
  Events that leave the turn to the updates: files are read and written, permissions granted
  without asking, and other threads and processes keep away from this home and the process table.
\<close>

definition quiet :: "string \<Rightarrow> (sys \<Rightarrow> sys) \<Rightarrow> bool" where
  "quiet h f \<longleftrightarrow> (\<forall>s. homes (f s) h = homes s h \<and> os (f s) = os s)"

fun calm :: "approval_policy \<Rightarrow> string \<Rightarrow> event \<Rightarrow> bool" where
  "calm policy h (RequestPermission options) \<longleftrightarrow> policy = Never \<and> allow_option options \<noteq> None"
| "calm policy h (Decide k sched) \<longleftrightarrow> False"
| "calm policy h (Others f) \<longleftrightarrow> quiet h f"
| "calm policy h _ \<longleftrightarrow> True"

fun updates_of :: "event list \<Rightarrow> session_update list" where
  "updates_of [] = []"
| "updates_of (Update u # evs) = u # updates_of evs"
| "updates_of (e # evs) = updates_of evs"

lemma updates_of_Update [simp]: "updates_of (map Update us) = us"
  by (induction us) simp_all

lemma working_frame [simp]:
  "working bg ctx history sys_os session m t (c\<lparr>requests := rs\<rparr>) \<longleftrightarrow> working bg ctx history sys_os session m t c"
  "working bg ctx history sys_os session m t (answer a c) \<longleftrightarrow> working bg ctx history sys_os session m t c"
  "working bg ctx history sys_os session m t (c\<lparr>files := fs\<rparr>) \<longleftrightarrow> working bg ctx history sys_os session m t c"
  by (simp_all add: working_def answer_def)

lemma calm_event_working:
  assumes "working bg ctx False sys_os session m t c" "calm (ctx_approval ctx) (ctx_home ctx) e" "updates_of [e] = []"
  shows "working bg ctx False sys_os session m t (on_event ctx e c)"
proof (cases e)
  case (WriteTextFile path content)
  then show ?thesis using assms(1)
    by (auto simp: on_write_def write_text_file_def split: sum.splits option.splits prod.splits)
next
  case (ReadTextFile path)
  then show ?thesis using assms(1) by (auto simp: on_read_def split: sum.splits file_error.splits)
next
  case (RequestPermission options)
  moreover have "\<not> sh_history (shared c)" using assms(1) by (simp add: working_def)
  ultimately show ?thesis using assms(1,2) by (auto simp: on_permission_def auto_allow_permission_def)
next
  case (Others f)
  then show ?thesis using assms(1,2) by (simp add: working_def quiet_def)
qed (use assms in auto)

lemma receive_working:
  "working bg ctx False sys_os session m t c \<Longrightarrow> \<not> is_terminal (turn_status t) \<Longrightarrow>
   list_all (calm (ctx_approval ctx) (ctx_home ctx)) evs \<Longrightarrow>
   apply_all (json_to_text (ctx_host ctx)) (updates_of evs) m = (Inr its, m') \<Longrightarrow>
     working bg ctx False sys_os session m' (with_items its t) (receive ctx evs c)"
proof (induction evs arbitrary: m t c its)
  case Nil
  then show ?case by (simp add: receive_def wp)
next
  case (Cons e evs)
  note prems = Cons.prems and IH = Cons.IH
  show ?case
  proof (cases "updates_of [e]")
    case Nil
    then have "updates_of (e # evs) = updates_of evs" by (cases e) simp_all
    moreover have "working bg ctx False sys_os session m t (on_event ctx e c)"
      using calm_event_working [OF prems(1) _ Nil] prems(3) by simp
    ultimately show ?thesis using IH [of m t "on_event ctx e c" its] prems by (simp add: receive_def)
  next
    case (Cons u us)
    then have e: "e = Update u" by (cases e) simp_all
    with prems(4) obtain its1 m1 its2 where run: "apply_update (json_to_text (ctx_host ctx)) u m = (Inr its1, m1)"
        "apply_all (json_to_text (ctx_host ctx)) (updates_of evs) m1 = (Inr its2, m')" "its = its1 @ its2"
      by (auto simp: and_then_def ok_def split: prod.splits sum.splits simp del: apply_update.simps)
    have "working bg ctx False sys_os session m1 (with_items its1 t) (apply_notification ctx u c)"
      by (rule apply_notification_working [OF prems(1,2) run(1)])
    from IH [OF this _ _ run(2)] show ?thesis
      using prems(2,3) run(3) e by (simp add: receive_def)
  qed
qed

text \<open>What a loaded session replays is no part of the turn.\<close>

lemma receive_history: "sh_history (shared c) \<Longrightarrow> receive ctx (map Update us) c = c"
  by (induction us) (simp_all add: receive_def apply_notification_def)

lemma finish_message_working:
  assumes "working bg ctx False sys_os session m t c" "\<not> is_terminal (turn_status t)"
    and "finish_agent_message m = (Inr it, m')"
  shows "working bg ctx False sys_os session m' (with_items (finished it) t) (finish_message ctx c)"
proof -
  have em: "emits m (finished it) m'" using finish_agent_message_ok [of m] assms(1,3)
    by (simp add: working_def runs_to_def)
  then have its: "list_all item_ok (finished it)"
    by (auto simp: emits_def mapper_ok_def list_all_iff dest!: one_change_subset)
  have "working bg ctx False sys_os session m' t (c\<lparr>shared := (shared c)\<lparr>sh_mapper := m'\<rparr>\<rparr>)"
    using assms(1) em by (simp add: working_def emits_def)
  from upsert_items_working [OF this assms(2) its] show ?thesis
    using assms(1,3) by (cases it) (simp_all add: finish_message_def working_def finished_def upsert_items_def)
qed

section \<open>The prompt\<close>

text \<open>
  An agent that keeps to the protocol: it sends nothing before its session is there (a loaded
  session may replay its history), then calm events with the given updates among them, and
  every reply is a result.
\<close>

definition cooperative :: "approval_policy \<Rightarrow> string \<Rightarrow> 'x agent_script_scheme \<Rightarrow> string option \<Rightarrow> string \<Rightarrow> session_update list \<Rightarrow> stop_reason_kind \<Rightarrow> bool" where
  "cooperative policy h w load session us stop \<longleftrightarrow>
     init_events w = [] \<and>
     (case load of
        None \<Rightarrow> init_reply w \<in> range Inr \<and> session_events w = [] \<and> new_reply w = Inr session
      | Some sid \<Rightarrow> init_reply w = Inr True \<and> (\<exists>replayed. session_events w = map Update replayed) \<and>
                    load_reply w = Inr () \<and> session = sid) \<and>
     list_all (calm policy h) (prompt_events w) \<and> updates_of (prompt_events w) = us \<and> prompt_reply w = Inr stop"

lemma exchange_run:
  "exchange ctx r evs reply c = (reply, receive ctx evs (c\<lparr>requests := requests c @ [r]\<rparr>))"
  by (cases reply) (simp_all add: exchange_def send_request_def wp)

lemma new_session_working:
  assumes "working bg ctx False sys_os session0 m t c" "session_events w = []" "new_reply w = Inr session"
    and "\<not> ctx_inject_persist_failure ctx"
  shows "runs_to (new_session ctx w) c (\<lambda>sid c'. sid = session \<and> working bg ctx False sys_os session m t c')"
proof -
  let ?c = "c\<lparr>requests := requests c @ [NewSession (ctx_cwd ctx) (session_meta (ctx_instructions ctx))]\<rparr>"
  have "working bg ctx False sys_os session0 m t ?c" using assms(1) by simp
  then have "ready bg t session0 (homes (the_sys ?c) (ctx_home ctx))" "ctx_thread ctx = turn_thread_id t"
    by (simp_all add: working_def)
  then have set: "runs_to (set_acp_session_id (ctx_self ctx) (ctx_thread ctx) session) (homes (the_sys ?c) (ctx_home ctx)) (\<lambda>_. ready bg t session)"
    using set_session_ready by simp
  have "runs_to (ledger_call ctx (set_acp_session_id (ctx_self ctx) (ctx_thread ctx) session)) ?c
      (\<lambda>_. working bg ctx False sys_os session m t)"
    by (rule runs_to_mono [OF ledger_call_runs [OF set]]) (use assms(1) in \<open>auto simp: working_def\<close>)
  then show ?thesis using assms(2-4)
    by (auto simp: runs_to_def new_session_def wp exchange_run receive_def)
qed

lemma load_session_working:
  assumes "working bg ctx False sys_os sid m t c" "session_events w = map Update replayed" "load_reply w = Inr ()"
  shows "runs_to (load_session ctx w sid True) c (\<lambda>sid' c'. sid' = sid \<and> working bg ctx False sys_os sid m t c')"
  using assms by (simp add: runs_to_def load_session_def wp exchange_run set_history_def receive_history working_def)

lemma drive_prompt_working:
  assumes "working bg ctx False sys_os session0 m t c" "\<not> is_terminal (turn_status t)"
    and "cooperative (ctx_approval ctx) (ctx_home ctx) w (ctx_load_session ctx) session us stop"
    and "case ctx_load_session ctx of None \<Rightarrow> \<not> ctx_inject_persist_failure ctx | Some sid \<Rightarrow> session0 = sid"
    and "apply_all (json_to_text (ctx_host ctx)) us m = (Inr its, m1)" "finish_agent_message m1 = (Inr it, m2)"
  shows "runs_to (drive_prompt ctx w) c
    (\<lambda>stop' c'. stop' = stop \<and> working bg ctx False sys_os session m2 (with_items (its @ finished it) t) c')"
proof -
  let ?c = "c\<lparr>requests := requests c @ [Initialize]\<rparr>"
  obtain b where init: "init_events w = []" "init_reply w = Inr b"
    using assms(3) by (cases "ctx_load_session ctx") (auto simp: cooperative_def)
  have "working bg ctx False sys_os session0 m t ?c" using assms(1) by simp
  then have "runs_to (case ctx_load_session ctx of Some sid \<Rightarrow> load_session ctx w sid b | None \<Rightarrow> new_session ctx w) ?c
      (\<lambda>sid c'. sid = session \<and> working bg ctx False sys_os session m t c')"
  proof (cases "ctx_load_session ctx")
    case None
    then show ?thesis using new_session_working [of bg ctx sys_os session0 m t ?c w session] assms(1,3,4) by (simp add: cooperative_def)
  next
    case (Some sid)
    then obtain replayed where "session_events w = map Update replayed" using assms(3) by (auto simp: cooperative_def)
    then show ?thesis using load_session_working [of bg ctx sys_os sid m t ?c w replayed] assms(1,3,4) init(2) Some
      by (simp add: cooperative_def)
  qed
  then obtain c1 where c1: "(case ctx_load_session ctx of Some sid \<Rightarrow> load_session ctx w sid b | None \<Rightarrow> new_session ctx w) ?c
      = (Inr session, c1)" "working bg ctx False sys_os session m t c1" by (auto simp: runs_to_def)
  let ?c1 = "c1\<lparr>requests := requests c1 @ [Prompt session (ctx_prompt ctx)]\<rparr>"
  have "working bg ctx False sys_os session m t ?c1" using c1(2) by simp
  from receive_working [OF this assms(2), of "prompt_events w" its m1]
  have "working bg ctx False sys_os session m1 (with_items its t) (receive ctx (prompt_events w) ?c1)"
    using assms(3,5) by (simp add: cooperative_def)
  from finish_message_working [OF this _ assms(6)]
  have "working bg ctx False sys_os session m2 (with_items (its @ finished it) t) (finish_message ctx (receive ctx (prompt_events w) ?c1))"
    using assms(2) by simp
  then show ?thesis using assms(3) init c1(1)
    by (simp add: runs_to_def drive_prompt_def wp exchange_run receive_def [of ctx "[]"] cooperative_def)
qed

section \<open>To the end of the turn\<close>

definition stopped :: "stop_reason_kind \<Rightarrow> turn \<Rightarrow> turn" where
  "stopped stop t =
     (let reason = stop_reason_str stop; status = map_stop_reason reason in
      t\<lparr>turn_status := status, stop_reason := reason, failure_reason := if status = Failed then reason else []\<rparr>)"

lemma stopped_simps [simp]:
  "is_terminal (turn_status (stopped stop t))" "turn_id (stopped stop t) = turn_id t"
  "turn_thread_id (stopped stop t) = turn_thread_id t" "turn_generation_id (stopped stop t) = turn_generation_id t"
  "turn_items (stopped stop t) = turn_items t"
  by (simp_all add: stopped_def Let_def map_stop_reason_def)

lemma publish_stop_working:
  assumes "working bg ctx False sys_os session m t c" "\<not> is_terminal (turn_status t)"
  shows "runs_to (publish_stop ctx stop) c (\<lambda>t' c'. t' = stopped stop t \<and> working bg ctx False sys_os session m t' c')"
proof -
  let ?reason = "stop_reason_str stop" let ?status = "map_stop_reason ?reason" let ?failure = "if ?status = Failed then ?reason else []"
  have r: "ready bg t session (homes (the_sys c) (ctx_home ctx))" and t: "ctx_turn ctx = turn_id t"
    using assms(1) by (simp_all add: working_def)
  have "is_terminal ?status" by (simp add: map_stop_reason_def)
  from publish_ready [OF r assms(2) this]
  have "runs_to (ledger_call ctx (publish_terminal (ctx_self ctx) (turn_id t) ?status ?reason ?failure)) c
      (\<lambda>t' c'. t' = stopped stop t \<and> working bg ctx False sys_os session m t' c')"
    by (rule runs_to_mono [OF ledger_call_runs]) (use assms(1) in \<open>auto simp: working_def stopped_def Let_def\<close>)
  then show ?thesis using assms(1)
    by (auto simp: runs_to_def publish_stop_def working_def with_err_run t Let_def)
qed

lemma converse_working:
  assumes "working bg ctx False sys_os session0 m t c" "\<not> is_terminal (turn_status t)"
    and "cooperative (ctx_approval ctx) (ctx_home ctx) w (ctx_load_session ctx) session us stop" "quiet (ctx_home ctx) (at_end w)"
    and "case ctx_load_session ctx of None \<Rightarrow> \<not> ctx_inject_persist_failure ctx | Some sid \<Rightarrow> session0 = sid"
    and "apply_all (json_to_text (ctx_host ctx)) us m = (Inr its, m1)" "finish_agent_message m1 = (Inr it, m2)"
  shows "runs_to (converse ctx w pid (turn_generation_id t)) c
    (\<lambda>out c'. out_turn out = stopped stop (with_items (its @ finished it) t) \<and>
      working bg ctx False (drop_child_reap pid sys_os) session m2 (out_turn out) c')"
proof -
  let ?t = "stopped stop (with_items (its @ finished it) t)"
  obtain c1 where c1: "drive_prompt ctx w c = (Inr stop, c1)"
      "working bg ctx False sys_os session m2 (with_items (its @ finished it) t) c1"
    using drive_prompt_working [OF assms(1,2,3,5,6,7)] by (auto simp: runs_to_def)
  obtain c2 where c2: "publish_stop ctx stop c1 = (Inr ?t, c2)" "working bg ctx False sys_os session m2 ?t c2"
    using publish_stop_working [OF c1(2), of stop] assms(2) by (auto simp: runs_to_def)
  let ?c3 = "c2\<lparr>the_sys := at_end w ((the_sys c2)\<lparr>os := drop_child_reap pid (os (the_sys c2))\<rparr>)\<rparr>"
  have c3: "working bg ctx False (drop_child_reap pid sys_os) session m2 ?t ?c3"
    using c2(2) assms(4) by (simp add: working_def quiet_def)
  then have "ready bg ?t session (homes (the_sys ?c3) (ctx_home ctx))" by (simp add: working_def)
  from try_call_runs [OF mark_child_eof_ready [OF this], of "ctx_self ctx"]
  obtain l where "ready bg ?t session l" "try_call ctx (mark_child_eof (ctx_self ctx) (turn_generation_id t)) ?c3
      = ?c3\<lparr>the_sys := (the_sys ?c3)\<lparr>homes := (homes (the_sys ?c3))(ctx_home ctx := l)\<rparr>\<rparr>" by auto
  then have c4: "working bg ctx False (drop_child_reap pid sys_os) session m2 ?t
      (try_call ctx (mark_child_eof (ctx_self ctx) (turn_generation_id t)) ?c3)"
    using c3 by (simp add: working_def)
  let ?c4 = "try_call ctx (mark_child_eof (ctx_self ctx) (turn_generation_id t)) ?c3"
  have "ledger_call ctx (read_turn (ctx_turn ctx)) ?c4 = (Inr ?t, ?c4)"
    using c4 readyD(6) [of bg ?t session "homes (the_sys ?c4) (ctx_home ctx)"]
    by (simp add: working_def ledger_call_run in_home_run wp)
  then have "runs_to (finish_turn ctx w stop) ?c4
      (\<lambda>out c'. out_turn out = ?t \<and> working bg ctx False (drop_child_reap pid sys_os) session m2 (out_turn out) c')"
    using c4 by (simp add: runs_to_def finish_turn_def wp working_def split: prod.split)
  then show ?thesis using c1(1) c2(1) by (simp add: runs_to_def converse_def wp)
qed

section \<open>From the admission to the outcome\<close>

lemma with_child_working:
  assumes "cooperative (tr_approval req) h w load session us stop" "quiet h (after_spawn w)" "quiet h (at_end w)"
    and "ready bg t0 session0 (homes s h)" "\<not> is_terminal (turn_status t0)" "\<not> is_shutting_down (os s)"
    and "turn_id t0 = turn_id t" "turn_thread_id t0 = turn_thread_id t" "turn_generation_id t0 = turn_generation_id t"
    and "case load of None \<Rightarrow> \<not> inject_persist_failure (path_exists w) (tr_command req) (tr_cwd req) | Some sid \<Rightarrow> session0 = sid"
    and "apply_all (json_to_text host) us (new_mapper (tr_prompt req)) = (Inr its, m1)" "finish_agent_message m1 = (Inr it, m2)"
  shows "runs_to (with_child host self h req w t th load pid) s
    (\<lambda>out s'. out_turn out = stopped stop (with_items (its @ finished it) t0) \<and>
      ready bg (out_turn out) session (homes s' h) \<and> os s' = drop_child_reap pid (os s))"
proof -
  let ?ctx = "ctx_of host self h req w t th load"
  obtain g l where l: "set_child_pid self (turn_generation_id t) pid (homes s h) = (Inr g, l)" "ready bg t0 session0 l"
    using set_child_pid_ready [OF assms(4), of self pid] assms(9) by (auto simp: runs_to_def)
  let ?s = "after_spawn w (s\<lparr>homes := (homes s)(h := l)\<rparr>)"
  have s: "homes ?s h = l" "os ?s = os s" using assms(2) by (simp_all add: quiet_def)
  have read: "read_turn (turn_id t) l = (Inr t0, l)" using readyD(6) [OF l(2)] assms(7) by (simp add: wp)
  have w: "working bg ?ctx False (os s) session0 (new_mapper (tr_prompt req)) t0 (open_conn w (tr_prompt req) ?s)"
    using l(2) s assms(7,8) by (simp add: working_def open_conn_def ctx_of_def new_mapper_ok)
  have "runs_to (converse ?ctx w pid (turn_generation_id t0)) (open_conn w (tr_prompt req) ?s)
      (\<lambda>out c'. out_turn out = stopped stop (with_items (its @ finished it) t0) \<and>
        working bg ?ctx False (drop_child_reap pid (os s)) session m2 (out_turn out) c')"
    by (rule converse_working [OF w assms(5)]) (use assms(1,3,10,11,12) in \<open>simp_all add: ctx_of_def split: option.splits\<close>)
  then have "runs_to (in_conn w (tr_prompt req) (converse ?ctx w pid (turn_generation_id t))) ?s
      (\<lambda>out s'. out_turn out = stopped stop (with_items (its @ finished it) t0) \<and>
        ready bg (out_turn out) session (homes s' h) \<and> os s' = drop_child_reap pid (os s))"
    by (auto simp: runs_to_def in_conn_def working_def ctx_of_def assms(9))
  moreover have "homes (?s\<lparr>homes := (homes ?s)(h := l)\<rparr>) = homes ?s" using s(1) by (simp add: fun_upd_idem)
  ultimately show ?thesis
    using l(1) read s assms(5,6) by (simp add: runs_to_def with_child_def or_fail_def others_run_def wp fun_upd_idem)
qed

text \<open>The first item of a turn is the user's message, stored before the agent starts.\<close>

lemma first_items_ready:
  assumes "ready bg t session (homes s h)" "\<not> is_terminal (turn_status t)"
  shows "\<exists>l. upsert_first_items host self h (turn_id t) (mapped_items (new_mapper prompt)) s = (Inr (), s\<lparr>homes := (homes s)(h := l)\<rparr>) \<and>
    ready bg (with_items (mapped_items (new_mapper prompt)) t) session l"
proof -
  let ?it = "hd (mapped_items (new_mapper prompt))"
  have it: "mapped_items (new_mapper prompt) = [?it]" by (simp add: new_mapper_def)
  then have "item_ok ?it" using new_mapper_ok [of prompt] by (simp add: mapper_ok_def new_mapper_def)
  then have "valid_id (item_id ?it)" by (simp add: item_ok_def)
  from upsert_item_ready [OF assms this, of self] show ?thesis
    by (subst it, subst it) (auto simp: runs_to_def or_fail_def wp with_items_def)
qed

lemma spawn_child_runs:
  assumes "spawn_reply w = Inr pid" "pid \<noteq> 0" "0 \<in> set (live_pids (os s))" "\<not> is_shutting_down (os s)"
  shows "runs_to (release_gate (spawn_child host self h i w)) (s\<lparr>os := begin_acp_spawn (os s)\<rparr>)
    (\<lambda>p s'. p = pid \<and> homes s' = homes s \<and> \<not> is_shutting_down (os s') \<and>
       killed (drop_child_reap pid (os s')) pid \<and> set (live_pids (drop_child_reap pid (os s'))) - {0} = set (live_pids (os s)) - {0, pid})"
proof -
  obtain qs where qs: "put_first_free pid (live_pids (os s)) = Some qs"
    using assms(3) put_first_free_None [of pid "live_pids (os s)"] by (cases "put_first_free pid (live_pids (os s))") auto
  let ?o = "drop_acp_spawn ((begin_acp_spawn (os s))\<lparr>live_pids := qs\<rparr>)"
  have run: "release_gate (spawn_child host self h i w) (s\<lparr>os := begin_acp_spawn (os s)\<rparr>) = (Inr pid, s\<lparr>os := ?o\<rparr>)"
    using assms(1,2) qs
    by (simp add: release_gate_run spawn_child_def or_fail_def wp track_def track_child_def register_child_pid_def begin_acp_spawn_def)
  have o: "live_pids ?o = qs" "is_shutting_down ?o = is_shutting_down (os s)"
    by (simp_all add: drop_acp_spawn_def begin_acp_spawn_def)
  have "killed (drop_child_reap pid ?o) pid" "live_pids (drop_child_reap pid ?o) = map (\<lambda>p. if p = pid then 0 else p) qs"
    using assms(2) teardown_frame [OF assms(2), of ?o] o
    by (simp_all add: drop_child_reap_def unregister_child_pid_def killed_def)
  moreover have "(\<lambda>p. if p = pid then 0 else p) ` set qs - {0} = set (live_pids (os s)) - {0, pid}"
    using put_first_free_Some [OF qs] assms(2) by auto
  ultimately show ?thesis unfolding runs_to_def run using o(2) assms(4) by simp
qed

lemma after_admission_runs:
  assumes "cooperative (tr_approval req) h w load session us stop" "quiet h (after_admit w)" "quiet h (after_spawn w)" "quiet h (at_end w)"
    and "ready bg t session0 (homes s h)" "\<not> is_terminal (turn_status t)" "\<not> is_shutting_down (os s)"
    and "spawn_reply w = Inr pid" "pid \<noteq> 0" "0 \<in> set (live_pids (os s))"
    and "case load of None \<Rightarrow> \<not> inject_persist_failure (path_exists w) (tr_command req) (tr_cwd req) | Some sid \<Rightarrow> session0 = sid"
    and "apply_all (json_to_text host) us (new_mapper (tr_prompt req)) = (Inr its, m1)" "finish_agent_message m1 = (Inr it, m2)"
  shows "runs_to (after_admission host self h req w t th load) s (\<lambda>out s'.
    out_turn out = stopped stop (with_items (mapped_items (new_mapper (tr_prompt req)) @ its @ finished it) t) \<and>
    ready bg (out_turn out) session (homes s' h) \<and> killed (os s') pid \<and>
    set (live_pids (os s')) - {0} = set (live_pids (os s)) - {0, pid})"
proof -
  let ?s = "after_admit w s" let ?t = "with_items (mapped_items (new_mapper (tr_prompt req))) t"
  have s: "homes ?s h = homes s h" "os ?s = os s" using assms(2) by (simp_all add: quiet_def)
  have read: "read_turn (turn_id t) (homes s h) = (Inr t, homes s h)" using readyD(6) [OF assms(5)] by (simp add: wp)
  have "ready bg t session0 (homes ?s h)" using assms(5) s by simp
  from first_items_ready [OF this assms(6), of host self "tr_prompt req"] obtain l where
    l: "upsert_first_items host self h (turn_id t) (mapped_items (new_mapper (tr_prompt req))) ?s = (Inr (), ?s\<lparr>homes := (homes ?s)(h := l)\<rparr>)"
      "ready bg ?t session0 l" by blast
  let ?s1 = "?s\<lparr>homes := (homes ?s)(h := l)\<rparr>"
  have "0 \<in> set (live_pids (os ?s1))" "\<not> is_shutting_down (os ?s1)" using assms(7,10) s by simp_all
  from spawn_child_runs [OF assms(8,9) this, of host self h "turn_id t"] obtain s2 where
    s2: "release_gate (spawn_child host self h (turn_id t) w) (?s1\<lparr>os := begin_acp_spawn (os ?s1)\<rparr>) = (Inr pid, s2)"
      "homes s2 = homes ?s1" "\<not> is_shutting_down (os s2)" "killed (drop_child_reap pid (os s2)) pid"
      "set (live_pids (drop_child_reap pid (os s2))) - {0} = set (live_pids (os s)) - {0, pid}"
    using s by (auto simp: runs_to_def)
  have "ready bg ?t session0 (homes s2 h)" using l(2) s2(2) by simp
  from with_child_working [OF assms(1,3,4) this _ s2(3) _ _ _ assms(11-13), of t self th pid]
  have "runs_to (with_child host self h req w t th load pid) s2 (\<lambda>out s'.
    out_turn out = stopped stop (with_items (mapped_items (new_mapper (tr_prompt req)) @ its @ finished it) t) \<and>
    ready bg (out_turn out) session (homes s' h) \<and> os s' = drop_child_reap pid (os s2))"
    using assms(6) by simp
  then show ?thesis using s read l(1) s2 assms(6,7)
    by (auto simp: runs_to_def after_admission_def others_run_def or_fail_def wp fun_upd_idem begin_acp_spawn_def)
qed

section \<open>The whole turn\<close>

text \<open>A turn with an agent that keeps to the protocol is carried through. Whatever updates the agent sends, in a
  new session or behind the replayed history of a loaded one, with files read and written and permissions granted by policy: the run returns
  the turn with the agent's stop reason, that turn and the session are what is on disk, its items are the user's message and what the mapper made
  of the updates, item for item those of the mapper when identifiers are pairwise different, and the agent's process
  group has been killed and has left the table, in which all others remain.\<close>

lemma cooperative_turn_completes:
  assumes "cooperative (tr_approval req) h w load session us stop"
    and "quiet h (after_admit w)" "quiet h (after_spawn w)" "quiet h (at_end w)"
    and "spawn_reply w = Inr pid" "pid \<noteq> 0" "0 \<in> set (live_pids (os s))" "\<not> is_shutting_down (os s)"
    and "ready bg t session0 (homes s h)" "turn_status t = InProgress" "turn_items t = []"
    and "case load of None \<Rightarrow> \<not> inject_persist_failure (path_exists w) (tr_command req) (tr_cwd req) | Some sid \<Rightarrow> session0 = sid"
  shows "\<exists>its m it m' out s'.
    apply_all (json_to_text host) us (new_mapper (tr_prompt req)) = (Inr its, m) \<and> finish_agent_message m = (Inr it, m') \<and>
    after_admission host self h req w t th load s = (Inr out, s') \<and>
    out_turn out = stopped stop (t\<lparr>turn_items := fold upsert (its @ finished it) (mapped_items (new_mapper (tr_prompt req)))\<rparr>) \<and>
    (distinct (map item_id (mapped_items m')) \<longrightarrow> turn_items (out_turn out) = mapped_items m') \<and>
    ready bg (out_turn out) session (homes s' h) \<and>
    killed (os s') pid \<and> set (live_pids (os s')) - {0} = set (live_pids (os s)) - {0, pid}"
proof -
  let ?m0 = "new_mapper (tr_prompt req)"
  obtain its m where run: "apply_all (json_to_text host) us ?m0 = (Inr its, m)" "mapper_ok m"
    using apply_all_ok [OF new_mapper_ok [of "tr_prompt req"], of "json_to_text host" us] by (auto simp: runs_to_def)
  obtain it m' where fin: "finish_agent_message m = (Inr it, m')" "emits m (finished it) m'"
    using finish_agent_message_ok [OF run(2)] by (auto simp: runs_to_def)
  have live: "\<not> is_terminal (turn_status t)" using assms(10) by simp
  obtain out s' where out: "after_admission host self h req w t th load s = (Inr out, s')"
      "out_turn out = stopped stop (with_items (mapped_items ?m0 @ its @ finished it) t)"
      "ready bg (out_turn out) session (homes s' h)" "killed (os s') pid"
      "set (live_pids (os s')) - {0} = set (live_pids (os s)) - {0, pid}"
    using after_admission_runs [OF assms(1-4,9) live assms(8,5,6,7,12) run(1) fin(1), of self th]
    by (auto simp: runs_to_def)
  have "fold upsert (mapped_items ?m0) [] = mapped_items ?m0" by (simp add: new_mapper_def)
  then have items: "with_items (mapped_items ?m0 @ its @ finished it) t = t\<lparr>turn_items := fold upsert (its @ finished it) (mapped_items ?m0)\<rparr>"
    using assms(11) by (simp add: with_items_def)
  moreover have "fold upsert (its @ finished it) (mapped_items ?m0) = mapped_items m'" if "distinct (map item_id (mapped_items m'))"
    using emits_upserts [OF fin(2) that] apply_all_upserts [OF new_mapper_ok run(1)] by simp
  ultimately show ?thesis using run(1) fin(1) out by auto
qed

end
