(* ===== verification/FakeAgent.thy ===== *)
theory FakeAgent
  imports RunTurn
begin

text \<open>
  \<^verbatim>\<open>crates/adapter-grok/src/fake.rs\<close>: the agent the repository's tests run turns against. Each handler is what
  it sends before its reply, and the reply; the environment of the process is an argument.
\<close>

definition STUB_SESSION_ID :: string where "STUB_SESSION_ID = ''stub-session''"
definition STUB_REPLY :: string where "STUB_REPLY = ''stub-reply''"
definition STUB_TOOL_CALL_ID :: string where "STUB_TOOL_CALL_ID = ''stub-edit''"

type_synonym environment = "string \<Rightarrow> string option"

definition emit_stub_updates :: "session_update list" where
  "emit_stub_updates =
     [AgentMessageChunk (TextBlock STUB_REPLY),
      ToolCall \<lparr>call_id = STUB_TOOL_CALL_ID, call_kind = Edit, call_title = ''stub edit'',
                call_status = ToolPending, call_raw_input = None\<rparr>,
      ToolCallUpdate \<lparr>update_id = STUB_TOOL_CALL_ID, update_kind = None, update_title = None,
                      update_status = Some ToolCompleted\<rparr>]"

section \<open>Handlers\<close>

definition fake_initialize :: "environment \<Rightarrow> bool" where
  "fake_initialize env \<longleftrightarrow> env ''GAMCHI_FAKE_NO_LOAD'' = None"

text \<open>A new session is logged with its rules: the JSON of the line, and the identifier that is returned.\<close>

definition fake_session_new :: "(string \<times> json) list option \<Rightarrow> json \<times> string" where
  "fake_session_new meta =
     (let rules = Option.bind meta (\<lambda>m. map_of m ''rules'') in
      (JObj [(''rules'', case rules of None \<Rightarrow> JNull | Some v \<Rightarrow> v)], STUB_SESSION_ID))"

definition fake_session_load :: "environment \<Rightarrow> string + session_update list" where
  "fake_session_load env =
     (if env ''GAMCHI_FAKE_LOAD_ERROR'' \<noteq> None then Inl ''session/load failed'' else Inr emit_stub_updates)"

text \<open>The seconds a prompt hangs first; a number that cannot be parsed is a minute.\<close>

definition fake_hang_secs :: "environment \<Rightarrow> nat" where
  "fake_hang_secs env =
     (case env ''GAMCHI_FAKE_HANG_SECS'' of
        None \<Rightarrow> 0
      | Some secs \<Rightarrow> (case parse_unsigned (2 ^ 64) secs of Some n \<Rightarrow> n | None \<Rightarrow> 60))"

definition fake_permission_options :: "permission_option list" where
  "fake_permission_options =
     [\<lparr>option_id = ''allow-once'', option_kind = AllowOnce\<rparr>,
      \<lparr>option_id = ''allow-always'', option_kind = AllowAlways\<rparr>,
      \<lparr>option_id = ''reject-once'', option_kind = RejectOnce\<rparr>]"

text \<open>What follows the client's answer to the permission request.\<close>

definition prompt_with_permission :: "permission_outcome \<Rightarrow> session_update list \<times> stop_reason_kind" where
  "prompt_with_permission outcome =
     (let allow = (case outcome of Selected i \<Rightarrow> str_contains i ''allow'' | Cancelled \<Rightarrow> False) in
      if \<not> allow then ([], StopCancelled) else (emit_stub_updates, EndTurn))"

definition fake_prompt :: "environment \<Rightarrow> permission_outcome \<Rightarrow> event list \<times> stop_reason_kind" where
  "fake_prompt env outcome =
     (if env ''GAMCHI_FAKE_ASK_PERMISSION'' = None then (map Update emit_stub_updates, EndTurn)
      else case prompt_with_permission outcome of
        (us, stop) \<Rightarrow> (RequestPermission fake_permission_options # map Update us, stop))"

section \<open>The agent of a turn\<close>

text \<open>
  The script the fake agent follows in a turn that opens a new session with \<open>meta\<close> or loads the session \<open>load\<close>;
  \<open>outcome\<close> is the client's answer if it is asked, and \<open>internal\<close> the text of an internal error.
\<close>

definition run_fake_agent :: "environment \<Rightarrow> (string \<Rightarrow> string) \<Rightarrow> (string \<times> json) list option \<Rightarrow> string option \<Rightarrow> permission_outcome \<Rightarrow> agent_script" where
  "run_fake_agent env internal meta load outcome =
     \<lparr>init_events = [], init_reply = Inr (fake_initialize env),
      session_events = (case (load, fake_session_load env) of (Some _, Inr us) \<Rightarrow> map Update us | _ \<Rightarrow> []),
      load_reply = (case fake_session_load env of Inl e \<Rightarrow> Inl (internal e) | Inr _ \<Rightarrow> Inr ()),
      new_reply = Inr (snd (fake_session_new meta)),
      prompt_events = fst (fake_prompt env outcome), prompt_reply = Inr (snd (fake_prompt env outcome)),
      internal_text = internal\<rparr>"

end
