(* ===== verification/Conversation.thy ===== *)
theory Conversation
  imports Cooperative FakeAgent LedgerNames
begin

text \<open>
  A whole turn from the request on, the first of a thread or a follow-up, with an agent that keeps to the
  protocol: configuration, launch planning, admission, driver, mapper, ledger and process table together. The state it
  leaves is one the next turn can start from.
\<close>

section \<open>A home at rest\<close>

text \<open>
  No file operation fails, and every turn on disk can be read, is over and has its generation.
\<close>

definition at_rest :: "ledger \<Rightarrow> bool" where
  "at_rest l \<longleftrightarrow>
     (\<forall>op. \<not> fault l op) \<and> distinct (map fst (turns_dir l)) \<and>
     (\<forall>(name, n) \<in> set (turns_dir l). n = Subdir \<or> extension name \<noteq> Some ''json'' \<or>
        (\<exists>t. n = Body t \<and> is_terminal (turn_status t) \<and> valid_id (turn_generation_id t) \<and>
             turn_generation_id t \<in> dom (generation_at l)))"

definition over_in :: "ledger \<Rightarrow> turn \<Rightarrow> bool" where
  "over_in l t \<longleftrightarrow> is_terminal (turn_status t) \<and> valid_id (turn_generation_id t) \<and> turn_generation_id t \<in> dom (generation_at l)"

lemma at_rest_listed:
  assumes "at_rest l"
  obtains ns where "turn_json_paths l = (Inr ns, l)"
    "\<forall>name \<in> set ns. \<exists>t. read_turn_file name l = (Inr t, l) \<and> over_in l t"
proof -
  let ?listed = "filter (\<lambda>(name, n). n \<noteq> Subdir \<and> extension name = Some ''json'') (turns_dir l)"
  have "turn_json_paths l = (Inr (map fst ?listed), l)"
    using assms by (simp add: turn_json_paths_def at_rest_def wp)
  moreover have "\<exists>t. read_turn_file name l = (Inr t, l) \<and> over_in l t" if listed: "name \<in> set (map fst ?listed)" for name
  proof -
    obtain n where n: "(name, n) \<in> set (turns_dir l)" "n \<noteq> Subdir" "extension name = Some ''json''" using listed by force
    then obtain t where t: "n = Body t" "over_in l t" using assms by (fastforce simp: at_rest_def over_in_def)
    moreover have "map_of (turns_dir l) name = Some n" using assms n(1) by (simp add: at_rest_def)
    ultimately show ?thesis using assms by (auto simp: read_turn_file_def wp at_rest_def)
  qed
  ultimately show ?thesis using that by blast
qed

lemma scan_live_over:
  "\<forall>name \<in> set ns. \<exists>t. read_turn_file name l = (Inr t, l) \<and> over_in l t \<Longrightarrow> scan_live self i ns l = (Inr None, l)"
proof (induction ns)
  case (Cons name ns)
  then obtain t where "read_turn_file name l = (Inr t, l)" "over_in l t" by auto
  then show ?case using Cons by (simp add: wp over_in_def)
qed (simp add: wp)

lemma list_turns_over:
  "\<forall>name \<in> set ns. \<exists>t. read_turn_file name l = (Inr t, l) \<and> over_in l t \<Longrightarrow>
     \<exists>ts. list_turns_from self None ns l = (Inr ts, l) \<and> list_all (over_in l) ts"
proof (induction ns)
  case (Cons name ns)
  then obtain t where t: "read_turn_file name l = (Inr t, l)" "over_in l t" by auto
  moreover obtain ts where "list_turns_from self None ns l = (Inr ts, l)" "list_all (over_in l) ts"
    using Cons by auto
  moreover have "is_terminal (turn_status t)" using t(2) by (simp add: over_in_def)
  ultimately show ?case by (simp add: wp)
qed (simp add: wp)

lemma best_effort_over: "(\<And>op. \<not> fault l op) \<Longrightarrow> list_all (over_in l) ts \<Longrightarrow> \<exists>best'. best_effort th ts best l = (Inr best', l)"
proof (induction ts arbitrary: best)
  case (Cons t ts)
  then obtain g where "generation_result l (turn_generation_id t) = Inr g"
    by (auto simp: over_in_def generation_result_Inr)
  then show ?case using Cons by (simp add: wp over_in_def)
qed (simp add: wp)

lemma previous_effort_at_rest:
  assumes "at_rest l"
  shows "\<exists>e. previous_turn_effort self th l = (Inr e, l)"
proof -
  obtain ns where ns: "turn_json_paths l = (Inr ns, l)"
    "\<forall>name \<in> set ns. \<exists>t. read_turn_file name l = (Inr t, l) \<and> over_in l t"
    using at_rest_listed [OF assms] by blast
  obtain ts where ts: "list_turns_from self None ns l = (Inr ts, l)" "list_all (over_in l) ts"
    using list_turns_over [OF ns(2)] by blast
  have "list_all (over_in l) (sort_key turn_id ts)" using ts(2) by (simp add: list_all_iff)
  then obtain best where "best_effort th (sort_key turn_id ts) None l = (Inr best, l)"
    using best_effort_over [of l "sort_key turn_id ts" th None] assms unfolding at_rest_def by blast
  then show ?thesis using ns(1) ts(1) by (simp add: previous_turn_effort_def list_turns_def wp)
qed

section \<open>The admission\<close>

definition background_of :: "wire_thread \<Rightarrow> ledger \<Rightarrow> background" where
  "background_of th l = \<lparr>bg_thread = th, bg_turns = turns_dir l, bg_generations = dom (generation_at l)\<rparr>"

lemma delete_absent: "k \<notin> fst ` set al \<Longrightarrow> AList.delete k al = al"
  by (simp add: delete_id)

lemma admit_at_rest:
  assumes rest: "at_rest l" and th: "thread_at l i = Some th" "thread_id th = i" "in_progress_turn_id th = []" "valid_id i"
    and spec: "nu_thread_id spec = i" "nu_client_request_id spec = None"
    and new: "json_name (fresh_id self ''tu'' (tick (bump_seq self l))) \<notin> fst ` set (turns_dir l)"
  shows "runs_to (admit_turn self spec) l (\<lambda>t l'.
    (\<exists>g. t = fresh_turn (fresh_id self ''tu'' (tick (bump_seq self l))) i g spec) \<and> ready (background_of th l) t (acp_session_id th) l')"
proof -
  have nf: "\<not> fault l op" for op using rest by (simp add: at_rest_def)
  obtain ns where ns: "turn_json_paths l = (Inr ns, l)"
    "\<forall>name \<in> set ns. \<exists>t. read_turn_file name l = (Inr t, l) \<and> over_in l t"
    using at_rest_listed [OF rest] by blast
  have "live_turn_on_thread_locked self th l = (Inr None, l)"
    using ns(1) scan_live_over [OF ns(2)] th(3) by (simp add: live_turn_on_thread_locked_def Let_def wp)
  moreover have "thread_result l i = Inr th" using th nf by (simp add: thread_result_Inr)
  moreover have "valid_id (fresh_id self ''tu'' (tick (bump_seq self l)))" "valid_id (fresh_id self ''g'' l)"
    by (simp_all add: fresh_id_valid id_char_def is_ascii_alphanumeric_def byte_of_def)
  ultimately show ?thesis
    using th spec nf new rest
    by (simp add: runs_to_def admit_turn_def existing_turn_def admit_section_def admit_fresh_def admit_writes_def wp validate_id_def if_ok_def
      ready_def background_of_def fresh_turn_def fresh_generation_def at_rest_def delete_absent put_generation_def put_generation_at_dom subset_insertI)
qed


text \<open>A thread that a follow-up can load: no turn in progress, and a session.\<close>

definition resumable :: "string \<Rightarrow> string \<Rightarrow> ledger \<Rightarrow> bool" where
  "resumable i session l \<longleftrightarrow>
     valid_id i \<and> session \<noteq> [] \<and>
     (\<exists>th. thread_at l i = Some th \<and> thread_id th = i \<and> acp_session_id th = session \<and> in_progress_turn_id th = [])"

text \<open>The identifier the turn will have: a first turn draws one for its thread before.\<close>

definition next_turn_id :: "nat \<Rightarrow> bool \<Rightarrow> ledger \<Rightarrow> string" where
  "next_turn_id self first l =
     fresh_id self ''tu'' (tick (bump_seq self (if first then bump_seq self (tick (bump_seq self l)) else l)))"

text \<open>What the request resolves to: the session to load, the model and the effort.\<close>

definition resolves :: "turn_request \<Rightarrow> home_defaults \<Rightarrow> ledger \<Rightarrow> string option \<Rightarrow> string \<Rightarrow> string \<Rightarrow> bool" where
  "resolves req d l load model effort \<longleftrightarrow>
     (case tr_follow_up_thread_id req of
        None \<Rightarrow> load = None \<and> resolve_first_turn (tr_model req) (tr_effort req) d = Inr (model, effort)
      | Some i \<Rightarrow> (\<exists>sid. load = Some sid \<and> resumable i sid l) \<and>
          (\<forall>th previous. thread_at l i = Some th \<longrightarrow>
             resolve_follow_up (tr_model req) (tr_effort req) (thread_model th) previous d = Inr (model, effort)))"

lemma put_thread_records [simp]:
  "turn_at (put_thread th s) = turn_at s" "generation_at (put_thread th s) = generation_at s"
  "ticks (put_thread th s) = ticks s" "clock (put_thread th s) = clock s" "id_seq (put_thread th s) = id_seq s"
  by (simp_all add: fun_eq_iff put_thread_def turn_at_def generation_at_def)

lemma choose_at_rest:
  assumes rest: "at_rest (homes s h)" and req: "tr_reuse_thread_id req = None"
    and res: "resolves req d (homes s h) load model effort"
  shows "runs_to (choose_thread self h req d) s (\<lambda>c s'. \<exists>th l. c = (th, load, model, effort) \<and> s' = s\<lparr>homes := (homes s)(h := l)\<rparr> \<and>
    at_rest l \<and> turns_dir l = turns_dir (homes s h) \<and>
    thread_at l (thread_id th) = Some th \<and> in_progress_turn_id th = [] \<and> valid_id (thread_id th) \<and>
    (case load of None \<Rightarrow> acp_session_id th = [] | Some sid \<Rightarrow> acp_session_id th = sid \<and> tr_follow_up_thread_id req = Some (thread_id th)) \<and>
    fresh_id self ''tu'' (tick (bump_seq self l)) = next_turn_id self (tr_follow_up_thread_id req = None) (homes s h))"
proof (cases "tr_follow_up_thread_id req")
  case None
  let ?l = "homes s h" and ?i = "fresh_id self ''th'' (homes s h)"
  let ?th = "\<lparr>thread_id = ?i, thread_cwd = tr_cwd req, thread_model = model, thread_sandbox = tr_sandbox req,
    thread_approval_policy = tr_approval req, developer_instructions = [], acp_session_id = [], in_progress_turn_id = []\<rparr>"
  let ?l1 = "put_thread ?th (bump_seq self (tick (bump_seq self ?l)))"
  have nf: "\<not> fault ?l op" for op using rest by (simp add: at_rest_def)
  have "choose_thread self h req d s = (Inr (?th, load, model, effort), s\<lparr>homes := (homes s)(h := ?l1)\<rparr>)"
    using None req res nf
    by (simp add: choose_thread_def choose_first_def resolves_def resolved_def map_err_def adapter_call_def create_thread_def Let_def wp in_home_run)
  moreover have "at_rest ?l1" using rest by (simp add: at_rest_def)
  moreover have "valid_id ?i" by (simp add: fresh_id_valid id_char_def is_ascii_alphanumeric_def byte_of_def)
  moreover have "fresh_id self ''tu'' (tick (bump_seq self ?l1)) = next_turn_id self True ?l"
    by (simp add: next_turn_id_def fresh_id_def bump_seq_def tick_def)
  moreover have "load = None" using res None by (simp add: resolves_def)
  ultimately show ?thesis using None unfolding runs_to_def by (intro exI [of _ ?th] exI [of _ ?l1] exI conjI) simp_all
next
  case (Some i)
  let ?l = "homes s h"
  have nf: "\<not> fault ?l op" for op using rest by (simp add: at_rest_def)
  obtain sid th where th: "load = Some sid" "sid \<noteq> []" "valid_id i" "thread_at ?l i = Some th" "thread_id th = i" "acp_session_id th = sid"
    "in_progress_turn_id th = []" "\<And>previous. resolve_follow_up (tr_model req) (tr_effort req) (thread_model th) previous d = Inr (model, effort)"
    using res Some by (auto simp: resolves_def resumable_def)
  obtain e where e: "previous_turn_effort self (thread_id th) ?l = (Inr e, ?l)"
    using previous_effort_at_rest [OF rest] by blast
  have "thread_result ?l i = Inr th" using th nf by (simp add: thread_result_Inr)
  then have "choose_thread self h req d s = (Inr (th, load, model, effort), s)"
    using Some req th e
    by (simp add: choose_thread_def choose_follow_up_def resolved_def map_err_def adapter_call_def wp in_home_run)
  moreover have "s = s\<lparr>homes := (homes s)(h := ?l)\<rparr>" by simp
  ultimately show ?thesis using Some rest th unfolding runs_to_def next_turn_id_def
    by (intro exI [of _ th] exI [of _ ?l] exI conjI) simp_all
qed

lemma prepare_at_rest:
  assumes rest: "at_rest (homes s h)" and req: "tr_reuse_thread_id req = None" "tr_client_request_id req = None"
    and config: "load_home_defaults (configs s h) = Inr d"
    and res: "resolves req d (homes s h) load model effort" and plan: "plan_of req model effort = Inr plan"
    and new: "json_name (next_turn_id self (tr_follow_up_thread_id req = None) (homes s h)) \<notin> fst ` set (turns_dir (homes s h))"
  shows "runs_to (prepare_turn self h req) s (\<lambda>p s'. \<exists>t th bg l session0. p = (t, th, load, plan) \<and> s' = s\<lparr>homes := (homes s)(h := l)\<rparr> \<and>
    ready bg t session0 l \<and> (case load of None \<Rightarrow> True | Some sid \<Rightarrow> session0 = sid \<and> tr_follow_up_thread_id req = Some (turn_thread_id t)) \<and>
    (\<exists>l0. at_rest l0 \<and> bg_turns bg = turns_dir l0 \<and> bg_generations bg = dom (generation_at l0)) \<and> bg_turns bg = turns_dir (homes s h) \<and>
    (\<exists>g. t = fresh_turn (next_turn_id self (tr_follow_up_thread_id req = None) (homes s h)) (thread_id th) g (new_turn_of req th model effort)))"
proof -
  obtain th l where c: "choose_thread self h req d s = (Inr (th, load, model, effort), s\<lparr>homes := (homes s)(h := l)\<rparr>)"
    "at_rest l" "turns_dir l = turns_dir (homes s h)" "thread_at l (thread_id th) = Some th" "in_progress_turn_id th = []" "valid_id (thread_id th)"
    "case load of None \<Rightarrow> acp_session_id th = [] | Some sid \<Rightarrow> acp_session_id th = sid \<and> tr_follow_up_thread_id req = Some (thread_id th)"
    "fresh_id self ''tu'' (tick (bump_seq self l)) = next_turn_id self (tr_follow_up_thread_id req = None) (homes s h)"
    using choose_at_rest [OF rest req(1) res, of self] by (auto simp: runs_to_def)
  have spec: "nu_thread_id (new_turn_of req th model effort) = thread_id th" "nu_client_request_id (new_turn_of req th model effort) = None"
    by (simp_all add: new_turn_of_def req)
  obtain t l' where t: "admit_turn self (new_turn_of req th model effort) l = (Inr t, l')"
    "\<exists>g. t = fresh_turn (next_turn_id self (tr_follow_up_thread_id req = None) (homes s h)) (thread_id th) g (new_turn_of req th model effort)"
    "ready (background_of th l) t (acp_session_id th) l'"
    using admit_at_rest [OF c(2,4) refl c(5,6) spec, of self, unfolded c(3,8), OF new] unfolding runs_to_def by blast
  then have "turn_thread_id t = thread_id th" by (auto simp: fresh_turn_def)
  moreover have "prepare_turn self h req s = (Inr (t, th, load, plan), s\<lparr>homes := (homes s)(h := l')\<rparr>)"
    using req config plan c(1) t(1) by (simp add: prepare_turn_def wp resolved_def map_err_def adapter_call_def in_home_run)
  moreover have "bg_turns (background_of th l) = turns_dir l" "bg_generations (background_of th l) = dom (generation_at l)"
    by (simp_all add: background_of_def)
  ultimately show ?thesis using t(2,3) c(2,3,7) unfolding runs_to_def
    by (cases load) (simp_all, metis+)
qed


section \<open>The whole turn\<close>

lemma turn_at_delete:
  assumes "AList.delete (json_name i) (turns_dir l) = turns_dir l0" "turn_at l i = Some t"
  shows "turn_at l = (turn_at l0)(i \<mapsto> t)"
proof
  fix j
  have "map_of (turns_dir l0) (json_name j) = map_of (turns_dir l) (json_name j)" if "j \<noteq> i"
    using that by (simp add: assms(1) [symmetric] delete_conv' json_name_def)
  then show "turn_at l j = ((turn_at l0)(i \<mapsto> t)) j" using assms(2) by (simp add: turn_at_def)
qed

lemma ready_at_rest:
  assumes ready: "ready bg t session l" and over: "is_terminal (turn_status t)"
    and before: "at_rest l0" "bg_turns bg = turns_dir l0" "bg_generations bg = dom (generation_at l0)"
  shows "at_rest l"
proof -
  have r: "\<not> fault l op" "distinct (map fst (turns_dir l))" "turn_at l (turn_id t) = Some t" "valid_id (turn_generation_id t)"
    "turn_generation_id t \<in> dom (generation_at l)" "AList.delete (json_name (turn_id t)) (turns_dir l) = turns_dir l0"
    "dom (generation_at l0) \<subseteq> dom (generation_at l)" for op
    using ready before by (auto simp: ready_def)
  have "n = Subdir \<or> extension name \<noteq> Some ''json'' \<or>
      (\<exists>t. n = Body t \<and> is_terminal (turn_status t) \<and> valid_id (turn_generation_id t) \<and> turn_generation_id t \<in> dom (generation_at l))"
    if e: "(name, n) \<in> set (turns_dir l)" for name n
  proof (cases "name = json_name (turn_id t)")
    case True
    then have "map_of (turns_dir l) (json_name (turn_id t)) = Some n" using e r(2) by simp
    then have "n = Body t" using r(3) by (auto simp: turn_at_def body_of_def split: node.splits)
    then show ?thesis using over r(4,5) by blast
  next
    case False
    then have "(name, n) \<in> set (turns_dir l0)" using e by (simp add: r(6) [symmetric] AList.delete_eq)
    then show ?thesis using before(1) r(7) unfolding at_rest_def by fastforce
  qed
  then show ?thesis using r(1,2) by (auto simp: at_rest_def)
qed

lemma ready_resumable:
  assumes "ready bg t session l" "is_terminal (turn_status t)" "session \<noteq> []"
  shows "resumable (turn_thread_id t) session l"
  using assms by (simp add: ready_def resumable_def)

lemma stopped_fields [simp]:
  "turn_id (stopped stop t) = turn_id t" "turn_thread_id (stopped stop t) = turn_thread_id t" "turn_input (stopped stop t) = turn_input t"
  "turn_model (stopped stop t) = turn_model t" "turn_effort (stopped stop t) = turn_effort t" "turn_items (stopped stop t) = turn_items t"
  "turn_status (stopped stop t) = map_stop_reason (stop_reason_str stop)" "stop_reason (stopped stop t) = stop_reason_str stop"
  by (simp_all add: stopped_def Let_def)

text \<open>C4: a turn with an agent that keeps to the protocol is carried through from the request on. In a home at rest the first turn of
  a new thread, or a follow-up on a thread with a session, is admitted and runs, whatever updates the agent sends behind its session, or behind
  the replayed history of a loaded one, with files read and written and permissions granted by policy. It comes back with the agent's stop
  reason, the request's text, model and effort, and the items the mapper made of the updates; it is on disk as it came back, no other turn has
  changed, its thread has the session and no turn in progress, the home is at rest, so that a follow-up can start, and the
  agent's process group has been killed and has left the table, in which all others remain.\<close>

theorem run_turn_completes:
  assumes "at_rest (homes s h)" "load_home_defaults (configs s h) = Inr d"
    and "tr_reuse_thread_id req = None" "tr_client_request_id req = None"
    and "resolves req d (homes s h) load model effort" "plan_of req model effort = Inr plan"
    and "json_name (next_turn_id self (tr_follow_up_thread_id req = None) (homes s h)) \<notin> fst ` set (turns_dir (homes s h))"
    and "cooperative (tr_approval req) h w load session us stop" "session \<noteq> []"
    and "quiet h (after_admit w)" "quiet h (after_spawn w)" "quiet h (at_end w)"
    and "spawn_reply w = Inr pid" "pid \<noteq> 0" "0 \<in> set (live_pids (os s))" "\<not> is_shutting_down (os s)"
    and "load = None \<Longrightarrow> \<not> inject_persist_failure (path_exists w) (tr_command req) (tr_cwd req)"
  shows "\<exists>its m it m' out s'.
    apply_all (json_to_text host) us (new_mapper (tr_prompt req)) = (Inr its, m) \<and> finish_agent_message m = (Inr it, m') \<and>
    run_turn host self h req w s = (Inr out, s') \<and>
    turn_status (out_turn out) = map_stop_reason (stop_reason_str stop) \<and> stop_reason (out_turn out) = stop_reason_str stop \<and>
    turn_id (out_turn out) = next_turn_id self (tr_follow_up_thread_id req = None) (homes s h) \<and>
    turn_input (out_turn out) = [\<lparr>input_kind = ''text'', input_text = tr_prompt req\<rparr>] \<and>
    turn_model (out_turn out) = model \<and> turn_effort (out_turn out) = effort \<and>
    turn_items (out_turn out) = fold upsert (its @ finished it) (mapped_items (new_mapper (tr_prompt req))) \<and>
    (distinct (map item_id (mapped_items m')) \<longrightarrow> turn_items (out_turn out) = mapped_items m') \<and>
    (load \<noteq> None \<longrightarrow> tr_follow_up_thread_id req = Some (turn_thread_id (out_turn out))) \<and>
    turn_at (homes s' h) = (turn_at (homes s h))(next_turn_id self (tr_follow_up_thread_id req = None) (homes s h) \<mapsto> out_turn out) \<and>
    at_rest (homes s' h) \<and> resumable (turn_thread_id (out_turn out)) session (homes s' h) \<and>
    killed (os s') pid \<and> set (live_pids (os s')) - {0} = set (live_pids (os s)) - {0, pid}"
proof -
  let ?i = "next_turn_id self (tr_follow_up_thread_id req = None) (homes s h)"
  obtain t th bg l session0 l0 g where prep: "prepare_turn self h req s = (Inr (t, th, load, plan), s\<lparr>homes := (homes s)(h := l)\<rparr>)"
      "ready bg t session0 l" "case load of None \<Rightarrow> True | Some sid \<Rightarrow> session0 = sid \<and> tr_follow_up_thread_id req = Some (turn_thread_id t)"
      "at_rest l0" "bg_turns bg = turns_dir l0" "bg_generations bg = dom (generation_at l0)" "bg_turns bg = turns_dir (homes s h)"
      "t = fresh_turn ?i (thread_id th) g (new_turn_of req th model effort)"
    using prepare_at_rest [OF assms(1,3,4,2,5,6,7)] unfolding runs_to_def by blast
  let ?s = "s\<lparr>homes := (homes s)(h := l)\<rparr>"
  have fresh: "turn_status t = InProgress" "turn_items t = []" "turn_id t = ?i" "turn_model t = model" "turn_effort t = effort"
    "turn_input t = [\<lparr>input_kind = ''text'', input_text = tr_prompt req\<rparr>]"
    by (simp_all add: prep(8) fresh_turn_def new_turn_of_def)
  have "case load of None \<Rightarrow> \<not> inject_persist_failure (path_exists w) (tr_command req) (tr_cwd req) | Some sid \<Rightarrow> session0 = sid"
    using assms(17) prep(3) by (cases load) simp_all
  then obtain its m it m' out s' where ran:
      "apply_all (json_to_text host) us (new_mapper (tr_prompt req)) = (Inr its, m)" "finish_agent_message m = (Inr it, m')"
      "after_admission host self h req w t th load ?s = (Inr out, s')"
      "out_turn out = stopped stop (t\<lparr>turn_items := fold upsert (its @ finished it) (mapped_items (new_mapper (tr_prompt req)))\<rparr>)"
      "distinct (map item_id (mapped_items m')) \<longrightarrow> turn_items (out_turn out) = mapped_items m'"
      "ready bg (out_turn out) session (homes s' h)" "killed (os s') pid" "set (live_pids (os s')) - {0} = set (live_pids (os s)) - {0, pid}"
    using cooperative_turn_completes [of req h w load session us stop pid ?s bg t session0 host self th] assms(8,10-16) prep(2) fresh(1,2)
    by auto
  have over: "is_terminal (turn_status (out_turn out))" by (simp add: ran(4))
  have "turn_at (homes s' h) = (turn_at (homes s h))(?i \<mapsto> out_turn out)"
    using ran(6) prep(7) by (intro turn_at_delete) (simp_all add: ready_def ran(4) fresh(3))
  moreover have "run_turn host self h req w s = (Inr out, s')" using prep(1) ran(3) by (simp add: run_turn_def wp)
  moreover have "load \<noteq> None \<longrightarrow> tr_follow_up_thread_id req = Some (turn_thread_id (out_turn out))"
    using prep(3) by (cases load) (simp_all add: ran(4))
  ultimately show ?thesis
    using ran ready_at_rest [OF ran(6) over prep(4-6)] ready_resumable [OF ran(6) over assms(9)] fresh by auto
qed

text \<open>The fake agent, asking for a permission first, which the policy grants.\<close>

definition asking_agent :: agent_script where
  "asking_agent = run_fake_agent [''GAMCHI_FAKE_ASK_PERMISSION'' \<mapsto> ''1''] (\<lambda>t. t) None None (Selected ''allow-once'')"

definition fake_world :: turn_world where
  "fake_world = sample_world
     \<lparr>init_events := init_events asking_agent, init_reply := init_reply asking_agent, session_events := session_events asking_agent,
      load_reply := load_reply asking_agent, new_reply := new_reply asking_agent, prompt_events := prompt_events asking_agent,
      prompt_reply := prompt_reply asking_agent, after_admit := \<lambda>s. s, spawn_reply := Inr 9\<rparr>"

lemma asking_agent_prompt:
  "prompt_events asking_agent = RequestPermission fake_permission_options # map Update emit_stub_updates"
  "prompt_reply asking_agent = Inr EndTurn"
  by (simp_all add: asking_agent_def run_fake_agent_def fake_prompt_def prompt_with_permission_def starts_with_def)

lemma fake_world_cooperative: "cooperative (tr_approval sample_request) ''/h'' fake_world None STUB_SESSION_ID emit_stub_updates EndTurn"
proof -
  have "tr_approval sample_request = Never" by (simp add: sample_request_def start_request_def)
  moreover have "allow_option fake_permission_options \<noteq> None" by (simp add: fake_permission_options_def allow_option_def)
  moreover have "init_events asking_agent = []" "init_reply asking_agent \<in> range Inr" "session_events asking_agent = []"
    "new_reply asking_agent = Inr STUB_SESSION_ID"
    by (simp_all add: asking_agent_def run_fake_agent_def fake_session_new_def Let_def)
  ultimately show ?thesis
    by (simp add: cooperative_def fake_world_def asking_agent_prompt list_all_iff image_iff)
qed

definition fake_items :: "item list" where
  "fake_items =
     [\<lparr>item_id = USER_ITEM_ID, item_type = ITEM_USER_MESSAGE, item_text = ''hi'', item_status = ITEM_STATUS_COMPLETED\<rparr>,
      \<lparr>item_id = AGENT_ITEM_ID, item_type = ITEM_AGENT_MESSAGE, item_text = STUB_REPLY, item_status = ITEM_STATUS_COMPLETED\<rparr>,
      \<lparr>item_id = STUB_TOOL_CALL_ID, item_type = ITEM_FILE_CHANGE, item_text = ''stub edit'', item_status = ITEM_STATUS_COMPLETED\<rparr>]"

lemma stub_updates_mapped:
  assumes "apply_all render emit_stub_updates (new_mapper ''hi'') = (Inr its, m)" "finish_agent_message m = (Inr it, m')"
  shows "mapped_items m' = fake_items"
proof -
  have id: "sanitize_id STUB_TOOL_CALL_ID = STUB_TOOL_CALL_ID" unfolding STUB_TOOL_CALL_ID_def
    by (rule sanitize_id_idempotent) (simp add: valid_id_def id_char_def is_ascii_alphanumeric_def byte_of_def)
  have [simp]: "USER_ITEM_ID \<noteq> AGENT_ITEM_ID" by (simp add: mapper_constants)
  show ?thesis using assms
    by (auto simp: emit_stub_updates_def wp upsert_agent_def new_mapper_def push_item_run item_by_id_def apply_tool_call_def
      map_kind_def reject_public PUBLIC_ITEM_TYPES_def store_tool_def Let_def item_runs id apply_tool_update_def update_known_tool_def
      set_item_run finish_agent_message_def fake_items_def)
qed

theorem run_turn_completes_witness:
  "\<exists>out s'. run_turn sample_host 1 ''/h'' sample_request fake_world (sample_sys\<lparr>homes := \<lambda>_. blank_ledger\<rparr>) = (Inr out, s') \<and>
     turn_status (out_turn out) = Completed \<and> stop_reason (out_turn out) = ''end_turn'' \<and> turn_items (out_turn out) = fake_items \<and>
     turn_at (homes s' ''/h'') (turn_id (out_turn out)) = Some (out_turn out) \<and> at_rest (homes s' ''/h'') \<and>
     resumable (turn_thread_id (out_turn out)) STUB_SESSION_ID (homes s' ''/h'') \<and>
     killed (os s') 9 \<and> set (live_pids (os s')) - {0} = {5}"
proof -
  let ?s = "sample_sys\<lparr>homes := \<lambda>_. blank_ledger\<rparr>"
  have world: "quiet ''/h'' (after_admit fake_world)" "quiet ''/h'' (after_spawn fake_world)" "quiet ''/h'' (at_end fake_world)"
    "spawn_reply fake_world = Inr 9" "(9 :: u32) \<noteq> 0"
    by (simp_all add: quiet_def fake_world_def sample_world_def)
  have sys: "0 \<in> set (live_pids (os ?s))" "\<not> is_shutting_down (os ?s)" by (simp_all add: sample_sys_def sample_os_def)
  have inject: "\<not> inject_persist_failure (path_exists fake_world) (tr_command sample_request) (tr_cwd sample_request)"
    by (simp add: inject_persist_failure_def sample_request_def start_request_def fake_world_def sample_world_def split: agent_command.split)
  have req: "tr_prompt sample_request = ''hi''" "tr_reuse_thread_id sample_request = None" "tr_client_request_id sample_request = None"
    "tr_follow_up_thread_id sample_request = None"
    by (simp_all add: sample_request_def start_request_def)
  have home: "at_rest (homes ?s ''/h'')" "load_home_defaults (configs ?s ''/h'') = Inr no_defaults"
    by (simp_all add: at_rest_def blank_ledger_def sample_sys_def load_home_defaults_def)
  have res: "resolves sample_request no_defaults (homes ?s ''/h'') None BUILTIN_MODEL BUILTIN_EFFORT"
    by (simp add: resolves_def req sample_request_def start_request_def resolve_first_turn_def resolve_layer_def present_field_def no_defaults_def)
  obtain plan where plan: "plan_of sample_request BUILTIN_MODEL BUILTIN_EFFORT = Inr plan"
    by (simp add: plan_of_def sample_request_def start_request_def acp_command_def sample_host_def plan_launch_def no_extra_def
      first_set_def is_absolute_Cons map_err_def)
  have new: "json_name (next_turn_id 1 (tr_follow_up_thread_id sample_request = None) (homes ?s ''/h'')) \<notin> fst ` set (turns_dir (homes ?s ''/h''))"
    by (simp add: blank_ledger_def)
  obtain its m it m' out s' where ran:
      "apply_all (json_to_text sample_host) emit_stub_updates (new_mapper ''hi'') = (Inr its, m)" "finish_agent_message m = (Inr it, m')"
      "run_turn sample_host 1 ''/h'' sample_request fake_world ?s = (Inr out, s')"
      "turn_status (out_turn out) = map_stop_reason (stop_reason_str EndTurn)" "stop_reason (out_turn out) = stop_reason_str EndTurn"
      "turn_id (out_turn out) = next_turn_id 1 True (homes ?s ''/h'')"
      "distinct (map item_id (mapped_items m')) \<longrightarrow> turn_items (out_turn out) = mapped_items m'"
      "turn_at (homes s' ''/h'') = (turn_at (homes ?s ''/h''))(next_turn_id 1 True (homes ?s ''/h'') \<mapsto> out_turn out)"
      "at_rest (homes s' ''/h'')" "resumable (turn_thread_id (out_turn out)) STUB_SESSION_ID (homes s' ''/h'')"
      "killed (os s') 9" "set (live_pids (os s')) - {0} = set (live_pids (os ?s)) - {0, 9}"
    using run_turn_completes [OF home req(2,3) res plan new fake_world_cooperative _ world sys inject, of sample_host]
    unfolding req by (auto simp: STUB_SESSION_ID_def)
  have items: "mapped_items m' = fake_items" by (rule stub_updates_mapped [OF ran(1,2)])
  then have "turn_items (out_turn out) = fake_items"
    using ran(7) by (simp add: fake_items_def mapper_constants STUB_TOOL_CALL_ID_def)
  moreover have "set (live_pids (os ?s)) - {0, 9} = {5}"
    by (simp add: sample_sys_def sample_os_def insert_Diff_if)
  moreover have "turn_at (homes s' ''/h'') (turn_id (out_turn out)) = Some (out_turn out)" by (simp add: ran(6,8))
  ultimately show ?thesis using ran by (auto simp: map_stop_reason_def)
qed

end
