(* ===== verification/Docscheck.thy ===== *)
theory Docscheck
  imports Prelude "HOL-Library.Multiset"
begin

text \<open>
  \<^verbatim>\<open>crates/docscheck/src/lib.rs\<close>: the checker that makes the roadmap the one authority on epics and tasks.
  The patterns are those of the source, as syntax (\<open>LineStart\<close> is \<open>(?m)^\<close>, \<open>TextStart\<close> is \<open>^\<close>). Iterating over a hash map gives its entries in an arbitrary
  order, an argument.
\<close>

section \<open>Patterns\<close>

datatype pattern =
    LineStart
  | TextStart
  | Lit string
  | Many "char \<Rightarrow> bool" nat
  | Exactly "char \<Rightarrow> bool" nat
  | LineEnd
  | Cat pattern pattern
  | Alt pattern pattern
  | Cap pattern

text \<open>
  What an engine finds in a text: the non-overlapping matches from left to right, each with its position and the
  captured groups. The engine is a crate's: it is an argument, and nothing is assumed of it.
\<close>

type_synonym engine = "pattern \<Rightarrow> string \<Rightarrow> (nat \<times> string list) list"

definition captures_iter :: "engine \<Rightarrow> pattern \<Rightarrow> string \<Rightarrow> string list list" where
  "captures_iter rx r body = map snd (rx r body)"

definition captures :: "engine \<Rightarrow> pattern \<Rightarrow> string \<Rightarrow> string list option" where
  "captures rx r body = (case captures_iter rx r body of [] \<Rightarrow> None | c # _ \<Rightarrow> Some c)"

text \<open>\<open>get(n)\<close>: a group of the patterns of the source takes part in every match.\<close>

definition group :: "nat \<Rightarrow> string list \<Rightarrow> string" where
  "group n caps = (if 0 < n \<and> n \<le> length caps then caps ! (n - 1) else [])"

definition not_char :: "char \<Rightarrow> char \<Rightarrow> bool" where
  "not_char c d \<longleftrightarrow> d \<noteq> c"

fun cats :: "pattern list \<Rightarrow> pattern" where
  "cats [] = Lit []"
| "cats (r # rs) = Cat r (cats rs)"

definition TASK_ROW_RE :: pattern where
  "TASK_ROW_RE = cats
     [LineStart, Lit ''| [TASK-'', Cap (Exactly is_digit 3), Lit '']('', Many (not_char (CHR '')'')) 0, Lit '') | '',
      Cap (Many (not_char (CHR ''|'')) 1), Lit '' | `'', Cap (Many (not_char (CHR ''`'')) 1), Lit ''` | '',
      Cap (Many (not_char (CHR ''|'')) 1), Lit '' |'']"

definition EPIC_HEADER_RE :: pattern where
  "EPIC_HEADER_RE = cats [LineStart, Lit ''## '', Cap (Cat (Lit ''EPIC-'') (Exactly is_digit 3)), Lit '': '']"

definition EPIC_STATUS_RE :: pattern where
  "EPIC_STATUS_RE = cats [LineStart, Lit ''Status: `'', Cap (Many (not_char (CHR ''`'')) 0), Lit ''`'', LineEnd]"

definition task_or_none :: pattern where
  "task_or_none = Cap (Alt (cats [Lit ''`TASK-'', Exactly is_digit 3, Lit ''`'']) (Lit ''none''))"

definition CURRENT_RE :: pattern where
  "CURRENT_RE = Cat LineStart (Cat (Lit ''Current Task: '') task_or_none)"

definition NEXT_RE :: pattern where
  "NEXT_RE = Cat LineStart (Cat (Lit ''Next eligible Task: '') task_or_none)"

definition EPIC_SPLIT_RE :: pattern where
  "EPIC_SPLIT_RE = cats [LineStart, Lit ''## EPIC-'', Exactly is_digit 3, Lit '': '']"

text \<open>The dash between the number and the title of a phase is U+2014, three bytes.\<close>

definition EM_DASH :: string where
  "EM_DASH = map char_of [0xE2, 0x80, 0x94 :: nat]"

definition PHASE_ROW_RE :: pattern where
  "PHASE_ROW_RE = cats
     [LineStart, Lit ''| Phase '', Cap (Many is_digit 1), Lit ('' '' @ EM_DASH @ '' ''), Many (not_char (CHR ''|'')) 1, Lit ''| '',
      Many (not_char (CHR ''|'')) 1, Lit ''| `'', Cap (Many (not_char (CHR ''`'')) 1), Lit ''` |'']"

section \<open>Reading a roadmap\<close>

record violation =
  violated :: string
  violation_message :: string

record task_row =
  row_id :: string
  row_status :: string

definition MAX_TASKS_PER_EPIC :: nat where
  "MAX_TASKS_PER_EPIC = 7"

definition STATUS_IN_PROGRESS :: string where "STATUS_IN_PROGRESS = ''In Progress''"
definition STATUS_IN_REVIEW :: string where "STATUS_IN_REVIEW = ''In Review''"

definition VALID_STATUSES :: "string list" where
  "VALID_STATUSES = [''Planned'', STATUS_IN_PROGRESS, STATUS_IN_REVIEW, ''Completed'', ''Blocked'', ''Deferred'']"

definition parse_tasks :: "engine \<Rightarrow> string \<Rightarrow> task_row list" where
  "parse_tasks rx body = map (\<lambda>c. \<lparr>row_id = group 1 c, row_status = trim (group 3 c)\<rparr>) (captures_iter rx TASK_ROW_RE body)"

fun slices :: "string \<Rightarrow> nat list \<Rightarrow> string list" where
  "slices body [] = []"
| "slices body [i] = [drop i body]"
| "slices body (i # j # is) = take (j - i) (drop i body) # slices body (j # is)"

definition epic_task_sections :: "engine \<Rightarrow> string \<Rightarrow> string list" where
  "epic_task_sections rx body = slices body (map fst (rx EPIC_SPLIT_RE body))"

definition trim_matches :: "char \<Rightarrow> string \<Rightarrow> string" where
  "trim_matches c s = rev (dropWhile (\<lambda>d. d = c) (rev (dropWhile (\<lambda>d. d = c) s)))"

definition without_prefix :: "string \<Rightarrow> string \<Rightarrow> string" where
  "without_prefix s p = (case strip_prefix s p of Some rest \<Rightarrow> rest | None \<Rightarrow> s)"

definition task_status :: "engine \<Rightarrow> string \<Rightarrow> string \<Rightarrow> string option" where
  "task_status rx body task =
     map_option row_status (List.find (\<lambda>row. row_id row = without_prefix task ''TASK-'') (parse_tasks rx body))"

definition current_task :: "engine \<Rightarrow> string \<Rightarrow> string option" where
  "current_task rx body = map_option (\<lambda>c. trim_matches (CHR ''`'') (group 1 c)) (captures rx CURRENT_RE body)"

definition next_eligible_task :: "engine \<Rightarrow> string \<Rightarrow> string option" where
  "next_eligible_task rx body = map_option (\<lambda>c. trim_matches (CHR ''`'') (group 1 c)) (captures rx NEXT_RE body)"

definition epic_status :: "engine \<Rightarrow> string \<Rightarrow> string \<Rightarrow> string option" where
  "epic_status rx body epic =
     (case List.find (\<lambda>section. starts_with section (''## '' @ epic @ '':'')) (epic_task_sections rx body) of
        None \<Rightarrow> None
      | Some section \<Rightarrow> map_option (\<lambda>c. group 1 c) (captures rx EPIC_STATUS_RE section))"

definition phase_status :: "engine \<Rightarrow> string \<Rightarrow> u32 \<Rightarrow> string option" where
  "phase_status rx body phase =
     map_option (\<lambda>c. group 2 c)
       (List.find (\<lambda>c. parse_unsigned (2 ^ 32) (group 1 c) = Some (unat phase)) (captures_iter rx PHASE_ROW_RE body))"

section \<open>The checks\<close>

text \<open>\<open>{:03}\<close> of an unsigned integer.\<close>

definition pad3 :: "nat \<Rightarrow> string" where
  "pad3 n = replicate (3 - length (to_dec n)) (CHR ''0'') @ to_dec n"

definition epic_name :: "nat \<Rightarrow> string" where
  "epic_name i = ''EPIC-'' @ pad3 (i + 1)"

definition task_name :: "task_row \<Rightarrow> string" where
  "task_name row = ''TASK-'' @ row_id row"

definition is_active :: "task_row \<Rightarrow> bool" where
  "is_active row \<longleftrightarrow> row_status row = STATUS_IN_PROGRESS \<or> row_status row = STATUS_IN_REVIEW"

definition active_tasks :: "task_row list \<Rightarrow> string list" where
  "active_tasks rows = map task_name (filter is_active rows)"

text \<open>How often each identifier was seen, in the order of the first time.\<close>

definition seen_counts :: "task_row list \<Rightarrow> (string \<times> nat) list" where
  "seen_counts rows =
     foldl (\<lambda>seen row. AList.update (row_id row) (case map_of seen (row_id row) of None \<Rightarrow> 1 | Some n \<Rightarrow> Suc n) seen) [] rows"

definition check_status :: "(string \<Rightarrow> string) \<Rightarrow> task_row \<Rightarrow> violation list" where
  "check_status debug row =
     (if row_status row \<in> set VALID_STATUSES then []
      else [\<lparr>violated = ''task-status'', violation_message = task_name row @ '' has invalid status '' @ debug (row_status row)\<rparr>])"

definition check_tasks :: "(string \<Rightarrow> string) \<Rightarrow> ((string \<times> nat) list \<Rightarrow> (string \<times> nat) list) \<Rightarrow> task_row list \<Rightarrow> violation list" where
  "check_tasks debug hash_order rows =
     (if rows = [] then [\<lparr>violated = ''task-count'', violation_message = ''roadmap has no TASK rows''\<rparr>] else []) @
     concat (map (check_status debug) rows) @
     map (\<lambda>(i, n). \<lparr>violated = ''task-set'', violation_message = ''TASK-'' @ i @ '' appears '' @ to_dec n @ '' times''\<rparr>)
       (filter (\<lambda>(i, n). n > 1) (hash_order (seen_counts rows))) @
     (if length (active_tasks rows) > 1
      then [\<lparr>violated = ''one-active-task'',
             violation_message = ''at most one In Progress or In Review task, got '' @ join_with '', '' (active_tasks rows)\<rparr>]
      else [])"

definition check_epic_order :: "nat \<Rightarrow> string list \<Rightarrow> violation list" where
  "check_epic_order i caps =
     (if group 1 caps = epic_name i then []
      else [\<lparr>violated = ''epic-order'',
             violation_message = ''epic '' @ to_dec (i + 1) @ '' is '' @ group 1 caps @ '', want '' @ epic_name i\<rparr>])"

definition check_epic_cap :: "engine \<Rightarrow> nat \<Rightarrow> string \<Rightarrow> violation list" where
  "check_epic_cap rx i section =
     (let n = length (parse_tasks rx section) in
      if n > MAX_TASKS_PER_EPIC
      then [\<lparr>violated = ''epic-task-cap'',
             violation_message = epic_name i @ '' has '' @ to_dec n @ '' tasks, max '' @ to_dec MAX_TASKS_PER_EPIC\<rparr>]
      else [])"

definition enumerate_with :: "(nat \<Rightarrow> 'a \<Rightarrow> 'b list) \<Rightarrow> 'a list \<Rightarrow> 'b list" where
  "enumerate_with f xs = concat (map (\<lambda>(i, x). f i x) (List.enumerate 0 xs))"

definition check_epics :: "engine \<Rightarrow> string \<Rightarrow> violation list" where
  "check_epics rx body =
     (let epics = captures_iter rx EPIC_HEADER_RE body; status_count = length (captures_iter rx EPIC_STATUS_RE body) in
      (if epics = [] then [\<lparr>violated = ''epic-count'', violation_message = ''roadmap has no EPIC headers''\<rparr>] else []) @
      enumerate_with check_epic_order epics @
      (if status_count \<noteq> length epics
       then [\<lparr>violated = ''epic-status'',
              violation_message = ''want '' @ to_dec (length epics) @ '' epic Status lines, got '' @ to_dec status_count\<rparr>]
       else []) @
      enumerate_with (check_epic_cap rx) (epic_task_sections rx body))"

definition check_current :: "string list \<Rightarrow> string \<Rightarrow> violation list" where
  "check_current active got =
     (case active of
        [] \<Rightarrow>
          if got \<noteq> ''none''
          then [\<lparr>violated = ''current-task'',
                 violation_message = ''Current Task must be none when no task is In Progress or In Review, got '' @ got\<rparr>]
          else []
      | [a] \<Rightarrow>
          if got \<noteq> a
          then [\<lparr>violated = ''current-task'', violation_message = ''Current Task must be '' @ a @ '', got '' @ got\<rparr>]
          else []
      | _ \<Rightarrow> [])"

definition check_next :: "string \<Rightarrow> violation list" where
  "check_next got =
     (if got \<noteq> ''none'' \<and> parse_unsigned (2 ^ 32) (without_prefix got ''TASK-'') = None
      then [\<lparr>violated = ''next-task'', violation_message = ''malformed Next eligible Task '' @ got\<rparr>]
      else [])"

definition check_pointers :: "engine \<Rightarrow> string \<Rightarrow> string list \<Rightarrow> violation list" where
  "check_pointers rx body active =
     (let cur = captures rx CURRENT_RE body; nxt = captures rx NEXT_RE body in
      (if cur = None then [\<lparr>violated = ''current-task'', violation_message = ''missing Current Task line''\<rparr>] else []) @
      (if nxt = None then [\<lparr>violated = ''next-task'', violation_message = ''missing Next eligible Task line''\<rparr>] else []) @
      (case cur of None \<Rightarrow> [] | Some c \<Rightarrow> check_current active (trim_matches (CHR ''`'') (group 1 c))) @
      (case nxt of None \<Rightarrow> [] | Some c \<Rightarrow> check_next (trim_matches (CHR ''`'') (group 1 c))))"

definition check :: "engine \<Rightarrow> (string \<Rightarrow> string) \<Rightarrow> ((string \<times> nat) list \<Rightarrow> (string \<times> nat) list) \<Rightarrow> string \<Rightarrow> violation list" where
  "check rx debug hash_order body =
     (let rows = parse_tasks rx body in
      check_tasks debug hash_order rows @ check_epics rx body @ check_pointers rx body (active_tasks rows))"

definition check_file :: "engine \<Rightarrow> (string \<Rightarrow> string) \<Rightarrow> ((string \<times> nat) list \<Rightarrow> (string \<times> nat) list) \<Rightarrow> string + string \<Rightarrow> violation list" where
  "check_file rx debug hash_order contents =
     (case contents of
        Inr body \<Rightarrow> check rx debug hash_order body
      | Inl e \<Rightarrow> [\<lparr>violated = ''roadmap-readable'', violation_message = e\<rparr>])"

definition ROADMAP_PATH :: string where
  "ROADMAP_PATH = ''docs/roadmap/README.md''"

definition display_violation :: "violation \<Rightarrow> string" where
  "display_violation v = violated v @ '': '' @ violation_message v"

text \<open>The program: exit code and the lines of standard error.\<close>

definition docscheck_main :: "violation list \<Rightarrow> violation list \<Rightarrow> nat \<times> string list" where
  "docscheck_main roadmap leftovers =
     (let vs = roadmap @ leftovers in if vs = [] then (0, []) else (1, map display_violation vs))"

section \<open>When a roadmap is accepted\<close>

definition numbered_in_order :: "string list \<Rightarrow> bool" where
  "numbered_in_order epics \<longleftrightarrow> epics = map epic_name [0..<length epics]"

text \<open>The task the roadmap must point to.\<close>

fun pointed_to :: "string list \<Rightarrow> string" where
  "pointed_to [] = ''none''"
| "pointed_to (a # _) = a"

definition well_formed_next :: "string \<Rightarrow> bool" where
  "well_formed_next got \<longleftrightarrow> got = ''none'' \<or> parse_unsigned (2 ^ 32) (without_prefix got ''TASK-'') \<noteq> None"

lemma set_enumerate_with: "x \<in> set (enumerate_with f xs) \<longleftrightarrow> (\<exists>i < length xs. x \<in> set (f i (xs ! i)))"
  by (force simp: enumerate_with_def enumerate_eq_zip set_zip)

lemma enumerate_with_Nil: "enumerate_with f xs = [] \<longleftrightarrow> (\<forall>i < length xs. f i (xs ! i) = [])"
  unfolding set_empty [symmetric] set_eq_iff set_enumerate_with by blast

lemma seen_counts_count: "map_of (seen_counts rows) i = (if i \<in> row_id ` set rows then Some (count_list (map row_id rows) i) else None)"
  unfolding seen_counts_def
  by (induction rows arbitrary: i rule: rev_induct) auto

lemma seen_counts_keys: "distinct (map fst (seen_counts rows))"
  unfolding seen_counts_def by (induction rows rule: rev_induct) (simp_all add: distinct_update)

lemma distinct_count_list: "distinct xs \<longleftrightarrow> (\<forall>x. count_list xs x \<le> 1)"
proof (induction xs)
  case (Cons y xs)
  have "count_list xs y = 0 \<and> count_list xs x \<le> 1" if "\<forall>x. count_list (y # xs) x \<le> 1" for x
    using that [rule_format, of y] that [rule_format, of x] by (simp split: if_splits)
  then have "(\<forall>x. count_list (y # xs) x \<le> 1) \<longleftrightarrow> count_list xs y = 0 \<and> (\<forall>x. count_list xs x \<le> 1)"
    by (metis count_list.simps(2) le_refl One_nat_def Suc_eq_plus1 add_0)
  then show ?case using Cons by (simp add: count_list_0_iff)
qed simp

lemma seen_once: "filter (\<lambda>(i, n). n > 1) (seen_counts rows) = [] \<longleftrightarrow> distinct (map row_id rows)"
proof -
  have "(i, n) \<in> set (seen_counts rows) \<longleftrightarrow> i \<in> row_id ` set rows \<and> count_list (map row_id rows) i = n" for i n
    unfolding map_of_eq_Some_iff [OF seen_counts_keys [of rows], symmetric] seen_counts_count by auto
  then have "filter (\<lambda>(i, n). n > 1) (seen_counts rows) = [] \<longleftrightarrow> (\<forall>i \<in> row_id ` set rows. count_list (map row_id rows) i \<le> 1)"
    by (fastforce simp: filter_empty_conv not_less)
  also have "\<dots> \<longleftrightarrow> distinct (map row_id rows)"
    unfolding distinct_count_list by (metis count_notin image_set zero_le_one)
  finally show ?thesis .
qed

lemma filter_mset_Nil: "mset xs = mset ys \<Longrightarrow> filter P xs = [] \<longleftrightarrow> filter P ys = []"
  by (metis filter_empty_conv set_mset_mset)

lemma check_tasks_accepts:
  assumes "mset (hash_order (seen_counts rows)) = mset (seen_counts rows)"
  shows "check_tasks debug hash_order rows = [] \<longleftrightarrow>
    rows \<noteq> [] \<and> row_status ` set rows \<subseteq> set VALID_STATUSES \<and> distinct (map row_id rows) \<and> length (filter is_active rows) \<le> 1"
  using filter_mset_Nil [OF assms, of "\<lambda>(i, n). n > 1"] seen_once [of rows]
  by (auto simp: check_tasks_def check_status_def active_tasks_def split: if_splits)

lemma numbered_iff: "numbered_in_order (map f xs) \<longleftrightarrow> (\<forall>i < length xs. f (xs ! i) = epic_name i)"
  unfolding numbered_in_order_def by (subst list_eq_iff_nth_eq) simp

lemma epic_caps_Nil: "enumerate_with (check_epic_cap rx) ss = [] \<longleftrightarrow> (\<forall>section \<in> set ss. length (parse_tasks rx section) \<le> MAX_TASKS_PER_EPIC)"
  by (auto simp: enumerate_with_Nil check_epic_cap_def Let_def all_set_conv_all_nth not_less)

lemma epic_order_Nil: "enumerate_with check_epic_order epics = [] \<longleftrightarrow> numbered_in_order (map (group 1) epics)"
  by (auto simp: enumerate_with_Nil check_epic_order_def numbered_iff)

lemma check_epics_accepts:
  "check_epics rx body = [] \<longleftrightarrow>
    (let epics = map (group 1) (captures_iter rx EPIC_HEADER_RE body) in
     epics \<noteq> [] \<and> numbered_in_order epics \<and> length (captures_iter rx EPIC_STATUS_RE body) = length epics) \<and>
    (\<forall>section \<in> set (epic_task_sections rx body). length (parse_tasks rx section) \<le> MAX_TASKS_PER_EPIC)"
  by (simp add: check_epics_def Let_def epic_order_Nil epic_caps_Nil)

lemma check_current_accepts: "length active \<le> 1 \<Longrightarrow> check_current active got = [] \<longleftrightarrow> got = pointed_to active"
  by (auto simp: check_current_def split: list.splits)

lemma check_next_accepts: "check_next got = [] \<longleftrightarrow> well_formed_next got"
  by (auto simp: check_next_def well_formed_next_def)

lemma check_pointers_accepts:
  assumes "length active \<le> 1"
  shows "check_pointers rx body active = [] \<longleftrightarrow>
    current_task rx body = Some (pointed_to active) \<and> (\<exists>nxt. next_eligible_task rx body = Some nxt \<and> well_formed_next nxt)"
  unfolding check_pointers_def current_task_def next_eligible_task_def Let_def
  using check_current_accepts [OF assms] check_next_accepts by (auto split: option.splits)

text \<open>C39: a roadmap is accepted exactly when it has tasks, each with a valid status and a number of its own, at most one of them in
  progress or in review; epics numbered from one in order, as many status lines as epics and at most seven tasks in each;
  a current task that is the active one, or none when there is none, and a next task that is none or a number. The order in which the hash map is walked does
  not matter. This holds for every pattern engine.\<close>

theorem roadmap_accepted_iff:
  assumes "\<And>m. mset (hash_order m) = mset m"
  shows "check rx debug hash_order body = [] \<longleftrightarrow>
    (let rows = parse_tasks rx body; epics = map (group 1) (captures_iter rx EPIC_HEADER_RE body) in
     rows \<noteq> [] \<and> row_status ` set rows \<subseteq> set VALID_STATUSES \<and> distinct (map row_id rows) \<and> length (filter is_active rows) \<le> 1 \<and>
     epics \<noteq> [] \<and> numbered_in_order epics \<and> length (captures_iter rx EPIC_STATUS_RE body) = length epics \<and>
     (\<forall>section \<in> set (epic_task_sections rx body). length (parse_tasks rx section) \<le> MAX_TASKS_PER_EPIC) \<and>
     current_task rx body = Some (pointed_to (active_tasks rows)) \<and>
     (\<exists>nxt. next_eligible_task rx body = Some nxt \<and> well_formed_next nxt))"
proof (cases "length (active_tasks (parse_tasks rx body)) \<le> 1")
  case True
  show ?thesis using check_tasks_accepts [of hash_order "parse_tasks rx body" debug, OF assms] check_epics_accepts [of rx body]
      check_pointers_accepts [OF True, of rx body]
    by (simp add: check_def Let_def)
next
  case False
  then show ?thesis using check_tasks_accepts [of hash_order "parse_tasks rx body" debug, OF assms]
    by (simp add: check_def Let_def active_tasks_def)
qed

text \<open>
  A concrete engine: the matches of a pattern are listed in the order in which a leftmost-first engine
  prefers them, each with its groups and what is left of the text.
\<close>

primrec matches :: "pattern \<Rightarrow> string \<Rightarrow> (string list \<times> string) list" where
  "matches LineStart s = [([], s)]"
| "matches TextStart s = [([], s)]"
| "matches (Lit l) s = (case strip_prefix s l of None \<Rightarrow> [] | Some rest \<Rightarrow> [([], rest)])"
| "matches (Many P n) s = map (\<lambda>k. ([], drop k s)) (rev [n..<Suc (length (takeWhile P s))])"
| "matches (Exactly P n) s = (if n \<le> length s \<and> list_all P (take n s) then [([], drop n s)] else [])"
| "matches LineEnd s = (if s = [] \<or> hd s = newline then [([], s)] else [])"
| "matches (Cat a b) s = concat (map (\<lambda>(c, rest). map (\<lambda>(c', rest'). (c @ c', rest')) (matches b rest)) (matches a s))"
| "matches (Alt a b) s = matches a s @ matches b s"
| "matches (Cap a) s = map (\<lambda>(c, rest). (take (length s - length rest) s # c, rest)) (matches a s)"

text \<open>
  The non-overlapping matches of a pattern that begins with \<open>LineStart\<close>, with their positions. No pattern of the source matches the empty text.
\<close>

function find_all :: "pattern \<Rightarrow> bool \<Rightarrow> nat \<Rightarrow> string \<Rightarrow> (nat \<times> string list) list" where
  "find_all r bol pos s =
     (case (if bol then matches r s else []) of
        (caps, rest) # _ \<Rightarrow>
          if length rest < length s
          then (pos, caps) # find_all r (s ! (length s - length rest - 1) = newline) (pos + (length s - length rest)) rest
          else []
      | [] \<Rightarrow> (case s of [] \<Rightarrow> [] | c # cs \<Rightarrow> find_all r (c = newline) (Suc pos) cs))"
  by pat_completeness auto
termination
  by (relation "measure (\<lambda>(r, bol, pos, s). length s)") auto

declare find_all.simps [simp del]

definition leftmost_first :: engine where
  "leftmost_first r body = find_all r True 0 body"

definition sample_roadmap :: string where
  "sample_roadmap = join_with [newline]
     [''Current Task: `TASK-007`'', ''Next eligible Task: none'', ''## EPIC-001: e'', ''Status: `Planned`'',
      ''| [TASK-007](a) | b | `In Review` | c |'']"

lemma sample_roadmap_accepted: "check leftmost_first (\<lambda>t. t) (\<lambda>m. m) sample_roadmap = []"
  by code_simp

lemma sample_roadmap_tasks: "parse_tasks leftmost_first sample_roadmap = [\<lparr>row_id = ''007'', row_status = ''In Review''\<rparr>]"
  by code_simp

theorem roadmap_accepted_iff_witness:
  "check leftmost_first (\<lambda>t. t) (\<lambda>m. m) sample_roadmap = [] \<and> current_task leftmost_first sample_roadmap = Some ''TASK-007''"
proof -
  have "current_task leftmost_first sample_roadmap = Some (pointed_to (active_tasks (parse_tasks leftmost_first sample_roadmap)))"
    using roadmap_accepted_iff [of "\<lambda>m. m" leftmost_first "\<lambda>t. t" sample_roadmap] sample_roadmap_accepted by (simp add: Let_def)
  then show ?thesis using sample_roadmap_accepted
    by (simp add: sample_roadmap_tasks active_tasks_def is_active_def STATUS_IN_REVIEW_def task_name_def)
qed

end
