(* ===== verification/Leftover.thy ===== *)
theory Leftover
  imports Docscheck
begin

text \<open>
  \<^verbatim>\<open>crates/docscheck/src/leftover.rs\<close>: the search of the tracked files for old names of the product. The
  answers of git and of the file system and the pattern engine are arguments.
\<close>

section \<open>The search\<close>

definition NEEDLES :: "string list" where
  "NEEDLES = [''samchi-for-grok'', ''SAMCHI_FOR_GROK'', ''Samchi for Grok'']"

definition CAPTURE_MARKER :: string where "CAPTURE_MARKER = ''samchi-for-grok-task-004-live-capture''"
definition CAPTURE_PREFIX :: string where "CAPTURE_PREFIX = ''crates/adapter-grok/captures/task-004/''"
definition SCANNER_PATH :: string where "SCANNER_PATH = ''crates/docscheck/src/leftover.rs''"
definition GITHUB_SPANS :: "string list" where "GITHUB_SPANS = [''samchi-for-grok.git'', ''irootkernel/samchi-for-grok'']"

definition COMPLETED_TASK_ROW_RE :: pattern where
  "COMPLETED_TASK_ROW_RE = cats
     [TextStart, Lit ''| [TASK-'', Exactly is_digit 3, Lit '']('', Many (not_char (CHR '')'')) 0, Lit '') | '',
      Many (not_char (CHR ''|'')) 1, Lit '' | `Completed` |'']"

text \<open>\<open>str::match_indices\<close>: the non-overlapping occurrences. What is searched for is not empty.\<close>

function match_indices_from :: "nat \<Rightarrow> string \<Rightarrow> string \<Rightarrow> nat list" where
  "match_indices_from start s p =
     (case str_find (drop start s) p of
        None \<Rightarrow> []
      | Some at \<Rightarrow> if p = [] then [] else (start + at) # match_indices_from (start + at + length p) s p)"
  by pat_completeness auto
termination
proof (relation "measure (\<lambda>(start, s, p). Suc (length s) - start)")
  fix start s p at
  assume "str_find (drop start s) p = Some at" "p \<noteq> []"
  then have "at + length p \<le> length s - start" "length p \<noteq> 0" using str_find_Some by fastforce+
  then have "Suc (length s) - (start + at + length p) < Suc (length s) - start" by linarith
  then show "((start + at + length p, s, p), start, s, p) \<in> measure (\<lambda>(start, s, p). Suc (length s) - start)" by simp
qed simp

declare match_indices_from.simps [simp del]

definition covered_by :: "string \<Rightarrow> nat \<Rightarrow> nat \<Rightarrow> string \<Rightarrow> bool" where
  "covered_by line idx len span \<longleftrightarrow>
     list_ex (\<lambda>at. idx \<ge> at \<and> idx + len \<le> at + length span) (match_indices_from 0 line span)"

definition allowed :: "(pattern \<Rightarrow> string \<Rightarrow> bool) \<Rightarrow> string \<Rightarrow> string \<Rightarrow> nat \<Rightarrow> string \<Rightarrow> bool" where
  "allowed is_match rel line idx needle \<longleftrightarrow>
     (if covered_by line idx (length needle) CAPTURE_MARKER then True
      else if list_ex (covered_by line idx (length needle)) GITHUB_SPANS then True
      else if rel \<noteq> ROADMAP_PATH then False
      else if is_match COMPLETED_TASK_ROW_RE line then True
      else if str_contains line ''SAMCHI_FOR_GROK_*'' then True
      else if str_contains line ''~/.samchi-for-grok'' \<and>
           (str_contains line ''migrate'' \<or> str_contains line ''auto-discover'' \<or> str_contains line ''copy'') then True
      else str_contains line ''Old-name allowlist'')"

text \<open>The loop over one line: it ends with the first occurrence that is not allowed.\<close>

function scan_from :: "(pattern \<Rightarrow> string \<Rightarrow> bool) \<Rightarrow> string \<Rightarrow> string \<Rightarrow> string \<Rightarrow> nat \<Rightarrow> bool" where
  "scan_from is_match rel line needle start =
     (case str_find (drop start line) needle of
        None \<Rightarrow> False
      | Some at \<Rightarrow>
          if needle = [] then False
          else if \<not> allowed is_match rel line (start + at) needle then True
          else scan_from is_match rel line needle (start + at + length needle))"
  by pat_completeness auto
termination
proof (relation "measure (\<lambda>(is_match, rel, line, needle, start). Suc (length line) - start)")
  fix is_match :: "pattern \<Rightarrow> string \<Rightarrow> bool" and rel line needle start at
  assume "str_find (drop start line) needle = Some at" "needle \<noteq> []"
  then have "at + length needle \<le> length line - start" "length needle \<noteq> 0" using str_find_Some by fastforce+
  then have "Suc (length line) - (start + at + length needle) < Suc (length line) - start" by linarith
  then show "((is_match, rel, line, needle, start + at + length needle), is_match, rel, line, needle, start)
      \<in> measure (\<lambda>(is_match, rel, line, needle, start). Suc (length line) - start)" by simp
qed simp

declare scan_from.simps [simp del]

record hit =
  hit_line :: nat
  hit_needle :: string

definition hits_in_line :: "(pattern \<Rightarrow> string \<Rightarrow> bool) \<Rightarrow> string \<Rightarrow> nat \<Rightarrow> string \<Rightarrow> hit list" where
  "hits_in_line is_match rel i line =
     map (\<lambda>needle. \<lparr>hit_line = i + 1, hit_needle = needle\<rparr>) (filter (\<lambda>needle. scan_from is_match rel line needle 0) NEEDLES)"

definition leftovers_in :: "(pattern \<Rightarrow> string \<Rightarrow> bool) \<Rightarrow> string \<Rightarrow> string \<Rightarrow> hit list" where
  "leftovers_in is_match rel body = enumerate_with (hits_in_line is_match rel) (lines body)"

section \<open>The files\<close>

text \<open>git's answer: an error of running it, or whether it succeeded and what it printed.\<close>

definition git_ls_files :: "(string \<Rightarrow> string) \<Rightarrow> string + bool \<times> string \<times> string \<Rightarrow> string + string list" where
  "git_ls_files lossy out =
     (case out of
        Inl e \<Rightarrow> Inl (''git ls-files: '' @ e)
      | Inr (success, stdout, stderr) \<Rightarrow>
          if \<not> success then Inl (''git ls-files failed: '' @ lossy stderr)
          else Inr (map lossy (filter (\<lambda>p. p \<noteq> []) (split_on (CHR 0x00) stdout))))"

definition leftover_message :: "(string \<Rightarrow> string) \<Rightarrow> string \<Rightarrow> hit \<Rightarrow> string" where
  "leftover_message debug rel hit = rel @ '':'' @ to_dec (hit_line hit) @ '' leftover '' @ debug (hit_needle hit)"

definition scanned :: "string \<Rightarrow> bool" where
  "scanned rel \<longleftrightarrow> \<not> (starts_with rel CAPTURE_PREFIX \<or> rel = SCANNER_PATH)"

definition check_leftover_names ::
  "(pattern \<Rightarrow> string \<Rightarrow> bool) \<Rightarrow> (string \<Rightarrow> string) \<Rightarrow> (string \<Rightarrow> string) \<Rightarrow> string + bool \<times> string \<times> string \<Rightarrow> (string \<Rightarrow> string option) \<Rightarrow> violation list" where
  "check_leftover_names is_match lossy debug git read_file =
     (case git_ls_files lossy git of
        Inl e \<Rightarrow> [\<lparr>violated = ''leftover-names'', violation_message = e\<rparr>]
      | Inr files \<Rightarrow>
          concat (map (\<lambda>rel.
            if \<not> scanned rel then []
            else case read_file rel of
              None \<Rightarrow> []
            | Some body \<Rightarrow>
                map (\<lambda>hit. \<lparr>violated = ''leftover-names'', violation_message = leftover_message debug rel hit\<rparr>) (leftovers_in is_match rel body)) files))"

section \<open>Nothing is overlooked\<close>

text \<open>A name no proper prefix of which is a suffix: its occurrences do not overlap.\<close>

definition borderless :: "string \<Rightarrow> bool" where
  "borderless p \<longleftrightarrow> list_all (\<lambda>d. drop d p \<noteq> take (length p - d) p) [1..<length p]"

lemma needles_borderless: "list_all borderless NEEDLES"
  by code_simp

lemma occurrences_apart:
  assumes "borderless p" "occurs_at p s i" "occurs_at p s j" "i < j"
  shows "i + length p \<le> j"
proof (rule ccontr)
  assume near: "\<not> i + length p \<le> j"
  let ?d = "j - i"
  have "drop ?d p = drop ?d (take (length p) (drop i s))" using assms(2) by (simp add: occurs_at_def)
  also have "\<dots> = take (length p - ?d) (drop j s)" using assms(4) by (simp add: drop_take)
  also have "\<dots> = take (length p - ?d) (take (length p) (drop j s))" by simp
  also have "\<dots> = take (length p - ?d) p" using assms(3) by (simp add: occurs_at_def)
  finally have "drop ?d p = take (length p - ?d) p" .
  moreover have "?d \<in> set [1..<length p]" using assms(4) near by auto
  ultimately show False using assms(1) unfolding borderless_def list_all_iff by blast
qed

lemma occurs_at_drop: "start \<le> i \<Longrightarrow> occurs_at p s i \<Longrightarrow> occurs_at p (drop start s) (i - start)"
  by (auto simp: occurs_at_def)

lemma occurs_at_undrop: "occurs_at p (drop start s) i \<Longrightarrow> start + i \<le> length s \<Longrightarrow> occurs_at p s (start + i)"
  by (auto simp: occurs_at_def add.commute)

lemma scan_from_finds:
  assumes "borderless needle" "needle \<noteq> []"
  shows "scan_from is_match rel line needle start \<longleftrightarrow> (\<exists>i \<ge> start. occurs_at needle line i \<and> \<not> allowed is_match rel line i needle)"
  using assms
proof (induction is_match rel line needle start rule: scan_from.induct)
  case (1 is_match rel line needle start)
  note borderless = "1.prems"
  show ?case
  proof (cases "str_find (drop start line) needle")
    case None
    then have "\<not> occurs_at needle line i" if "start \<le> i" for i
      using str_find_None [OF None] occurs_at_drop [OF that] by blast
    then show ?thesis by (auto simp: scan_from.simps [of is_match rel line needle start] None)
  next
    case (Some at)
    let ?idx = "start + at"
    have first: "occurs_at needle (drop start line) at" "at + length needle \<le> length line - start"
        "\<And>j. j < at \<Longrightarrow> \<not> occurs_at needle (drop start line) j"
      using str_find_Some [OF Some] by auto
    have "length needle \<noteq> 0" using borderless(2) by simp
    then have here: "occurs_at needle line ?idx" using occurs_at_undrop [OF first(1)] first(2) by linarith
    show ?thesis
    proof (cases "allowed is_match rel line ?idx needle")
      case False
      then show ?thesis using here borderless(2) Some by (auto simp: scan_from.simps [of is_match rel line needle start] intro!: exI [of _ ?idx])
    next
      case True
      have step: "scan_from is_match rel line needle start = scan_from is_match rel line needle (?idx + length needle)"
        using Some True borderless(2) by (simp add: scan_from.simps [of is_match rel line needle start])
      have "?idx + length needle \<le> i" if i: "start \<le> i" "occurs_at needle line i" "\<not> allowed is_match rel line i needle" for i
      proof -
        have "\<not> i - start < at" using first(3) occurs_at_drop [OF i(1,2)] by blast
        moreover have "i \<noteq> ?idx" using True i(3) by blast
        ultimately have "?idx < i" using i(1) by linarith
        with occurrences_apart [OF borderless(1) here i(2)] show ?thesis .
      qed
      then show ?thesis using "1.IH" [OF Some borderless(2) _ borderless] True
        unfolding step by (meson le_add1 le_trans)
    qed
  qed
qed

text \<open>C40: no old name is overlooked and none is made up: the reports of a file are exactly its lines and names where
  the name occurs in the line at a position at which it is not allowed, however many allowed occurrences precede it.\<close>

theorem leftovers_complete:
  "hit \<in> set (leftovers_in is_match rel body) \<longleftrightarrow>
     hit_needle hit \<in> set NEEDLES \<and>
     (\<exists>i k. hit_line hit = i + 1 \<and> i < length (lines body) \<and> occurs_at (hit_needle hit) (lines body ! i) k \<and>
        \<not> allowed is_match rel (lines body ! i) k (hit_needle hit))"
proof -
  have scan: "scan_from is_match rel line needle 0 \<longleftrightarrow> (\<exists>k. occurs_at needle line k \<and> \<not> allowed is_match rel line k needle)"
    if "needle \<in> set NEEDLES" for needle line
  proof -
    have "borderless needle" "needle \<noteq> []" using that needles_borderless by (auto simp: list_all_iff NEEDLES_def)
    then show ?thesis using scan_from_finds [of needle is_match rel line 0] by simp
  qed
  have "hit \<in> set (leftovers_in is_match rel body) \<longleftrightarrow>
      (\<exists>i < length (lines body). hit_line hit = i + 1 \<and> hit_needle hit \<in> set NEEDLES \<and> scan_from is_match rel (lines body ! i) (hit_needle hit) 0)"
    by (cases hit) (auto simp: leftovers_in_def set_enumerate_with hits_in_line_def)
  then show ?thesis using scan by blast
qed

end
