(* ===== verification/LiveCapture.thy ===== *)
theory LiveCapture
  imports Leftover FakeAgent
begin

text \<open>
  \<^verbatim>\<open>crates/adapter-grok/src/live_capture.rs\<close>: the reader of a recorded conversation with the real agent, and the
  check that the architecture decision record says what the recording shows. Parsing JSON and reading files are arguments.
  Request identifiers are compared as values; in JSON-RPC they are strings and integers.
\<close>

section \<open>A recording\<close>

definition CAPTURE_RELDIR :: string where "CAPTURE_RELDIR = ''captures/task-004''"
definition TRAFFIC_FILENAME :: string where "TRAFFIC_FILENAME = ''traffic.ndjson''"
definition METADATA_FILENAME :: string where "METADATA_FILENAME = ''metadata.json''"
definition WRITTEN_FILENAME :: string where "WRITTEN_FILENAME = ''TASK004_CAPTURE.txt''"
definition GO_ADR_RELPATH :: string where "GO_ADR_RELPATH = ''docs/architecture-decision-records/0002-grok-agent-stdio.md''"
definition ADR_INDEX_RELPATH :: string where "ADR_INDEX_RELPATH = ''docs/architecture-decision-records/README.md''"

record live_stdio_capture =
  grok_cli_version :: string
  grok_agent_version :: string
  argv :: "string list"
  owner :: string
  initialize_request :: bool
  initialize_result :: bool
  session_new_sent :: bool
  session_prompt_sent :: bool
  session_update_seen :: bool
  edit_kind :: bool
  fs_write_text_file :: bool
  written_content :: string
  capture_stop_reason :: string
  contains_fake_stub_ids :: bool
  load_session_advertised :: bool
  session_load_invoked :: bool

definition launched_with_no_leader :: "live_stdio_capture \<Rightarrow> bool" where
  "launched_with_no_leader c \<longleftrightarrow> ''--no-leader'' \<in> set (argv c) \<and> owner c \<noteq> []"

definition launched_with_always_approve :: "live_stdio_capture \<Rightarrow> bool" where
  "launched_with_always_approve c \<longleftrightarrow> ''--always-approve'' \<in> set (argv c)"

definition launched_as_stdio_child :: "live_stdio_capture \<Rightarrow> bool" where
  "launched_as_stdio_child c \<longleftrightarrow> ''stdio'' \<in> set (argv c) \<and> \<not> list_ex (\<lambda>a. a = ''serve'' \<or> a = ''leader'') (argv c)"

definition launched_with_sandbox :: "live_stdio_capture \<Rightarrow> bool" where
  "launched_with_sandbox c \<longleftrightarrow> ''--sandbox'' \<in> set (argv c)"

section \<open>Reading the traffic\<close>

type_synonym json_reader = "string \<Rightarrow> string + json"

definition meta_string :: "json \<Rightarrow> string \<Rightarrow> string + string" where
  "meta_string meta key =
     (case get_str meta key of Some s \<Rightarrow> Inr s | None \<Rightarrow> Inl (''metadata.json missing string '' @ key))"

fun all_strings :: "string \<Rightarrow> json list \<Rightarrow> string + string list" where
  "all_strings key [] = Inr []"
| "all_strings key (v # vs) =
     (case as_str v of
        None \<Rightarrow> Inl (''metadata.json '' @ key @ '' entry is not a string'')
      | Some s \<Rightarrow> map_sum id ((#) s) (all_strings key vs))"

definition meta_string_array :: "json \<Rightarrow> string \<Rightarrow> string + string list" where
  "meta_string_array meta key =
     (case Option.bind (json_get meta key) as_array of
        None \<Rightarrow> Inl (''metadata.json missing array '' @ key)
      | Some vs \<Rightarrow> all_strings key vs)"

fun json_has_edit_kind :: "json \<Rightarrow> bool" where
  "json_has_edit_kind (JObj kvs) \<longleftrightarrow>
     get_str (JObj kvs) ''kind'' = Some ''edit'' \<or> (\<exists>kv \<in> set kvs. json_has_edit_kind (snd kv))"
| "json_has_edit_kind (JArr items) \<longleftrightarrow> (\<exists>v \<in> set items. json_has_edit_kind v)"
| "json_has_edit_kind _ \<longleftrightarrow> False"

record traffic =
  t_initialize_request :: bool
  t_initialize_result :: bool
  t_session_new :: bool
  t_session_prompt :: bool
  t_session_update :: bool
  t_edit_kind :: bool
  t_fs_write :: bool
  t_load_invoked :: bool
  t_agent_version :: string
  t_stop_reason :: string
  t_init_ids :: "json list"
  t_prompt_ids :: "json list"
  t_load_from_init :: "bool option"

definition no_traffic :: traffic where
  "no_traffic =
     \<lparr>t_initialize_request = False, t_initialize_result = False, t_session_new = False, t_session_prompt = False,
      t_session_update = False, t_edit_kind = False, t_fs_write = False, t_load_invoked = False,
      t_agent_version = [], t_stop_reason = [], t_init_ids = [], t_prompt_ids = [], t_load_from_init = None\<rparr>"

definition CLIENT :: string where "CLIENT = ''client->agent''"
definition AGENT :: string where "AGENT = ''agent->client''"

definition push_id :: "json option \<Rightarrow> json list \<Rightarrow> json list" where
  "push_id i ids = (case i of None \<Rightarrow> ids | Some v \<Rightarrow> ids @ [v])"

definition note_method :: "string \<Rightarrow> string option \<Rightarrow> json option \<Rightarrow> traffic \<Rightarrow> traffic" where
  "note_method direction method i t =
     (if direction = CLIENT \<and> method = Some ''initialize''
      then t\<lparr>t_initialize_request := True, t_init_ids := push_id i (t_init_ids t)\<rparr>
      else if direction = CLIENT \<and> method = Some ''session/new'' then t\<lparr>t_session_new := True\<rparr>
      else if direction = CLIENT \<and> method = Some ''session/prompt''
      then t\<lparr>t_session_prompt := True, t_prompt_ids := push_id i (t_prompt_ids t)\<rparr>
      else if method = Some ''session/load'' then t\<lparr>t_load_invoked := True\<rparr>
      else if direction = AGENT \<and> method = Some ''session/update'' then t\<lparr>t_session_update := True\<rparr>
      else if direction = AGENT \<and> method = Some ''fs/write_text_file'' then t\<lparr>t_fs_write := True\<rparr>
      else t)"

definition known_id :: "json \<Rightarrow> json list \<Rightarrow> bool" where
  "known_id message ids \<longleftrightarrow> list_ex (\<lambda>want. json_get message ''id'' = Some want) ids"

definition note_result :: "json \<Rightarrow> json \<Rightarrow> traffic \<Rightarrow> traffic" where
  "note_result message result t =
     (let t1 =
        (if known_id message (t_init_ids t) then
           t\<lparr>t_initialize_result := True,
             t_agent_version := (case Option.bind (json_get result ''_meta'') (\<lambda>m. get_str m ''agentVersion'') of
                                   Some v \<Rightarrow> v | None \<Rightarrow> t_agent_version t),
             t_load_from_init := (case Option.bind (Option.bind (json_get result ''agentCapabilities'') (\<lambda>m. json_get m ''loadSession'')) as_bool of
                                    Some b \<Rightarrow> Some b | None \<Rightarrow> t_load_from_init t)\<rparr>
         else t) in
      if known_id message (t_prompt_ids t1) then
        t1\<lparr>t_stop_reason := (case get_str result ''stopReason'' of Some v \<Rightarrow> v | None \<Rightarrow> t_stop_reason t1)\<rparr>
      else t1)"

definition note_message :: "string \<Rightarrow> json \<Rightarrow> traffic \<Rightarrow> traffic" where
  "note_message direction message t =
     (let method = get_str message ''method'';
          t1 = note_method direction method (json_get message ''id'') t;
          t2 = (if direction = AGENT \<and> method = None then
                  (case json_get message ''result'' of Some result \<Rightarrow> note_result message result t1 | None \<Rightarrow> t1)
                else t1) in
      if json_has_edit_kind message then t2\<lparr>t_edit_kind := True\<rparr> else t2)"

definition traffic_error :: "nat \<Rightarrow> string \<Rightarrow> string" where
  "traffic_error i what = ''traffic.ndjson line '' @ to_dec (i + 1) @ '': '' @ what"

text \<open>The direction and the message of a line.\<close>

definition read_envelope :: "json_reader \<Rightarrow> nat \<Rightarrow> string \<Rightarrow> string + string \<times> json" where
  "read_envelope parse i line =
     (case parse line of
        Inl e \<Rightarrow> Inl (traffic_error i e)
      | Inr env \<Rightarrow>
          (case get_str env ''direction'' of
             None \<Rightarrow> Inl (traffic_error i ''missing direction'')
           | Some direction \<Rightarrow>
               (case json_get env ''message'' of
                  None \<Rightarrow> Inl (traffic_error i ''missing message'')
                | Some message \<Rightarrow> Inr (direction, message))))"

fun read_traffic :: "json_reader \<Rightarrow> nat \<Rightarrow> string list \<Rightarrow> traffic \<Rightarrow> string + traffic" where
  "read_traffic parse i [] t = Inr t"
| "read_traffic parse i (line # rest) t =
     (if trim line = [] then read_traffic parse (Suc i) rest t
      else case read_envelope parse i line of
        Inl e \<Rightarrow> Inl e
      | Inr (direction, message) \<Rightarrow> read_traffic parse (Suc i) rest (note_message direction message t))"

section \<open>The recording as a whole\<close>

definition contains_stub :: "string \<Rightarrow> bool" where
  "contains_stub blob \<longleftrightarrow> str_contains blob STUB_SESSION_ID \<or> str_contains blob STUB_REPLY \<or> str_contains blob STUB_TOOL_CALL_ID"

definition display_bool :: "bool \<Rightarrow> string" where
  "display_bool b = (if b then ''true'' else ''false'')"

fun advertised :: "bool option \<Rightarrow> bool option \<Rightarrow> string + bool" where
  "advertised (Some from_init) (Some from_meta) =
     (if from_init \<noteq> from_meta
      then Inl (''loadSession '' @ display_bool from_init @ '' != metadata load_session_advertised '' @ display_bool from_meta)
      else Inr from_init)"
| "advertised (Some from_init) None = Inr from_init"
| "advertised None (Some from_meta) = Inr from_meta"
| "advertised None None = Inr False"

text \<open>What the traffic does not say is taken from the metadata; what both say has to agree.\<close>

definition agreed :: "(string \<Rightarrow> string) \<Rightarrow> string \<Rightarrow> string \<Rightarrow> string \<Rightarrow> string + string" where
  "agreed debug what found meta =
     (let v = (if found = [] then meta else found) in
      if v \<noteq> meta then Inl (what @ '' '' @ debug v @ '' != metadata '' @ debug meta) else Inr v)"

record capture_meta =
  m_cli :: string
  m_argv :: "string list"
  m_owner :: string
  m_agent_version :: string
  m_stop :: string
  m_marker :: string

definition read_metadata :: "json \<Rightarrow> ('s, string, capture_meta) action" where
  "read_metadata meta =
     and_then (of_result (meta_string meta ''grok_version'')) (\<lambda>cli.
     and_then (of_result (meta_string_array meta ''argv'')) (\<lambda>args.
     and_then (of_result (meta_string meta ''owner'')) (\<lambda>own.
     and_then (of_result (meta_string meta ''agent_version'')) (\<lambda>version.
     and_then (of_result (meta_string meta ''stop_reason'')) (\<lambda>stop.
     and_then (of_result (meta_string meta ''written_marker'')) (\<lambda>marker.
     ok \<lparr>m_cli = cli, m_argv = args, m_owner = own, m_agent_version = version, m_stop = stop, m_marker = marker\<rparr>))))))"

definition capture_of :: "(string \<Rightarrow> string) \<Rightarrow> json \<Rightarrow> capture_meta \<Rightarrow> string \<Rightarrow> string \<Rightarrow> traffic \<Rightarrow> ('s, string, live_stdio_capture) action" where
  "capture_of debug meta md blob written t =
     and_then (of_result (agreed debug ''agentVersion'' (t_agent_version t) (m_agent_version md))) (\<lambda>version.
     and_then (of_result (agreed debug ''stopReason'' (t_stop_reason t) (m_stop md))) (\<lambda>stop.
     if \<not> str_contains written (m_marker md) then err (''written file does not contain marker '' @ debug (m_marker md))
     else
       and_then (of_result (advertised (t_load_from_init t) (Option.bind (json_get meta ''load_session_advertised'') as_bool))) (\<lambda>load.
       ok \<lparr>grok_cli_version = m_cli md, grok_agent_version = version, argv = m_argv md, owner = m_owner md,
           initialize_request = t_initialize_request t, initialize_result = t_initialize_result t,
           session_new_sent = t_session_new t, session_prompt_sent = t_session_prompt t, session_update_seen = t_session_update t,
           edit_kind = t_edit_kind t, fs_write_text_file = t_fs_write t, written_content = written,
           capture_stop_reason = stop, contains_fake_stub_ids = contains_stub blob,
           load_session_advertised = load, session_load_invoked = t_load_invoked t\<rparr>)))"

definition parse_capture_parts :: "json_reader \<Rightarrow> (string \<Rightarrow> string) \<Rightarrow> string \<Rightarrow> string \<Rightarrow> string \<Rightarrow> ('s, string, live_stdio_capture) action" where
  "parse_capture_parts parse debug metadata_json traffic_ndjson written =
     and_then (of_result (map_sum (\<lambda>e. ''metadata.json: '' @ e) id (parse metadata_json))) (\<lambda>meta.
     and_then (read_metadata meta) (\<lambda>md.
     and_then (of_result (read_traffic parse 0 (lines traffic_ndjson) no_traffic)) (\<lambda>t.
     capture_of debug meta md (metadata_json @ [newline] @ traffic_ndjson @ [newline] @ written) written t)))"

text \<open>Files are read by path; an error names the path.\<close>

definition read_to_string :: "(string \<Rightarrow> string + string) \<Rightarrow> string \<Rightarrow> string + string" where
  "read_to_string read_file path = map_sum (\<lambda>e. path @ '': '' @ e) id (read_file path)"

definition capture_dir :: "string \<Rightarrow> string" where
  "capture_dir manifest_dir = path_join manifest_dir CAPTURE_RELDIR"

definition parse_capture_dir ::
  "(string \<Rightarrow> string + string) \<Rightarrow> json_reader \<Rightarrow> (string \<Rightarrow> string) \<Rightarrow> string \<Rightarrow> ('s, string, live_stdio_capture) action" where
  "parse_capture_dir read_file parse debug dir =
     and_then (of_result (read_to_string read_file (path_join dir METADATA_FILENAME))) (\<lambda>meta.
     and_then (of_result (read_to_string read_file (path_join dir TRAFFIC_FILENAME))) (\<lambda>traffic.
     and_then (of_result (read_to_string read_file (path_join dir WRITTEN_FILENAME))) (\<lambda>written.
     parse_capture_parts parse debug meta traffic written)))"

definition read_go_adr :: "(string \<Rightarrow> string + string) \<Rightarrow> string \<Rightarrow> string + string" where
  "read_go_adr read_file root = read_to_string read_file (path_join root GO_ADR_RELPATH)"

definition read_adr_index :: "(string \<Rightarrow> string + string) \<Rightarrow> string \<Rightarrow> string + string" where
  "read_adr_index read_file root = read_to_string read_file (path_join root ADR_INDEX_RELPATH)"

section \<open>The decision record\<close>

definition capture_supports_go :: "live_stdio_capture \<Rightarrow> bool" where
  "capture_supports_go c \<longleftrightarrow>
     initialize_request c \<and> initialize_result c \<and> session_new_sent c \<and> session_prompt_sent c \<and> session_update_seen c \<and>
     edit_kind c \<and> fs_write_text_file c \<and> capture_stop_reason c = ''end_turn'' \<and>
     launched_with_no_leader c \<and> launched_as_stdio_child c \<and> launched_with_always_approve c \<and>
     \<not> contains_fake_stub_ids c \<and> \<not> session_load_invoked c"

definition markdown_section :: "string \<Rightarrow> string \<Rightarrow> string option" where
  "markdown_section body heading =
     (let marker = ''## '' @ heading in
      case str_find body marker of
        None \<Rightarrow> None
      | Some start \<Rightarrow>
          (let after = drop (start + length marker) body in
           Some (trim (case str_find after (newline # ''## '') of None \<Rightarrow> after | Some i \<Rightarrow> take i after))))"

definition section_or_empty :: "string \<Rightarrow> string \<Rightarrow> string" where
  "section_or_empty body heading = (case markdown_section body heading of None \<Rightarrow> [] | Some s \<Rightarrow> s)"

definition complain :: "bool \<Rightarrow> string \<Rightarrow> string list" where
  "complain wrong text = (if wrong then [text] else [])"

definition first_decision :: "string \<Rightarrow> string" where
  "first_decision adr =
     to_ascii_lowercase (trim (case List.find (\<lambda>line. trim line \<noteq> []) (lines (section_or_empty adr ''Decision'')) of
                                 None \<Rightarrow> [] | Some line \<Rightarrow> line))"

definition missing :: "string \<Rightarrow> string \<Rightarrow> string list \<Rightarrow> string list" where
  "missing text prefix needles = map (\<lambda>needle. prefix @ needle) (filter (\<lambda>needle. \<not> str_contains text needle) needles)"

definition check_load_session :: "string \<Rightarrow> live_stdio_capture \<Rightarrow> string list" where
  "check_load_session adr c =
     (let lower = to_ascii_lowercase adr in
      (if load_session_advertised c then
         complain (\<not> str_contains adr ''loadSession'') ''ADR must mention initialize loadSession'' @
         complain (\<not> str_contains adr ''load_session_advertised'') ''ADR must mention capture load_session_advertised'' @
         complain (\<not> str_contains lower ''advertised'') ''ADR must record session/load as advertised''
       else
         complain (str_contains adr ''loadSession'' \<and> str_contains lower ''advertised'' \<and> \<not> str_contains lower ''not advertised'')
           ''ADR claims loadSession advertised but capture does not'') @
      (if \<not> session_load_invoked c then
         complain (\<not> str_contains lower ''not invoked'') ''ADR must record that session/load was not invoked'' @
         complain (str_contains lower ''session/load was invoked'') ''ADR must not treat session/load invocation as proven''
       else []))"

definition check_fork :: "string \<Rightarrow> string list" where
  "check_fork adr =
     (let fork = section_or_empty adr ''thread/fork'' in
      if fork = [] then [''ADR must have a thread/fork section'']
      else complain (\<not> str_contains (to_ascii_lowercase fork) ''not decided'') ''thread/fork section must say this ADR does not decide it'')"

definition check_inscope :: "string \<Rightarrow> live_stdio_capture \<Rightarrow> string list" where
  "check_inscope adr c =
     (let inscope = section_or_empty adr ''EPIC-003 in-scope (observed)'' in
      if inscope = [] then [''ADR must list EPIC-003 in-scope (observed)'']
      else
        missing inscope ''in-scope section missing ''
          [''grok agent stdio'', ''--no-leader'', ''initialize'', ''session/new'', ''session/prompt'', ''session/update'', ''end_turn''] @
        complain (\<not> str_contains inscope ''edit'' \<or> \<not> str_contains inscope ''write'') ''in-scope section must list edit/write file change'' @
        complain (launched_with_always_approve c \<and> \<not> str_contains inscope ''--always-approve'') ''in-scope section must list --always-approve'' @
        complain (\<not> launched_with_always_approve c \<and> str_contains inscope ''--always-approve'')
          ''in-scope lists --always-approve but capture argv does not'' @
        complain (\<not> session_load_invoked c \<and> str_contains inscope ''session/load'') ''in-scope must not list session/load (not invoked)'' @
        complain (str_contains inscope ''thread/fork'') ''in-scope must not list thread/fork'' @
        complain (\<not> launched_with_sandbox c \<and> str_contains inscope ''--sandbox'') ''in-scope must not treat --sandbox as proven'')"

definition check_unproven :: "string \<Rightarrow> string list" where
  "check_unproven adr =
     (let unproven = section_or_empty adr ''Not proven (unobserved)'' in
      if unproven = [] then [''ADR must list Not proven (unobserved)'']
      else missing unproven ''unproven section missing ''
             [''session/load'', ''sandbox'', ''grok agent serve'', ''grok agent leader'', ''thread/fork''])"

definition check_rejected :: "string \<Rightarrow> string list" where
  "check_rejected adr =
     (let rejected = section_or_empty adr ''Rejected alternatives'' in
      complain (\<not> str_contains rejected ''grok -p'') ''Rejected alternatives must include grok -p fallback'' @
      complain (\<not> str_contains (to_ascii_lowercase rejected) ''no-go'') ''Rejected alternatives must include no-go'')"

definition check_go_adr :: "string \<Rightarrow> live_stdio_capture \<Rightarrow> string list" where
  "check_go_adr adr c =
     complain (\<not> capture_supports_go c) ''capture does not support a go decision'' @
     complain (\<not> starts_with (first_decision adr) ''**go'') ''Decision section must open with **go'' @
     complain (starts_with (first_decision adr) ''**no-go'') ''Decision section must not be no-go'' @
     missing adr ''ADR must name '' [''grok agent stdio'', ''grok agent serve'', ''grok agent leader''] @
     complain (launched_with_no_leader c \<and> \<not> str_contains adr ''--no-leader'')
       ''ADR must record --no-leader as the reason v1 uses grok agent stdio'' @
     check_load_session adr c @ check_fork adr @ check_inscope adr c @ check_unproven adr @ check_rejected adr"

definition check_adr_index :: "string \<Rightarrow> string list" where
  "check_adr_index index =
     complain (\<not> str_contains index ''0002-grok-agent-stdio.md'') ''ADR index must list 0002-grok-agent-stdio.md'' @
     complain (\<not> str_contains (to_ascii_lowercase index) ''go'') ''ADR index must record the go''"

section \<open>The flags are the traffic\<close>

text \<open>The envelopes of the lines that are not blank, up to the first that cannot be read.\<close>

fun envelopes :: "json_reader \<Rightarrow> nat \<Rightarrow> string list \<Rightarrow> (string \<times> json) list" where
  "envelopes parse i [] = []"
| "envelopes parse i (line # rest) =
     (if trim line = [] then envelopes parse (Suc i) rest
      else case read_envelope parse i line of Inl _ \<Rightarrow> [] | Inr e \<Rightarrow> e # envelopes parse (Suc i) rest)"

definition note_all :: "(string \<times> json) list \<Rightarrow> traffic" where
  "note_all es = fold (\<lambda>(direction, message). note_message direction message) es no_traffic"

lemma read_traffic_notes:
  "read_traffic parse i ls t = Inr t' \<Longrightarrow> t' = fold (\<lambda>(direction, message). note_message direction message) (envelopes parse i ls) t"
  by (induction parse i ls t rule: read_traffic.induct) (auto split: if_splits sum.splits)

text \<open>A request of the client or a notification of the agent, by method.\<close>

definition sends :: "string \<Rightarrow> string \<Rightarrow> string \<times> json \<Rightarrow> bool" where
  "sends direction method e \<longleftrightarrow> fst e = direction \<and> get_str (snd e) ''method'' = Some method"

definition answers_with :: "string \<times> json \<Rightarrow> json \<Rightarrow> bool" where
  "answers_with e i \<longleftrightarrow>
     fst e = AGENT \<and> get_str (snd e) ''method'' = None \<and> json_get (snd e) ''result'' \<noteq> None \<and> json_get (snd e) ''id'' = Some i"

lemma directions [simp]: "CLIENT \<noteq> AGENT" "AGENT \<noteq> CLIENT"
  by (simp_all add: CLIENT_def AGENT_def)

lemma note_result_frame [simp]:
  "t_initialize_request (note_result m r t) = t_initialize_request t" "t_session_new (note_result m r t) = t_session_new t"
  "t_session_prompt (note_result m r t) = t_session_prompt t" "t_session_update (note_result m r t) = t_session_update t"
  "t_fs_write (note_result m r t) = t_fs_write t" "t_load_invoked (note_result m r t) = t_load_invoked t"
  "t_edit_kind (note_result m r t) = t_edit_kind t" "t_init_ids (note_result m r t) = t_init_ids t"
  "t_initialize_result (note_result m r t) \<longleftrightarrow> t_initialize_result t \<or> known_id m (t_init_ids t)"
  by (simp_all add: note_result_def Let_def)

lemma note_message_flags:
  "t_initialize_request (note_message d m t) \<longleftrightarrow> t_initialize_request t \<or> sends CLIENT ''initialize'' (d, m)"
  "t_session_new (note_message d m t) \<longleftrightarrow> t_session_new t \<or> sends CLIENT ''session/new'' (d, m)"
  "t_session_prompt (note_message d m t) \<longleftrightarrow> t_session_prompt t \<or> sends CLIENT ''session/prompt'' (d, m)"
  "t_session_update (note_message d m t) \<longleftrightarrow> t_session_update t \<or> sends AGENT ''session/update'' (d, m)"
  "t_fs_write (note_message d m t) \<longleftrightarrow> t_fs_write t \<or> sends AGENT ''fs/write_text_file'' (d, m)"
  "t_load_invoked (note_message d m t) \<longleftrightarrow> t_load_invoked t \<or> get_str m ''method'' = Some ''session/load''"
  "t_edit_kind (note_message d m t) \<longleftrightarrow> t_edit_kind t \<or> json_has_edit_kind m"
  by (auto simp: note_message_def note_method_def sends_def Let_def split: option.splits)

lemma note_message_ids:
  "v \<in> set (t_init_ids (note_message d m t)) \<longleftrightarrow>
     v \<in> set (t_init_ids t) \<or> sends CLIENT ''initialize'' (d, m) \<and> json_get m ''id'' = Some v"
  by (auto simp: note_message_def note_method_def sends_def push_id_def Let_def split: option.splits)

lemma note_message_result:
  "t_initialize_result (note_message d m t) \<longleftrightarrow> t_initialize_result t \<or> (\<exists>v \<in> set (t_init_ids t). answers_with (d, m) v)"
  by (auto simp: note_message_def note_method_def answers_with_def known_id_def list_ex_iff Let_def split: option.splits)

lemma note_all_snoc: "note_all (es @ [(d, m)]) = note_message d m (note_all es)"
  by (simp add: note_all_def)

lemma note_all_ids: "v \<in> set (t_init_ids (note_all es)) \<longleftrightarrow> (\<exists>q \<in> set es. sends CLIENT ''initialize'' q \<and> json_get (snd q) ''id'' = Some v)"
proof (induction es rule: rev_induct)
  case Nil
  then show ?case by (simp add: note_all_def no_traffic_def)
next
  case (snoc e es)
  then show ?case by (cases e) (auto simp: note_all_snoc note_message_ids)
qed

lemma note_all_flag:
  assumes "\<not> flag no_traffic" "\<And>d m t. flag (note_message d m t) \<longleftrightarrow> flag t \<or> P (d, m)"
  shows "flag (note_all es) \<longleftrightarrow> list_ex P es"
proof (induction es rule: rev_induct)
  case Nil
  then show ?case using assms(1) by (simp add: note_all_def)
next
  case (snoc e es)
  then show ?case by (cases e) (auto simp: note_all_snoc assms(2))
qed

lemma note_all_flags:
  "t_initialize_request (note_all es) \<longleftrightarrow> list_ex (sends CLIENT ''initialize'') es"
  "t_session_new (note_all es) \<longleftrightarrow> list_ex (sends CLIENT ''session/new'') es"
  "t_session_prompt (note_all es) \<longleftrightarrow> list_ex (sends CLIENT ''session/prompt'') es"
  "t_session_update (note_all es) \<longleftrightarrow> list_ex (sends AGENT ''session/update'') es"
  "t_fs_write (note_all es) \<longleftrightarrow> list_ex (sends AGENT ''fs/write_text_file'') es"
  "t_load_invoked (note_all es) \<longleftrightarrow> list_ex (\<lambda>e. get_str (snd e) ''method'' = Some ''session/load'') es"
  "t_edit_kind (note_all es) \<longleftrightarrow> list_ex (\<lambda>e. json_has_edit_kind (snd e)) es"
  by (rule note_all_flag, simp add: no_traffic_def, simp add: note_message_flags)+

text \<open>A result that answers an initialize request: the request comes first and both have the same identifier.\<close>

definition initialized :: "(string \<times> json) list \<Rightarrow> bool" where
  "initialized es \<longleftrightarrow>
     (\<exists>before e after q v. es = before @ e # after \<and> answers_with e v \<and>
        q \<in> set before \<and> sends CLIENT ''initialize'' q \<and> json_get (snd q) ''id'' = Some v)"

lemma initialized_snoc:
  "initialized (es @ [e]) \<longleftrightarrow> initialized es \<or>
     (\<exists>q v. answers_with e v \<and> q \<in> set es \<and> sends CLIENT ''initialize'' q \<and> json_get (snd q) ''id'' = Some v)"
proof
  assume "initialized (es @ [e])"
  then obtain before e' after q v where split: "es @ [e] = before @ e' # after" "answers_with e' v" "q \<in> set before"
      "sends CLIENT ''initialize'' q" "json_get (snd q) ''id'' = Some v"
    unfolding initialized_def by blast
  then show "initialized es \<or> (\<exists>q v. answers_with e v \<and> q \<in> set es \<and> sends CLIENT ''initialize'' q \<and> json_get (snd q) ''id'' = Some v)"
  proof (cases after rule: rev_cases)
    case Nil
    then have "e = e'" "es = before" using split(1) by simp_all
    then show ?thesis using split by blast
  next
    case (snoc ys y)
    then have "es = before @ e' # ys" using split(1) by simp
    then show ?thesis using split unfolding initialized_def by blast
  qed
next
  have old: "initialized (es @ [e])" if init: "initialized es"
  proof -
    from init obtain before e' after q v where split: "es = before @ e' # after" "answers_with e' v" "q \<in> set before"
        "sends CLIENT ''initialize'' q" "json_get (snd q) ''id'' = Some v"
      unfolding initialized_def by blast
    then have "es @ [e] = before @ e' # (after @ [e])" by simp
    then show ?thesis using split unfolding initialized_def by blast
  qed
  assume "initialized es \<or> (\<exists>q v. answers_with e v \<and> q \<in> set es \<and> sends CLIENT ''initialize'' q \<and> json_get (snd q) ''id'' = Some v)"
  then show "initialized (es @ [e])"
  proof
    assume "\<exists>q v. answers_with e v \<and> q \<in> set es \<and> sends CLIENT ''initialize'' q \<and> json_get (snd q) ''id'' = Some v"
    then show ?thesis unfolding initialized_def by blast
  qed (rule old)
qed

lemma note_all_initialized: "t_initialize_result (note_all es) \<longleftrightarrow> initialized es"
proof (induction es rule: rev_induct)
  case Nil
  then show ?case by (simp add: note_all_def no_traffic_def initialized_def)
next
  case (snoc e es)
  then show ?case
    by (cases e) (simp only: note_all_snoc note_message_result initialized_snoc Bex_def note_all_ids, blast)
qed


text \<open>A recording of three lines: a request, its result, an edit.\<close>

definition sample_line :: "string \<Rightarrow> (string \<times> json) list \<Rightarrow> json" where
  "sample_line direction message = JObj [(''direction'', JStr direction), (''message'', JObj message)]"

definition sample_reader :: json_reader where
  "sample_reader line =
     (if line = ''meta'' then
        Inr (JObj [(''grok_version'', JStr ''1''), (''argv'', JArr [JStr ''stdio'']), (''owner'', JStr ''o''),
                   (''agent_version'', JStr ''1''), (''stop_reason'', JStr ''end_turn''), (''written_marker'', JStr ''m'')])
      else if line = ''a'' then Inr (sample_line CLIENT [(''id'', JNum (PosInt 1)), (''method'', JStr ''initialize'')])
      else if line = ''b'' then Inr (sample_line AGENT [(''id'', JNum (PosInt 1)), (''result'', JObj [])])
      else Inr (sample_line AGENT [(''method'', JStr ''session/update''), (''params'', JArr [JObj [(''kind'', JStr ''edit'')]])]))"

definition sample_traffic :: string where
  "sample_traffic = ''a'' @ [newline] @ ''b'' @ [newline, newline] @ ''c''"

lemma sample_parsed:
  "case parse_capture_parts sample_reader (\<lambda>t. t) ''meta'' sample_traffic ''m'' () of (r, _) \<Rightarrow> (case r of Inl _ \<Rightarrow> False | Inr c \<Rightarrow> edit_kind c)"
  by code_simp

lemma sample_envelopes:
  "map fst (envelopes sample_reader 0 (lines sample_traffic)) = [CLIENT, AGENT, AGENT]"
  "list_ex (sends CLIENT ''initialize'') (envelopes sample_reader 0 (lines sample_traffic))"
  "\<not> list_ex (\<lambda>e. get_str (snd e) ''method'' = Some ''session/load'') (envelopes sample_reader 0 (lines sample_traffic))"
  by code_simp+


end
