(* ===== verification/WebSocket.thy ===== *)
theory WebSocket
  imports SourceWire
begin

text \<open>
  \<^verbatim>\<open>crates/gamchi/src/app_server.rs\<close>, the WebSocket frames: reading masked client frames with
  their bounds, answering pings, and writing server frames. The stream is the list of bytes that
  will still arrive; reading past its end is the end of file. What is written is appended to a
  list of bytes.
\<close>

unbundle bit_operations_syntax

datatype ws_error = UnexpectedEof | IoError | ReservedBits | Unmasked | InvalidLength | FrameTooLarge

text \<open>
  \<open>ending\<close> is what a read past the last byte reports (the end of file or another error of the
  socket), \<open>writable\<close> whether the peer still takes bytes.
\<close>

record ws_stream =
  incoming :: "u8 list"
  ending :: ws_error
  outgoing :: "u8 list"
  writable :: bool

type_synonym 'a ws_action = "(ws_stream, ws_error, 'a) action"

definition read_exact :: "nat \<Rightarrow> u8 list ws_action" where
  "read_exact n s =
     (if n \<le> length (incoming s)
      then (Inr (take n (incoming s)), s\<lparr>incoming := drop n (incoming s)\<rparr>)
      else (Inl (ending s), s\<lparr>incoming := []\<rparr>))"

definition write_all :: "u8 list \<Rightarrow> unit ws_action" where
  "write_all bs s =
     (if writable s then (Inr (), s\<lparr>outgoing := outgoing s @ bs\<rparr>) else (Inl IoError, s))"

text \<open>\<open>from_be_bytes\<close> and \<open>to_be_bytes\<close>.\<close>

definition from_be_bytes :: "u8 list \<Rightarrow> u64" where
  "from_be_bytes bs = foldl (\<lambda>n b. n * 256 + ucast b) 0 bs"

fun to_be_bytes :: "nat \<Rightarrow> nat \<Rightarrow> u8 list" where
  "to_be_bytes 0 n = []"
| "to_be_bytes (Suc w) n = to_be_bytes w (n div 256) @ [of_nat (n mod 256)]"

definition read_length :: "u8 \<Rightarrow> u64 ws_action" where
  "read_length marker =
     (if marker \<le> 125 then ok (ucast marker)
      else if marker = 126 then and_then (read_exact 2) (\<lambda>bytes. ok (from_be_bytes bytes))
      else if marker = 127 then and_then (read_exact 8) (\<lambda>bytes. ok (from_be_bytes bytes))
      else err InvalidLength)"

definition unmask :: "u8 list \<Rightarrow> u8 list \<Rightarrow> u8 list" where
  "unmask key payload = map (\<lambda>(i, b). b XOR key ! (i mod 4)) (enumerate 0 payload)"

text \<open>What follows the two prefix bytes.\<close>

definition read_frame_body :: "u8 list \<Rightarrow> (bool \<times> u8 \<times> u8 list) option ws_action" where
  "read_frame_body prefix =
     (if (prefix ! 0) AND 0x70 \<noteq> 0 then err ReservedBits
      else if (prefix ! 1) AND 0x80 = 0 then err Unmasked
      else
        let fin = (prefix ! 0) AND 0x80 \<noteq> 0; opcode = (prefix ! 0) AND 0x0f; marker = (prefix ! 1) AND 0x7f in
        and_then (read_length marker) (\<lambda>len.
          if len > of_nat MAX_WEBSOCKET_FRAME_BYTES then err FrameTooLarge
          else
            and_then (read_exact 4) (\<lambda>key.
            and_then (read_exact (unat len)) (\<lambda>payload.
            ok (Some (fin, opcode, unmask key payload))))))"

definition read_ws_frame :: "(bool \<times> u8 \<times> u8 list) option ws_action" where
  "read_ws_frame =
     match_result (read_exact 2)
       (\<lambda>e. if e = UnexpectedEof then ok None else err e)
       read_frame_body"

definition frame_header :: "u8 \<Rightarrow> nat \<Rightarrow> u8 list" where
  "frame_header opcode len =
     (0x80 OR opcode) #
     (if len \<le> 125 then [of_nat len]
      else if len \<le> 65535 then 126 # to_be_bytes 2 len
      else 127 # to_be_bytes 8 len)"

definition write_ws_frame :: "u8 \<Rightarrow> u8 list \<Rightarrow> unit ws_action" where
  "write_ws_frame opcode payload =
     and_then (write_all (frame_header opcode (length payload))) (\<lambda>_. write_all payload)"

definition write_ws_text :: "u8 list \<Rightarrow> unit ws_action" where
  "write_ws_text payload = write_ws_frame 0x1 payload"

section \<open>Bytes\<close>

lemma to_be_bytes_length [simp]: "length (to_be_bytes w n) = w"
  by (induction w arbitrary: n) auto

lemma from_be_snoc: "from_be_bytes (bs @ [b]) = from_be_bytes bs * 256 + ucast b"
  by (simp add: from_be_bytes_def)

lemma ucast_of_nat_byte: "n < 256 \<Longrightarrow> (ucast (of_nat n :: u8) :: u64) = of_nat n"
  by (simp add: unsigned_of_nat take_bit_nat_eq_self)

lemma from_to_be_bytes: "n < 256 ^ w \<Longrightarrow> from_be_bytes (to_be_bytes w n) = of_nat n"
proof (induction w arbitrary: n)
  case 0
  then show ?case by (simp add: from_be_bytes_def)
next
  case (Suc w)
  have "n div 256 < 256 ^ w" using Suc.prems by (simp add: div_less_iff_less_mult mult.commute)
  then have "from_be_bytes (to_be_bytes (Suc w) n) = of_nat (n div 256) * 256 + of_nat (n mod 256)"
    using Suc.IH by (simp add: from_be_snoc ucast_of_nat_byte)
  also have "\<dots> = of_nat (n div 256 * 256 + n mod 256)"
    by (simp only: of_nat_add of_nat_mult) simp
  finally show ?case by simp
qed

lemma unmask_length [simp]: "length (unmask key payload) = length payload"
  by (simp add: unmask_def)

lemma xor_twice: "(a XOR k) XOR k = (a :: 'a :: len word)"
  by (simp add: xor.assoc)

lemma unmask_unmask: "unmask key (unmask key payload) = payload"
  unfolding unmask_def
  by (rule nth_equalityI) (simp_all add: nth_enumerate_eq xor_twice)

text \<open>The two prefix bytes: the top bit and the bits below it can be read back.\<close>

lemma top_bit_set: "((0x80 :: u8) OR b) AND 0x80 \<noteq> 0"
proof -
  have "(0x80 OR b) AND 0x80 = (0x80 :: u8)"
    by (rule bit_word_eqI) (auto simp: bit_simps)
  then show ?thesis by simp
qed

lemma low_bits_kept: "n < 128 \<Longrightarrow> ((0x80 :: u8) OR of_nat n) AND 0x7f = of_nat n"
proof -
  assume "n < 128"
  have m: "(0x7f :: u8) = mask 7" by (simp add: mask_eq_exp_minus_1)
  have "take_bit 7 (of_nat n :: u8) = of_nat n"
    using \<open>n < 128\<close> by (simp add: unsigned_of_nat take_bit_nat_eq_self flip: of_nat_take_bit)
  moreover have "take_bit 7 (0x80 :: u8) = 0" by simp
  ultimately show ?thesis by (simp only: m flip: take_bit_eq_mask) (simp add: take_bit_or)
qed

lemma first_byte:
  assumes "opcode < 16"
  shows "((if fin then 0x80 else 0) OR opcode) AND 0x70 = (0 :: u8)"
    and "((if fin then 0x80 else 0) OR opcode) AND 0x80 \<noteq> (0 :: u8) \<longleftrightarrow> fin"
    and "((if fin then 0x80 else 0) OR opcode) AND 0x0f = (opcode :: u8)"
proof -
  have "unat opcode < 16" using assms by (simp add: word_less_nat_alt)
  moreover define n where "n = unat opcode"
  ultimately have o: "opcode = of_nat n" and "n < 16" by simp_all
  then have "n \<in> {0, 1, 2, 3, 4, 5, 6, 7, 8, 9, 10, 11, 12, 13, 14, 15}" by (simp, presburger)
  then show "((if fin then 0x80 else 0) OR opcode) AND 0x70 = (0 :: u8)"
    and "((if fin then 0x80 else 0) OR opcode) AND 0x80 \<noteq> (0 :: u8) \<longleftrightarrow> fin"
    and "((if fin then 0x80 else 0) OR opcode) AND 0x0f = (opcode :: u8)"
    unfolding o by (elim insertE emptyE; cases fin; simp)+
qed

section \<open>One frame\<close>

lemma read_exact_enough [wp]:
  "read_exact n (s\<lparr>incoming := bs @ rest\<rparr>) = (Inr bs, s\<lparr>incoming := rest\<rparr>)" if "length bs = n"
  using that by (simp add: read_exact_def)

text \<open>
  The reference a peer follows (RFC 6455, section 5.2): the seven-bit length or one of the two
  markers, the extended length, the key and the masked payload.
\<close>

definition length_marker :: "nat \<Rightarrow> nat" where
  "length_marker n = (if n \<le> 125 then n else if n \<le> 65535 then 126 else 127)"

definition extended_length :: "nat \<Rightarrow> u8 list" where
  "extended_length n = (if n \<le> 125 then [] else if n \<le> 65535 then to_be_bytes 2 n else to_be_bytes 8 n)"

definition client_frame :: "bool \<Rightarrow> u8 \<Rightarrow> u8 list \<Rightarrow> u8 list \<Rightarrow> u8 list" where
  "client_frame fin opcode key payload =
     ((if fin then 0x80 else 0) OR opcode) # (0x80 OR of_nat (length_marker (length payload)))
       # extended_length (length payload) @ key @ unmask key payload"

lemma length_marker_less: "length_marker n < 128"
  by (simp add: length_marker_def)

lemma read_length_reads:
  assumes "n < 2 ^ 64"
  shows "read_length (of_nat (length_marker n)) (s\<lparr>incoming := extended_length n @ rest\<rparr>)
           = (Inr (of_nat n), s\<lparr>incoming := rest\<rparr>)"
proof -
  consider "n \<le> 125" | "125 < n" "n \<le> 65535" | "65535 < n" by linarith
  then show ?thesis
  proof cases
    case 1
    then have "(of_nat n :: u8) \<le> 125" by (simp add: word_le_nat_alt unsigned_of_nat take_bit_nat_eq_self)
    with 1 show ?thesis
      by (simp add: read_length_def length_marker_def extended_length_def wp ucast_of_nat_byte)
  next
    case 2
    then have "from_be_bytes (to_be_bytes 2 n) = of_nat n" by (intro from_to_be_bytes) simp
    with 2 show ?thesis by (simp add: read_length_def length_marker_def extended_length_def wp)
  next
    case 3
    have "n < 256 ^ 8" using assms by simp
    then have "from_be_bytes (to_be_bytes 8 n) = of_nat n" by (rule from_to_be_bytes)
    with 3 show ?thesis by (simp add: read_length_def length_marker_def extended_length_def wp)
  qed
qed

lemma MAX_frame_word: "n \<le> MAX_WEBSOCKET_FRAME_BYTES \<Longrightarrow>
    n < 2 ^ 64 \<and> (of_nat n :: u64) \<le> of_nat MAX_WEBSOCKET_FRAME_BYTES \<and> unat (of_nat n :: u64) = n"
  by (simp add: MAX_WEBSOCKET_FRAME_BYTES_def word_le_nat_alt unsigned_of_nat take_bit_nat_eq_self)

lemma read_client_frame:
  assumes "opcode < 16" and "length key = 4" and "length payload \<le> MAX_WEBSOCKET_FRAME_BYTES"
  shows "read_ws_frame (s\<lparr>incoming := client_frame fin opcode key payload @ rest\<rparr>)
           = (Inr (Some (fin, opcode, payload)), s\<lparr>incoming := rest\<rparr>)"
proof -
  let ?n = "length payload"
  let ?a = "((if fin then 0x80 else 0) OR opcode) :: u8"
  let ?b = "(0x80 OR of_nat (length_marker ?n)) :: u8"
  note n = MAX_frame_word [OF assms(3)]
  have "read_exact 2 (s\<lparr>incoming := client_frame fin opcode key payload @ rest\<rparr>)
      = (Inr [?a, ?b], s\<lparr>incoming := extended_length ?n @ key @ unmask key payload @ rest\<rparr>)"
    using read_exact_enough [where bs = "[?a, ?b]" and n = 2 and s = s] by (simp add: client_frame_def)
  moreover have "read_frame_body [?a, ?b] (s\<lparr>incoming := extended_length ?n @ key @ unmask key payload @ rest\<rparr>)
      = (Inr (Some (fin, opcode, payload)), s\<lparr>incoming := rest\<rparr>)"
    using n assms(2) first_byte [OF assms(1), of fin] top_bit_set [of "of_nat (length_marker ?n)"]
      low_bits_kept [OF length_marker_less, of ?n]
    by (simp only: read_frame_body_def nth_Cons_0 One_nat_def nth_Cons_Suc Let_def)
      (simp add: wp read_length_reads not_less unmask_unmask)
  ultimately show ?thesis by (simp add: read_ws_frame_def wp)
qed

section \<open>The loop over pings and pongs\<close>

text \<open>Reading never writes, and a frame that was read is at least six bytes shorter to come.\<close>

definition only_reads :: "ws_stream \<Rightarrow> ws_stream \<Rightarrow> bool" where
  "only_reads s t \<longleftrightarrow> (\<exists>bs. incoming s = bs @ incoming t) \<and> t = s\<lparr>incoming := incoming t\<rparr>"

interpretation only_reads: frame_relation only_reads
proof
  fix s t u
  show "only_reads s s" by (simp add: only_reads_def)
  assume "only_reads s t" and "only_reads t u"
  then show "only_reads s u" unfolding only_reads_def
    by (metis append_assoc ws_stream.surjective ws_stream.update_convs(1))
qed

lemma read_exact_only_reads: "keeps only_reads (read_exact n)"
proof (rule keepsI)
  fix s :: ws_stream
  have "incoming s = take n (incoming s) @ drop n (incoming s)" by simp
  then show "only_reads s (snd (read_exact n s))"
    unfolding only_reads_def read_exact_def by (auto simp del: append_take_drop_id)
qed

lemma read_exact_Inr:
  "read_exact n s = (Inr bs, s') \<longleftrightarrow> incoming s = bs @ incoming s' \<and> length bs = n \<and> s' = s\<lparr>incoming := incoming s'\<rparr>"
  by (cases s; cases s') (auto simp: read_exact_def min_def split: if_splits)

lemma read_length_only_reads: "keeps only_reads (read_length marker)"
  unfolding read_length_def by (intro only_reads.frame_rules read_exact_only_reads)

lemma read_frame_body_only_reads: "keeps only_reads (read_frame_body prefix)"
  unfolding read_frame_body_def Let_def
  by (intro only_reads.frame_rules read_exact_only_reads read_length_only_reads)

lemma read_ws_frame_only_reads: "keeps only_reads read_ws_frame"
  unfolding read_ws_frame_def
  by (intro only_reads.frame_rules read_exact_only_reads read_frame_body_only_reads)

lemma read_frame_body_bound:
  assumes "read_frame_body prefix s = (Inr (Some (fin, opcode, payload)), s')"
  shows "length payload \<le> MAX_WEBSOCKET_FRAME_BYTES"
proof -
  have "unat len \<le> MAX_WEBSOCKET_FRAME_BYTES" if "\<not> len > of_nat MAX_WEBSOCKET_FRAME_BYTES" for len :: u64
  proof -
    have "unat len \<le> unat (of_nat MAX_WEBSOCKET_FRAME_BYTES :: u64)"
      using that by (simp add: word_le_nat_alt not_less)
    then show ?thesis using MAX_frame_word [of MAX_WEBSOCKET_FRAME_BYTES] by simp
  qed
  then show ?thesis using assms
    by (auto simp: read_frame_body_def wp Let_def read_exact_def split: if_splits sum.splits)
qed

lemma read_ws_frame_Some:
  assumes "read_ws_frame s = (Inr (Some (fin, opcode, payload)), s')"
  shows "length (incoming s') < length (incoming s)" and "length payload \<le> MAX_WEBSOCKET_FRAME_BYTES"
    and "outgoing s' = outgoing s" and "writable s' = writable s"
proof -
  obtain prefix t where t: "read_exact 2 s = (Inr prefix, t)"
      and body: "read_frame_body prefix t = (Inr (Some (fin, opcode, payload)), s')"
    using assms by (cases "read_exact 2 s") (auto simp: read_ws_frame_def wp split: sum.splits if_splits)
  from body show "length payload \<le> MAX_WEBSOCKET_FRAME_BYTES" by (rule read_frame_body_bound)
  have "only_reads t s'" using keepsD [OF read_frame_body_only_reads, of t prefix] body by simp
  then have "length (incoming s') \<le> length (incoming t)" by (auto simp: only_reads_def)
  moreover have "length (incoming s) = 2 + length (incoming t)" using t by (auto simp: read_exact_Inr)
  ultimately show "length (incoming s') < length (incoming s)" by simp
  have "only_reads s s'" using keepsD [OF read_ws_frame_only_reads, of s] assms by simp
  then have "s' = s\<lparr>incoming := incoming s'\<rparr>" by (simp add: only_reads_def)
  then show "outgoing s' = outgoing s" and "writable s' = writable s"
    by (metis ws_stream.select_convs(3) ws_stream.surjective ws_stream.update_convs(1),
        metis ws_stream.select_convs(4) ws_stream.surjective ws_stream.update_convs(1))
qed

lemma write_ws_frame_incoming [simp]: "incoming (snd (write_ws_frame opcode payload s)) = incoming s"
  by (simp add: write_ws_frame_def wp write_all_def split: sum.split)

lemma write_ws_frame_keeps_incoming:
  "(r, s') = write_ws_frame opcode payload s \<Longrightarrow> incoming s' = incoming s"
  by (metis snd_conv write_ws_frame_incoming)

text \<open>
  Every round reads a frame, so the bytes still to come get fewer: the loop ends. Its state is
  the stream, threaded explicitly.
\<close>

function read_ws_text :: "u8 list option ws_action" where
  "read_ws_text s =
     (case read_ws_frame s of
        (Inl e, s') \<Rightarrow> (Inl e, s')
      | (Inr None, s') \<Rightarrow> (Inr None, s')
      | (Inr (Some (fin, opcode, payload)), s') \<Rightarrow>
          if opcode = 0x1 \<and> fin then (Inr (Some payload), s')
          else if opcode = 0x8 then (Inr None, s')
          else if opcode = 0x9 then
            (case write_ws_frame 0xA payload s' of
               (Inl e, s'') \<Rightarrow> (Inl e, s'')
             | (Inr u, s'') \<Rightarrow> read_ws_text s'')
          else if opcode = 0xA then read_ws_text s'
          else (Inr None, s'))"
  by pat_completeness auto
termination
  by (relation "measure (length \<circ> incoming)")
    (auto dest!: read_ws_frame_Some(1) [OF sym] write_ws_frame_keeps_incoming)

declare read_ws_text.simps [simp del]

section \<open>What a peer observes\<close>

lemma read_oversized_frame:
  assumes "opcode < 16" and "MAX_WEBSOCKET_FRAME_BYTES < length payload" and "length payload < 2 ^ 64"
  shows "read_ws_frame (s\<lparr>incoming := client_frame fin opcode key payload @ rest\<rparr>)
           = (Inl FrameTooLarge, s\<lparr>incoming := key @ unmask key payload @ rest\<rparr>)"
proof -
  let ?n = "length payload"
  let ?a = "((if fin then 0x80 else 0) OR opcode) :: u8"
  let ?b = "(0x80 OR of_nat (length_marker ?n)) :: u8"
  have big: "of_nat MAX_WEBSOCKET_FRAME_BYTES < (of_nat ?n :: u64)"
    using assms(2,3) by (simp add: word_less_nat_alt unsigned_of_nat take_bit_nat_eq_self MAX_WEBSOCKET_FRAME_BYTES_def)
  have "read_exact 2 (s\<lparr>incoming := client_frame fin opcode key payload @ rest\<rparr>)
      = (Inr [?a, ?b], s\<lparr>incoming := extended_length ?n @ key @ unmask key payload @ rest\<rparr>)"
    using read_exact_enough [where bs = "[?a, ?b]" and n = 2 and s = s] by (simp add: client_frame_def)
  moreover have "read_frame_body [?a, ?b] (s\<lparr>incoming := extended_length ?n @ key @ unmask key payload @ rest\<rparr>)
      = (Inl FrameTooLarge, s\<lparr>incoming := key @ unmask key payload @ rest\<rparr>)"
    using big assms(3) first_byte [OF assms(1), of fin] top_bit_set [of "of_nat (length_marker ?n)"]
      low_bits_kept [OF length_marker_less, of ?n]
    by (simp only: read_frame_body_def nth_Cons_0 One_nat_def nth_Cons_Suc Let_def)
      (simp add: wp read_length_reads)
  ultimately show ?thesis by (simp add: read_ws_frame_def wp)
qed

text \<open>C30: Every frame a client may send, of any opcode, final or not, and of any length, whose payload is within
  the limit of 16 MiB is read back as it was sent, and the bytes after it are left on the stream;
  a frame that announces more is refused before its key and payload are read.\<close>

theorem client_frame_read_back:
  assumes "opcode < 16" and "length key = 4" and "length payload < 2 ^ 64"
  shows "read_ws_frame (s\<lparr>incoming := client_frame fin opcode key payload @ rest\<rparr>)
    = (if length payload \<le> MAX_WEBSOCKET_FRAME_BYTES
       then (Inr (Some (fin, opcode, payload)), s\<lparr>incoming := rest\<rparr>)
       else (Inl FrameTooLarge, s\<lparr>incoming := key @ unmask key payload @ rest\<rparr>))"
  using assms by (simp add: read_client_frame read_oversized_frame not_le)

definition sample_stream :: ws_stream where
  "sample_stream = \<lparr>incoming = [], ending = UnexpectedEof, outgoing = [], writable = True\<rparr>"

theorem client_frame_read_back_witness:
  "read_ws_frame (sample_stream\<lparr>incoming := client_frame True 0x1 [1, 2, 3, 4] [72, 105] @ [0x81]\<rparr>)
     = (Inr (Some (True, 0x1, [72, 105])), sample_stream\<lparr>incoming := [0x81]\<rparr>)
   \<and> fst (read_ws_frame (sample_stream\<lparr>incoming := client_frame True 0x2 [1, 2, 3, 4] (replicate 16777217 0)\<rparr>))
     = Inl FrameTooLarge"
  using client_frame_read_back [where opcode = "0x1" and key = "[1, 2, 3, 4]" and payload = "[72, 105]"
      and s = sample_stream and fin = True and rest = "[0x81]"]
    client_frame_read_back [where opcode = "0x2" and key = "[1, 2, 3, 4]" and payload = "replicate 16777217 0"
      and s = sample_stream and fin = True and rest = "[]"]
  by (simp add: MAX_WEBSOCKET_FRAME_BYTES_def)

text \<open>Server frames are not masked; the reference decoder of a client reads them.\<close>

definition decode_server_frame :: "u8 list \<Rightarrow> (bool \<times> u8 \<times> u8 list \<times> u8 list) option" where
  "decode_server_frame bs =
     (case bs of
        a # b # r \<Rightarrow>
          (let w = (if b = 126 then 2 else if b = 127 then 8 else 0);
               n = (if w = 0 then unat b else unat (from_be_bytes (take w r)));
               body = drop w r in
           if length r < w \<or> length body < n then None
           else Some (a AND 0x80 \<noteq> 0, a AND 0x0f, take n body, drop n body))
      | _ \<Rightarrow> None)"

lemma frame_header_alt:
  "frame_header opcode n = (0x80 OR opcode) # of_nat (length_marker n) # extended_length n"
  by (simp add: frame_header_def length_marker_def extended_length_def)

lemma write_ws_frame_run:
  "writable s \<Longrightarrow> write_ws_frame opcode payload s
     = (Inr (), s\<lparr>outgoing := outgoing s @ frame_header opcode (length payload) @ payload\<rparr>)"
  by (simp add: write_ws_frame_def wp write_all_def)

lemma decode_frame_header:
  assumes "opcode < 16" and "length payload < 2 ^ 64"
  shows "decode_server_frame (frame_header opcode (length payload) @ payload @ rest)
           = Some (True, opcode, payload, rest)"
proof -
  let ?n = "length payload"
  note first = first_byte [OF assms(1), of True, simplified]
  consider "?n \<le> 125" | "125 < ?n" "?n \<le> 65535" | "65535 < ?n" by linarith
  then show ?thesis
  proof cases
    case 1
    then have "(of_nat ?n :: u8) \<noteq> 126 \<and> (of_nat ?n :: u8) \<noteq> 127 \<and> unat (of_nat ?n :: u8) = ?n"
      by (auto simp: unsigned_of_nat take_bit_nat_eq_self unat_eq_nat_uint [symmetric] word_unat_eq_iff)
    with 1 first show ?thesis
      by (simp add: decode_server_frame_def frame_header_alt length_marker_def extended_length_def Let_def)
  next
    case 2
    then have "from_be_bytes (to_be_bytes 2 ?n) = of_nat ?n" by (intro from_to_be_bytes) simp
    moreover have "unat (of_nat ?n :: u64) = ?n" using 2 by (simp add: unsigned_of_nat take_bit_nat_eq_self)
    ultimately show ?thesis using 2 first
      by (simp add: decode_server_frame_def frame_header_alt length_marker_def extended_length_def Let_def)
  next
    case 3
    have "from_be_bytes (to_be_bytes 8 ?n) = of_nat ?n" using assms(2) by (intro from_to_be_bytes) simp
    moreover have "unat (of_nat ?n :: u64) = ?n" using assms(2) by (simp add: unsigned_of_nat take_bit_nat_eq_self)
    ultimately show ?thesis using 3 first
      by (simp add: decode_server_frame_def frame_header_alt length_marker_def extended_length_def Let_def)
  qed
qed

text \<open>C31: Whatever the server writes as one frame, a client that follows the protocol decodes as one final
  frame of that opcode with exactly that payload, whatever is written after it.\<close>

theorem server_frame_decodes:
  assumes "opcode < 16" and "length payload < 2 ^ 64" and "writable s"
  shows "\<exists>written s'. write_ws_frame opcode payload s = (Inr (), s') \<and> outgoing s' = outgoing s @ written
    \<and> decode_server_frame (written @ rest) = Some (True, opcode, payload, rest)"
  using assms by (simp add: write_ws_frame_run decode_frame_header)

theorem server_frame_decodes_witness:
  "\<exists>written s'. write_ws_frame 0x1 (replicate 300 65) sample_stream = (Inr (), s')
     \<and> outgoing s' = outgoing sample_stream @ written
     \<and> decode_server_frame (written @ [0x88]) = Some (True, 0x1, replicate 300 65, [0x88])"
  by (rule server_frame_decodes) (simp_all add: sample_stream_def)

section \<open>A text message behind control frames\<close>

text \<open>A control frame a client may send: a ping (\<open>True\<close>) or a pong, its key and its payload.\<close>

type_synonym control = "bool \<times> u8 list \<times> u8 list"

fun control_bytes :: "control \<Rightarrow> u8 list" where
  "control_bytes (ping, key, payload) = client_frame True (if ping then 0x9 else 0xA) key payload"

fun control_answer :: "control \<Rightarrow> u8 list" where
  "control_answer (ping, key, payload) = (if ping then frame_header 0xA (length payload) @ payload else [])"

fun control_ok :: "control \<Rightarrow> bool" where
  "control_ok (ping, key, payload) \<longleftrightarrow> length key = 4 \<and> length payload \<le> MAX_WEBSOCKET_FRAME_BYTES"

lemma outgoing_before_incoming: "s\<lparr>incoming := a, outgoing := b\<rparr> = s\<lparr>outgoing := b, incoming := a\<rparr>"
  by (cases s) simp

lemma read_ws_text_control:
  assumes "control_ok c" and "writable s"
  shows "read_ws_text (s\<lparr>incoming := control_bytes c @ rest\<rparr>)
           = read_ws_text (s\<lparr>outgoing := outgoing s @ control_answer c, incoming := rest\<rparr>)"
proof -
  obtain ping key payload where c: "c = (ping, key, payload)" by (cases c)
  let ?op = "if ping then 0x9 else 0xA :: u8"
  have "read_ws_frame (s\<lparr>incoming := client_frame True ?op key payload @ rest\<rparr>)
      = (Inr (Some (True, ?op, payload)), s\<lparr>incoming := rest\<rparr>)"
    using assms(1) c by (intro read_client_frame) auto
  then show ?thesis using assms(2) c
    by (subst read_ws_text.simps) (simp add: write_ws_frame_run outgoing_before_incoming)
qed

lemma read_ws_text_controls:
  assumes "list_all control_ok cs" and "writable s"
  shows "read_ws_text (s\<lparr>incoming := concat (map control_bytes cs) @ rest\<rparr>)
           = read_ws_text (s\<lparr>outgoing := outgoing s @ concat (map control_answer cs), incoming := rest\<rparr>)"
  using assms
proof (induction cs arbitrary: s)
  case Nil
  then show ?case by simp
next
  case (Cons c cs)
  have "read_ws_text (s\<lparr>incoming := concat (map control_bytes (c # cs)) @ rest\<rparr>)
      = read_ws_text ((s\<lparr>outgoing := outgoing s @ control_answer c\<rparr>)\<lparr>incoming := concat (map control_bytes cs) @ rest\<rparr>)"
    using read_ws_text_control [of c s] Cons.prems by simp
  also have "\<dots> = read_ws_text (s\<lparr>outgoing := (outgoing s @ control_answer c) @ concat (map control_answer cs), incoming := rest\<rparr>)"
    using Cons.IH [of "s\<lparr>outgoing := outgoing s @ control_answer c\<rparr>"] Cons.prems by simp
  finally show ?case by simp
qed

text \<open>C32: A text message is received whatever pings and pongs come before it: it is returned unchanged, the bytes
  after it stay on the stream, and the server has written one pong per ping, with the ping's
  payload, in the order of the pings, and nothing else.\<close>

theorem text_behind_controls:
  assumes "list_all control_ok cs" and "length key = 4" and "length payload \<le> MAX_WEBSOCKET_FRAME_BYTES"
    and "writable s"
  shows "read_ws_text (s\<lparr>incoming := concat (map control_bytes cs) @ client_frame True 0x1 key payload @ rest\<rparr>)
    = (Inr (Some payload), s\<lparr>outgoing := outgoing s @ concat (map control_answer cs), incoming := rest\<rparr>)"
proof -
  let ?t = "s\<lparr>outgoing := outgoing s @ concat (map control_answer cs)\<rparr>"
  have "read_ws_frame (?t\<lparr>incoming := client_frame True 0x1 key payload @ rest\<rparr>)
      = (Inr (Some (True, 0x1, payload)), ?t\<lparr>incoming := rest\<rparr>)"
    using assms by (intro read_client_frame) auto
  then have "read_ws_text (?t\<lparr>incoming := client_frame True 0x1 key payload @ rest\<rparr>)
      = (Inr (Some payload), ?t\<lparr>incoming := rest\<rparr>)"
    by (subst read_ws_text.simps) simp
  then show ?thesis using read_ws_text_controls [OF assms(1,4)] by simp
qed

theorem text_behind_controls_witness:
  "read_ws_text (sample_stream\<lparr>incoming :=
       client_frame True 0x9 [1, 2, 3, 4] [7] @ client_frame True 0x1 [9, 9, 9, 9] [72, 105]\<rparr>)
     = (Inr (Some [72, 105]), sample_stream\<lparr>outgoing := [0x8A, 1, 7], incoming := []\<rparr>)"
  using text_behind_controls [where cs = "[(True, [1, 2, 3, 4], [7])]" and key = "[9, 9, 9, 9]"
      and payload = "[72, 105]" and s = sample_stream and rest = "[]"]
  by (simp add: MAX_WEBSOCKET_FRAME_BYTES_def sample_stream_def frame_header_def)

end
