(* ===== verification/Upgrade.thy ===== *)
theory Upgrade
  imports WebSocket
begin

text \<open>
  \<^verbatim>\<open>crates/gamchi/src/app_server.rs\<close>, the HTTP/1.1 upgrade: reading the request head byte by
  byte up to its limit, the request line, the header map, the checks of the handshake in their
  order, the answers. Base64 and SHA-1 are crates, hence the functions of a \<open>websocket_lib\<close>.
\<close>

section \<open>Text on the stream\<close>

definition char_of_byte :: "u8 \<Rightarrow> char" where
  "char_of_byte b = char_of (unat b)"

definition byte_of_char :: "char \<Rightarrow> u8" where
  "byte_of_char c = of_nat (byte_of c)"

abbreviation text_of :: "u8 list \<Rightarrow> string" where
  "text_of bs \<equiv> map char_of_byte bs"

abbreviation bytes_of :: "string \<Rightarrow> u8 list" where
  "bytes_of s \<equiv> map byte_of_char s"

definition crlf :: string where
  "crlf = [carriage_return, newline]"

text \<open>\<open>str::from_utf8\<close>: the well-formed byte sequences, no overlong forms and no surrogates.\<close>

definition in_range :: "nat \<Rightarrow> nat \<Rightarrow> nat \<Rightarrow> bool" where
  "in_range lo hi b \<longleftrightarrow> lo \<le> b \<and> b \<le> hi"

fun well_formed_utf8 :: "nat list \<Rightarrow> bool" where
  "well_formed_utf8 [] = True"
| "well_formed_utf8 (a # r) =
     (if a < 128 then well_formed_utf8 r
      else if in_range 0xC2 0xDF a then
        (case r of b # r' \<Rightarrow> in_range 0x80 0xBF b \<and> well_formed_utf8 r' | _ \<Rightarrow> False)
      else if in_range 0xE0 0xEF a then
        (case r of
           b # c # r' \<Rightarrow>
             in_range (if a = 0xE0 then 0xA0 else 0x80) (if a = 0xED then 0x9F else 0xBF) b
             \<and> in_range 0x80 0xBF c \<and> well_formed_utf8 r'
         | _ \<Rightarrow> False)
      else if in_range 0xF0 0xF4 a then
        (case r of
           b # c # d # r' \<Rightarrow>
             in_range (if a = 0xF0 then 0x90 else 0x80) (if a = 0xF4 then 0x8F else 0xBF) b
             \<and> in_range 0x80 0xBF c \<and> in_range 0x80 0xBF d \<and> well_formed_utf8 r'
         | _ \<Rightarrow> False)
      else False)"

definition valid_utf8 :: "string \<Rightarrow> bool" where
  "valid_utf8 s \<longleftrightarrow> well_formed_utf8 (map byte_of s)"

text \<open>\<open>split("\r\n")\<close>.\<close>

fun split_crlf :: "string \<Rightarrow> string list" where
  "split_crlf [] = [[]]"
| "split_crlf [c] = [[c]]"
| "split_crlf (c # d # cs) =
     (if c = carriage_return \<and> d = newline then [] # split_crlf cs
      else (case split_crlf (d # cs) of [] \<Rightarrow> [[c]] | p # ps \<Rightarrow> (c # p) # ps))"

section \<open>Rejections\<close>

datatype upgrade_reject = MethodNotAllowed | NotFound | BadRequest | UpgradeRequired | HeadersTooLarge

fun status_line :: "upgrade_reject \<Rightarrow> string option" where
  "status_line MethodNotAllowed = Some ''HTTP/1.1 405 Method Not Allowed''"
| "status_line NotFound = Some ''HTTP/1.1 404 Not Found''"
| "status_line BadRequest = Some ''HTTP/1.1 400 Bad Request''"
| "status_line UpgradeRequired = Some ''HTTP/1.1 426 Upgrade Required''"
| "status_line HeadersTooLarge = None"

definition write_str :: "string \<Rightarrow> unit ws_action" where
  "write_str t = write_all (bytes_of t)"

definition write_reject :: "upgrade_reject \<Rightarrow> unit ws_action" where
  "write_reject reject =
     (case status_line reject of
        None \<Rightarrow> ok ()
      | Some status \<Rightarrow>
          if reject = UpgradeRequired
          then write_str (status @ crlf @ ''Sec-WebSocket-Version: 13'' @ crlf @ ''Connection: close'' @ crlf @ crlf)
          else write_str (status @ crlf @ ''Connection: close'' @ crlf @ crlf))"

section \<open>The request head\<close>

definition ends_with :: "'a list \<Rightarrow> 'a list \<Rightarrow> bool" where
  "ends_with bs suf \<longleftrightarrow> length suf \<le> length bs \<and> drop (length bs - length suf) bs = suf"

definition head_end :: "u8 list" where
  "head_end = [13, 10, 13, 10]"

function read_head_loop :: "u8 list \<Rightarrow> ws_stream \<Rightarrow> (upgrade_reject + u8 list) \<times> ws_stream" where
  "read_head_loop buf s =
     (if length buf < MAX_HTTP_UPGRADE_BYTES then
        (case read_exact 1 s of
           (Inl e, s') \<Rightarrow> (Inl BadRequest, s')
         | (Inr bytes, s') \<Rightarrow>
             let buf' = buf @ [bytes ! 0] in
             if ends_with buf' head_end then (Inr buf', s') else read_head_loop buf' s')
      else (Inl HeadersTooLarge, s))"
  by pat_completeness auto
termination
  by (relation "measure (\<lambda>(buf, s). MAX_HTTP_UPGRADE_BYTES - length buf)") auto

declare read_head_loop.simps [simp del]

definition read_http_headers :: "(ws_stream, upgrade_reject, u8 list) action" where
  "read_http_headers = read_head_loop []"

definition parse_request_line :: "string \<Rightarrow> upgrade_reject + (string \<times> string \<times> string)" where
  "parse_request_line req =
     (if \<not> valid_utf8 req then Inl BadRequest
      else
        case split_on CHR '' '' (hd (split_crlf req)) of
          [meth, target, version] \<Rightarrow>
            if meth = [] \<or> target = [] \<or> version = [] then Inl BadRequest
            else Inr (meth, target, version)
        | _ \<Rightarrow> Inl BadRequest)"

section \<open>Headers\<close>

type_synonym header_map = "(string \<times> string) list"

fun parse_header_lines :: "string list \<Rightarrow> upgrade_reject + header_map" where
  "parse_header_lines [] = Inr []"
| "parse_header_lines (line # rest) =
     (if line = [] then Inr []
      else
        case split_once CHR '':'' line of
          None \<Rightarrow> Inl BadRequest
        | Some (name, value) \<Rightarrow>
            (case parse_header_lines rest of
               Inl e \<Rightarrow> Inl e
             | Inr pairs \<Rightarrow> Inr ((trim name, trim value) # pairs)))"

definition header_parse :: "string \<Rightarrow> upgrade_reject + header_map" where
  "header_parse req =
     (if \<not> valid_utf8 req then Inl BadRequest else parse_header_lines (tl (split_crlf req)))"

definition header_get :: "header_map \<Rightarrow> string \<Rightarrow> string option" where
  "header_get pairs name = map_option snd (List.find (\<lambda>(n, _). eq_ignore_ascii_case n name) pairs)"

definition eq_ignore :: "header_map \<Rightarrow> string \<Rightarrow> string \<Rightarrow> bool" where
  "eq_ignore pairs name want =
     (case header_get pairs name of None \<Rightarrow> False | Some v \<Rightarrow> eq_ignore_ascii_case v want)"

definition connection_has_upgrade :: "header_map \<Rightarrow> bool" where
  "connection_has_upgrade pairs =
     (case header_get pairs ''connection'' of
        None \<Rightarrow> False
      | Some v \<Rightarrow> list_ex (\<lambda>t. eq_ignore_ascii_case (trim t) ''upgrade'') (split_on CHR '','' v))"

section \<open>The handshake\<close>

record websocket_lib =
  b64_decode :: "string \<Rightarrow> u8 list option"
  b64_encode :: "u8 list \<Rightarrow> string"
  sha1 :: "u8 list \<Rightarrow> u8 list"

definition WEBSOCKET_GUID :: string where
  "WEBSOCKET_GUID = ''258EAFA5-E914-47DA-95CA-C5AB0DC85B11''"

definition valid_websocket_key :: "websocket_lib \<Rightarrow> string \<Rightarrow> bool" where
  "valid_websocket_key lib key =
     (case b64_decode lib key of Some bytes \<Rightarrow> length bytes = 16 | None \<Rightarrow> False)"

definition websocket_accept :: "websocket_lib \<Rightarrow> string \<Rightarrow> string" where
  "websocket_accept lib key = b64_encode lib (sha1 lib (bytes_of key @ bytes_of WEBSOCKET_GUID))"

definition switching_protocols :: "string \<Rightarrow> string" where
  "switching_protocols accept =
     ''HTTP/1.1 101 Switching Protocols'' @ crlf @ ''Upgrade: websocket'' @ crlf
       @ ''Connection: Upgrade'' @ crlf @ ''Sec-WebSocket-Accept: '' @ accept @ crlf @ crlf"

text \<open>The checks of \<open>upgrade\<close> on the request, in their order; what passes them is the key.\<close>

definition check_headers :: "websocket_lib \<Rightarrow> header_map \<Rightarrow> upgrade_reject + string" where
  "check_headers lib headers =
     (if \<not> eq_ignore headers ''upgrade'' ''websocket'' then Inl BadRequest
      else if \<not> connection_has_upgrade headers then Inl BadRequest
      else
        case header_get headers ''sec-websocket-key'' of
          None \<Rightarrow> Inl BadRequest
        | Some key \<Rightarrow>
            if \<not> valid_websocket_key lib key then Inl BadRequest
            else if header_get headers ''sec-websocket-version'' = Some ''13'' then Inr key
            else Inl UpgradeRequired)"

definition check_request :: "websocket_lib \<Rightarrow> string \<Rightarrow> upgrade_reject + string" where
  "check_request lib req =
     (case parse_request_line req of
        Inl e \<Rightarrow> Inl e
      | Inr (meth, target, version) \<Rightarrow>
          if meth \<noteq> ''GET'' then Inl MethodNotAllowed
          else if version \<noteq> ''HTTP/1.1'' then Inl BadRequest
          else if target \<noteq> ''/'' then Inl NotFound
          else (case header_parse req of Inl e \<Rightarrow> Inl e | Inr headers \<Rightarrow> check_headers lib headers))"

definition upgrade :: "websocket_lib \<Rightarrow> (ws_stream, upgrade_reject, unit) action" where
  "upgrade lib =
     and_then read_http_headers (\<lambda>req.
     and_then (of_result (check_request lib (text_of req))) (\<lambda>key.
       match_result (write_str (switching_protocols (websocket_accept lib key)))
         (\<lambda>e. err BadRequest) ok))"

text \<open>A connection: the handshake, then the loop over its messages (\<open>rpc\<close>).\<close>

definition serve_connection :: "websocket_lib \<Rightarrow> unit ws_action \<Rightarrow> unit ws_action" where
  "serve_connection lib rpc =
     match_result (upgrade lib)
       (\<lambda>reject. if reject = HeadersTooLarge then ok () else write_reject reject)
       (\<lambda>_. rpc)"

text \<open>
  The connections accepted from the socket: a failed accept is skipped, and each stream is served by a thread of its own
  with a copy of the home. The result lists these threads.
\<close>

definition accept_loop :: "('e + 'stream) list \<Rightarrow> string \<Rightarrow> ('stream \<times> string) list" where
  "accept_loop accepted home =
     concat (map (\<lambda>c. case c of Inl _ \<Rightarrow> [] | Inr stream \<Rightarrow> [(stream, home)]) accepted)"

section \<open>Where the head ends\<close>

text \<open>The head ends after the first \<open>n\<close> bytes.\<close>

definition ends_at :: "u8 list \<Rightarrow> nat \<Rightarrow> bool" where
  "ends_at bs n \<longleftrightarrow> n \<le> length bs \<and> ends_with (take n bs) head_end"

lemma read_exact_one:
  "read_exact (Suc 0) s = (case incoming s of [] \<Rightarrow> (Inl (ending s), s) | b # bs \<Rightarrow> (Inr [b], s\<lparr>incoming := bs\<rparr>))"
  by (cases s) (auto simp: read_exact_def split: list.split)

lemma read_head_loop_run:
  "read_head_loop buf s =
     (if length buf < MAX_HTTP_UPGRADE_BYTES then
        (case incoming s of
           [] \<Rightarrow> (Inl BadRequest, s)
         | b # bs \<Rightarrow>
             if ends_with (buf @ [b]) head_end then (Inr (buf @ [b]), s\<lparr>incoming := bs\<rparr>)
             else read_head_loop (buf @ [b]) (s\<lparr>incoming := bs\<rparr>))
      else (Inl HeadersTooLarge, s))"
  by (subst read_head_loop.simps) (simp add: read_exact_one Let_def split: list.split)

lemma read_head_loop_found:
  assumes "ends_with (buf @ bs) head_end" and "bs \<noteq> []" and "length (buf @ bs) \<le> MAX_HTTP_UPGRADE_BYTES"
    and "\<And>n. length buf < n \<Longrightarrow> n < length (buf @ bs) \<Longrightarrow> \<not> ends_with (take n (buf @ bs)) head_end"
  shows "read_head_loop buf (s\<lparr>incoming := bs @ rest\<rparr>) = (Inr (buf @ bs), s\<lparr>incoming := rest\<rparr>)"
  using assms
proof (induction bs arbitrary: buf)
  case Nil
  then show ?case by simp
next
  case (Cons b bs)
  show ?case
  proof (cases "bs = []")
    case True
    then show ?thesis using Cons.prems by (subst read_head_loop_run) simp
  next
    case False
    have no: "\<not> ends_with (take n (buf @ b # bs)) head_end"
      if "length buf < n" and "n < length (buf @ b # bs)" for n
      using that by (rule Cons.prems(4))
    have "\<not> ends_with (buf @ [b]) head_end"
      using no [of "Suc (length buf)"] False by simp
    moreover have "read_head_loop (buf @ [b]) (s\<lparr>incoming := bs @ rest\<rparr>)
        = (Inr ((buf @ [b]) @ bs), s\<lparr>incoming := rest\<rparr>)"
      using Cons.prems(1,3) False no by (intro Cons.IH) auto
    ultimately show ?thesis using Cons.prems(3) by (subst read_head_loop_run) simp
  qed
qed

lemma read_head_loop_missing:
  assumes "length (buf @ bs) \<le> MAX_HTTP_UPGRADE_BYTES"
    and "\<And>n. length buf < n \<Longrightarrow> n \<le> length (buf @ bs) \<Longrightarrow> \<not> ends_with (take n (buf @ bs)) head_end"
  shows "read_head_loop buf (s\<lparr>incoming := bs @ rest\<rparr>) = read_head_loop (buf @ bs) (s\<lparr>incoming := rest\<rparr>)"
  using assms
proof (induction bs arbitrary: buf)
  case Nil
  then show ?case by simp
next
  case (Cons b bs)
  have no: "\<not> ends_with (take n (buf @ b # bs)) head_end"
    if "length buf < n" and "n \<le> length (buf @ b # bs)" for n
    using that by (rule Cons.prems(2))
  have "\<not> ends_with (buf @ [b]) head_end"
    using no [of "Suc (length buf)"] by simp
  moreover have "read_head_loop (buf @ [b]) (s\<lparr>incoming := bs @ rest\<rparr>)
      = read_head_loop ((buf @ [b]) @ bs) (s\<lparr>incoming := rest\<rparr>)"
    using Cons.prems(1) no by (intro Cons.IH) auto
  ultimately show ?case using Cons.prems(1) by (subst read_head_loop_run) simp
qed

lemma head_end_not_empty: "\<not> ends_with [] head_end"
  by (simp add: ends_with_def head_end_def)

lemma read_http_headers_found:
  assumes "ends_at bs n" and "n \<le> MAX_HTTP_UPGRADE_BYTES" and "\<And>m. m < n \<Longrightarrow> \<not> ends_at bs m"
  shows "read_http_headers (s\<lparr>incoming := bs\<rparr>) = (Inr (take n bs), s\<lparr>incoming := drop n bs\<rparr>)"
proof -
  have n: "n \<le> length bs" and e: "ends_with (take n bs) head_end" using assms(1) by (auto simp: ends_at_def)
  have "take n bs \<noteq> []" using e head_end_not_empty by metis
  moreover have "\<not> ends_with (take m (take n bs)) head_end" if "m < n" for m
    using assms(3) [OF that] that n by (simp add: ends_at_def min_absorb1)
  ultimately have "read_head_loop [] (s\<lparr>incoming := take n bs @ drop n bs\<rparr>) = (Inr ([] @ take n bs), s\<lparr>incoming := drop n bs\<rparr>)"
    using e assms(2) n by (intro read_head_loop_found) auto
  then show ?thesis by (simp add: read_http_headers_def)
qed

lemma read_http_headers_missing:
  assumes "\<And>n. n \<le> MAX_HTTP_UPGRADE_BYTES \<Longrightarrow> \<not> ends_at bs n"
  shows "read_http_headers (s\<lparr>incoming := bs\<rparr>)
    = (Inl (if length bs < MAX_HTTP_UPGRADE_BYTES then BadRequest else HeadersTooLarge),
       s\<lparr>incoming := drop MAX_HTTP_UPGRADE_BYTES bs\<rparr>)"
proof -
  let ?n = "min (length bs) MAX_HTTP_UPGRADE_BYTES"
  have "\<not> ends_with (take m (take ?n bs)) head_end" if "m \<le> ?n" for m
    using assms [of m] that by (simp add: ends_at_def min_absorb1)
  then have "read_head_loop [] (s\<lparr>incoming := take ?n bs @ drop ?n bs\<rparr>)
      = read_head_loop ([] @ take ?n bs) (s\<lparr>incoming := drop ?n bs\<rparr>)"
    by (intro read_head_loop_missing) auto
  moreover have "read_head_loop (take ?n bs) (s\<lparr>incoming := drop ?n bs\<rparr>)
      = (Inl (if length bs < MAX_HTTP_UPGRADE_BYTES then BadRequest else HeadersTooLarge),
         s\<lparr>incoming := drop MAX_HTTP_UPGRADE_BYTES bs\<rparr>)"
    by (subst read_head_loop_run) (auto simp: min_def)
  ultimately show ?thesis by (simp add: read_http_headers_def)
qed

text \<open>C33: Reading a request head never takes more than its limit of 16 KiB from the socket, and takes exactly
  what it should: up to and including the first blank line, if that lies within the limit; otherwise
  the request is refused, as too large once the limit is reached and as malformed when the
  peer stops before that.\<close>

theorem request_head_bounded:
  "read_http_headers (s\<lparr>incoming := bs\<rparr>) =
     (if \<exists>n \<le> MAX_HTTP_UPGRADE_BYTES. ends_at bs n
      then (Inr (take (LEAST n. ends_at bs n) bs), s\<lparr>incoming := drop (LEAST n. ends_at bs n) bs\<rparr>)
      else (Inl (if length bs < MAX_HTTP_UPGRADE_BYTES then BadRequest else HeadersTooLarge),
            s\<lparr>incoming := drop MAX_HTTP_UPGRADE_BYTES bs\<rparr>))"
proof (cases "\<exists>n \<le> MAX_HTTP_UPGRADE_BYTES. ends_at bs n")
  case True
  then obtain n where n: "n \<le> MAX_HTTP_UPGRADE_BYTES" "ends_at bs n" by blast
  let ?l = "LEAST n. ends_at bs n"
  have "ends_at bs ?l" using n(2) by (rule LeastI)
  moreover have "?l \<le> MAX_HTTP_UPGRADE_BYTES" using Least_le [of "ends_at bs", OF n(2)] n(1) by (rule le_trans)
  ultimately have "read_http_headers (s\<lparr>incoming := bs\<rparr>) = (Inr (take ?l bs), s\<lparr>incoming := drop ?l bs\<rparr>)"
    by (rule read_http_headers_found) (rule not_less_Least)
  then show ?thesis by (simp only: True if_True)
next
  case False
  then have "\<not> ends_at bs n" if "n \<le> MAX_HTTP_UPGRADE_BYTES" for n using that by blast
  then have "read_http_headers (s\<lparr>incoming := bs\<rparr>)
    = (Inl (if length bs < MAX_HTTP_UPGRADE_BYTES then BadRequest else HeadersTooLarge),
       s\<lparr>incoming := drop MAX_HTTP_UPGRADE_BYTES bs\<rparr>)" by (rule read_http_headers_missing)
  then show ?thesis by (simp only: False if_False)
qed

section \<open>A request as a client writes it\<close>

text \<open>Lines that hold no line break, each ended by one, and the blank line.\<close>

definition clean_line :: "string \<Rightarrow> bool" where
  "clean_line l \<longleftrightarrow> l \<noteq> [] \<and> list_all (\<lambda>c. c \<noteq> carriage_return \<and> c \<noteq> newline \<and> byte_of c < 128) l"

definition lines_text :: "string list \<Rightarrow> string" where
  "lines_text ls = concat (map (\<lambda>l. l @ crlf) ls) @ crlf"

lemma lines_text_simps [simp]:
  "lines_text [] = crlf"
  "lines_text (l # ls) = l @ crlf @ lines_text ls"
  by (simp_all add: lines_text_def)

lemma cr_lf_distinct [simp]: "carriage_return \<noteq> newline" "newline \<noteq> carriage_return"
  by (simp_all add: carriage_return_def newline_def)

lemma split_crlf_line: "carriage_return \<notin> set l \<Longrightarrow> split_crlf (l @ crlf @ r) = l # split_crlf r"
proof (induction l)
  case Nil
  then show ?case by (simp add: crlf_def)
next
  case (Cons c l)
  then have "c \<noteq> carriage_return" and "split_crlf (l @ crlf @ r) = l # split_crlf r" by auto
  moreover obtain d cs where "l @ crlf @ r = d # cs" by (cases l) (auto simp: crlf_def)
  ultimately show ?case by simp
qed

lemma clean_line_cr: "clean_line l \<Longrightarrow> carriage_return \<notin> set l"
  by (auto simp: clean_line_def list_all_iff)

lemma split_crlf_lines: "list_all clean_line ls \<Longrightarrow> split_crlf (lines_text ls) = ls @ [[], []]"
proof (induction ls)
  case Nil
  show ?case by (simp add: crlf_def)
next
  case (Cons l ls)
  then show ?case by (simp add: split_crlf_line clean_line_cr)
qed

text \<open>The first blank line of such a text is its end.\<close>

lemma blank_line_at_end:
  "list_all clean_line ls \<Longrightarrow> lines_text ls = a @ crlf @ crlf @ b \<Longrightarrow> b = []"
proof (induction ls arbitrary: a)
  case Nil
  have "length (lines_text []) = length (a @ crlf @ crlf @ b)" using Nil.prems(2) by simp
  then show ?case by (simp add: crlf_def)
next
  case (Cons l ls)
  have l: "carriage_return \<notin> set l" using Cons.prems(1) by (simp add: clean_line_cr)
  have eq: "l @ crlf @ lines_text ls = a @ crlf @ crlf @ b" using Cons.prems(2) by simp
  from iffD1 [OF append_eq_append_conv2 eq]
  obtain us where "l = a @ us \<and> us @ crlf @ lines_text ls = crlf @ crlf @ b
      \<or> l @ us = a \<and> crlf @ lines_text ls = us @ crlf @ crlf @ b"
    by blast
  then show ?case
  proof
    assume us: "l = a @ us \<and> us @ crlf @ lines_text ls = crlf @ crlf @ b"
    then have "us = []" using l by (cases us) (auto simp: crlf_def)
    then have "lines_text ls = crlf @ b" using us by (simp add: crlf_def)
    then show ?thesis using Cons.prems(1) by (cases ls) (auto simp: crlf_def clean_line_def neq_Nil_conv)
  next
    assume us: "l @ us = a \<and> crlf @ lines_text ls = us @ crlf @ crlf @ b"
    show ?thesis
    proof (cases us)
      case Nil
      then have "lines_text ls = crlf @ b" using us by (simp add: crlf_def)
      then show ?thesis using Cons.prems(1) by (cases ls) (auto simp: crlf_def clean_line_def neq_Nil_conv)
    next
      case (Cons c us')
      then obtain us'' where "us = crlf @ us''" using us by (cases us') (auto simp: crlf_def)
      then have "lines_text ls = us'' @ crlf @ crlf @ b" using us by (simp add: crlf_def)
      then show ?thesis using Cons.IH Cons.prems(1) by simp
    qed
  qed
qed

lemma byte_char [simp]: "char_of_byte (byte_of_char c) = c"
  using byte_of_less [of c]
  by (simp add: char_of_byte_def byte_of_char_def unsigned_of_nat take_bit_nat_eq_self)
    (simp add: byte_of_def)

lemma text_of_bytes_of [simp]: "map (char_of_byte \<circ> byte_of_char) t = t"
  by (induction t) auto

lemma inj_byte_of_char: "inj byte_of_char"
  by (rule inj_on_inverseI [where g = char_of_byte]) simp

lemma head_end_text: "head_end = bytes_of (crlf @ crlf)"
  by (simp add: head_end_def crlf_def carriage_return_def newline_def byte_of_char_def byte_of_def)

lemma ends_with_append: "ends_with bs suf \<longleftrightarrow> (\<exists>a. bs = a @ suf)"
  by (auto simp: ends_with_def) (metis append_take_drop_id)

lemma ends_with_text: "ends_with (bytes_of t) head_end \<longleftrightarrow> (\<exists>a. t = a @ crlf @ crlf)"
proof
  assume "ends_with (bytes_of t) head_end"
  then obtain a where a: "bytes_of t = a @ bytes_of (crlf @ crlf)" by (auto simp: ends_with_append head_end_text)
  then have "text_of (bytes_of t) = text_of a @ text_of (bytes_of (crlf @ crlf))" by (simp only: map_append)
  then show "\<exists>a. t = a @ crlf @ crlf" by auto
qed (auto simp: ends_with_append head_end_text)

lemma read_request_lines:
  assumes "list_all clean_line ls" and "ls \<noteq> []" and "length (lines_text ls) \<le> MAX_HTTP_UPGRADE_BYTES"
  shows "read_http_headers (s\<lparr>incoming := bytes_of (lines_text ls) @ rest\<rparr>)
           = (Inr (bytes_of (lines_text ls)), s\<lparr>incoming := rest\<rparr>)"
proof -
  let ?t = "lines_text ls"
  let ?n = "length ?t"
  obtain l ls' where "ls = ls' @ [l]" using assms(2) by (cases ls rule: rev_cases) auto
  then have "?t = (concat (map (\<lambda>l. l @ crlf) ls') @ l) @ crlf @ crlf" by (simp add: lines_text_def)
  then have "ends_at (bytes_of ?t @ rest) ?n" unfolding ends_at_def using ends_with_text [of ?t] by auto
  moreover have "\<not> ends_at (bytes_of ?t @ rest) m" if "m < ?n" for m
  proof
    assume "ends_at (bytes_of ?t @ rest) m"
    then have "ends_with (bytes_of (take m ?t)) head_end" using that by (simp add: ends_at_def take_map)
    then obtain a where "take m ?t = a @ crlf @ crlf" using ends_with_text by blast
    then have "?t = a @ crlf @ crlf @ drop m ?t" by (metis append_assoc append_take_drop_id)
    then have "drop m ?t = []" by (rule blank_line_at_end [OF assms(1)])
    with that show False by simp
  qed
  ultimately show ?thesis
    using read_http_headers_found [of "bytes_of ?t @ rest" ?n s] assms(3) by simp
qed

lemma well_formed_ascii: "list_all (\<lambda>b. b < 128) bs \<Longrightarrow> well_formed_utf8 bs"
  by (induction bs) auto

definition ascii :: "string \<Rightarrow> bool" where
  "ascii t \<longleftrightarrow> list_all (\<lambda>c. byte_of c < 128) t"

lemma valid_utf8_ascii: "ascii t \<Longrightarrow> valid_utf8 t"
  unfolding valid_utf8_def ascii_def by (rule well_formed_ascii) (simp add: list_all_iff)

lemma ascii_append [simp]: "ascii (a @ b) \<longleftrightarrow> ascii a \<and> ascii b"
  by (simp add: ascii_def)

lemma ascii_Cons [simp]: "ascii (c # t) \<longleftrightarrow> byte_of c < 128 \<and> ascii t"
  by (simp add: ascii_def)

lemma ascii_crlf: "ascii crlf"
  by (simp add: ascii_def crlf_def carriage_return_def newline_def byte_of_def)

lemma clean_line_ascii: "clean_line l \<Longrightarrow> ascii l"
  by (simp add: clean_line_def ascii_def list_all_iff)

lemma lines_text_ascii: "list_all clean_line ls \<Longrightarrow> ascii (lines_text ls)"
  by (induction ls) (simp_all add: clean_line_ascii ascii_crlf)

lemma utf8_chars_ascii: "ascii t \<Longrightarrow> utf8_chars t = map (\<lambda>c. [c]) t"
  by (rule utf8_chars_single) (auto simp: ascii_def list_all_iff is_continuation_def)

lemma trim_space: "ascii v \<Longrightarrow> trim (CHR '' '' # v) = trim v"
proof -
  assume v: "ascii v"
  then have s: "ascii (CHR '' '' # v)" by (simp add: byte_of_def)
  have "is_whitespace [CHR '' '']" by (simp add: is_whitespace_def byte_of_def)
  then show ?thesis by (simp only: trim_def utf8_chars_ascii [OF v] utf8_chars_ascii [OF s]) simp
qed

section \<open>The handshake on a client's headers\<close>

text \<open>A header whose name and value hold no separator and no surrounding white space.\<close>

fun clean_header :: "string \<times> string \<Rightarrow> bool" where
  "clean_header (name, value) \<longleftrightarrow>
     clean_line name \<and> CHR '':'' \<notin> set name \<and> trim name = name
     \<and> (value = [] \<or> clean_line value) \<and> trim value = value"

definition header_line :: "string \<times> string \<Rightarrow> string" where
  "header_line h = fst h @ '': '' @ snd h"

definition request_line :: string where
  "request_line = ''GET / HTTP/1.1''"

definition request_text :: "header_map \<Rightarrow> string" where
  "request_text hs = lines_text (request_line # map header_line hs)"

lemma clean_header_line: "clean_header h \<Longrightarrow> clean_line (header_line h)"
  by (cases h) (auto simp: clean_line_def header_line_def carriage_return_def newline_def byte_of_def)

lemma clean_request_line: "clean_line request_line"
  by (simp add: clean_line_def request_line_def carriage_return_def newline_def byte_of_def)

lemma clean_request:
  "list_all clean_header hs \<Longrightarrow> list_all clean_line (request_line # map header_line hs)"
  by (auto simp: clean_request_line list_all_iff clean_header_line)

lemma split_once_header: "CHR '':'' \<notin> set name \<Longrightarrow> split_once CHR '':'' (name @ CHR '':'' # CHR '' '' # value) = Some (name, CHR '' '' # value)"
  by (simp add: split_once_Some)

lemma parse_header_lines_clean:
  "list_all clean_header hs \<Longrightarrow> parse_header_lines (map header_line hs @ [[], []]) = Inr hs"
proof (induction hs)
  case (Cons h hs)
  obtain name "value" where h: "h = (name, value)" by (cases h)
  have "ascii value" using Cons.prems h clean_line_ascii by (auto simp: ascii_def)
  then have "trim (CHR '' '' # value) = value" and "trim name = name" and "CHR '':'' \<notin> set name"
    using Cons.prems h by (auto simp: trim_space)
  then have "split_once CHR '':'' (header_line h) = Some (name, CHR '' '' # value)"
    and "header_line h \<noteq> []" using h by (simp_all add: header_line_def split_once_header)
  then show ?case using Cons h \<open>trim (CHR '' '' # value) = value\<close> \<open>trim name = name\<close> by simp
qed simp

lemma check_request_text:
  assumes "list_all clean_header hs"
  shows "check_request lib (request_text hs) = check_headers lib hs"
proof -
  note clean = clean_request [OF assms]
  have valid: "valid_utf8 (request_text hs)"
    unfolding request_text_def by (rule valid_utf8_ascii) (rule lines_text_ascii [OF clean])
  have split: "split_crlf (request_text hs) = request_line # map header_line hs @ [[], []]"
    unfolding request_text_def using split_crlf_lines [OF clean] by simp
  have "parse_request_line (request_text hs) = Inr (''GET'', ''/'', ''HTTP/1.1'')"
    by (simp add: parse_request_line_def valid split) (simp add: request_line_def)
  moreover have "header_parse (request_text hs) = Inr hs"
    by (simp add: header_parse_def valid split parse_header_lines_clean [OF assms])
  ultimately show ?thesis by (simp add: check_request_def)
qed

text \<open>C34: The handshake is decided on exactly the headers the client wrote, in whatever order and with whatever
  others between them: a well-formed request within the limit is parsed back to its header list,
  is answered by the 101 response with the accept value of its key if the list passes the checks and is rejected
  with their error otherwise, and in both cases the bytes after the request stay on the stream
  for the first frame.\<close>

theorem upgrade_decides_on_headers:
  assumes "list_all clean_header hs" and "length (request_text hs) \<le> MAX_HTTP_UPGRADE_BYTES" and "writable s"
  shows "upgrade lib (s\<lparr>incoming := bytes_of (request_text hs) @ rest\<rparr>) =
    (case check_headers lib hs of
       Inl e \<Rightarrow> (Inl e, s\<lparr>incoming := rest\<rparr>)
     | Inr key \<Rightarrow>
         (Inr (), s\<lparr>outgoing := outgoing s @ bytes_of (switching_protocols (websocket_accept lib key)), incoming := rest\<rparr>))"
proof -
  have "read_http_headers (s\<lparr>incoming := bytes_of (request_text hs) @ rest\<rparr>)
      = (Inr (bytes_of (request_text hs)), s\<lparr>incoming := rest\<rparr>)"
    using assms(2) clean_request [OF assms(1)] unfolding request_text_def by (intro read_request_lines) auto
  then show ?thesis using assms(3)
    by (simp add: upgrade_def wp check_request_text [OF assms(1)] write_str_def write_all_def
        outgoing_before_incoming split: sum.split)
qed

definition sample_lib :: websocket_lib where
  "sample_lib = \<lparr>b64_decode = \<lambda>t. if length t = 24 then Some (replicate 16 7) else None,
     b64_encode = text_of, sha1 = \<lambda>bs. [of_nat (length bs)]\<rparr>"

definition sample_headers :: header_map where
  "sample_headers = [(''Host'', ''localhost''), (''Upgrade'', ''websocket''), (''Connection'', ''keep-alive, Upgrade''),
     (''Sec-WebSocket-Key'', ''BwcHBwcHBwcHBwcHBwcHBw==''), (''Sec-WebSocket-Version'', ''13'')]"

theorem upgrade_decides_on_headers_witness:
  "fst (upgrade sample_lib (sample_stream\<lparr>incoming := bytes_of (request_text sample_headers) @ [0x81]\<rparr>)) = Inr ()
   \<and> incoming (snd (upgrade sample_lib (sample_stream\<lparr>incoming := bytes_of (request_text sample_headers) @ [0x81]\<rparr>))) = [0x81]"
proof -
  have "check_headers sample_lib sample_headers = Inr ''BwcHBwcHBwcHBwcHBwcHBw==''"
    by code_simp
  moreover have "list_all clean_header sample_headers" by code_simp
  moreover have "length (request_text sample_headers) \<le> MAX_HTTP_UPGRADE_BYTES" by code_simp
  ultimately show ?thesis
    using upgrade_decides_on_headers [of sample_headers sample_stream sample_lib "[0x81]"]
    by (simp add: sample_stream_def)
qed

end
