(* ===== verification/AppServer.thy ===== *)
theory AppServer
  imports RunTurn Upgrade
begin

text \<open>
  \<^verbatim>\<open>crates/gamchi/src/app_server.rs\<close>: start-up, the JSON-RPC methods, and what follows a reply:
  the notifications and approval requests of a watched turn. A method handler is an action on the
  system; \<open>self\<close> is the number of the \<open>Ledger\<close> value it opens. The frames below are in
  \<open>WebSocket\<close>, the handshake in \<open>Upgrade\<close>.
\<close>

section \<open>Start-up\<close>

record listen_config =
  socket_path :: string
  listen_home :: "string option"

definition parse_listen :: "string \<Rightarrow> string + string" where
  "parse_listen raw =
     (case strip_prefix raw ''unix://'' of
        None \<Rightarrow> Inl ''--listen must be unix://<absolute-path>''
      | Some path \<Rightarrow>
          if path = [] \<or> \<not> starts_with path ''/'' then Inl ''--listen path must be absolute'' else Inr path)"

fun parse_listen_args :: "string list \<Rightarrow> string option \<Rightarrow> string option \<Rightarrow> string + listen_config" where
  "parse_listen_args [] listen home =
     (case listen of
        None \<Rightarrow> Inl ''--listen unix://<absolute-path> is required''
      | Some path \<Rightarrow> Inr \<lparr>socket_path = path, listen_home = home\<rparr>)"
| "parse_listen_args (arg # args) listen home =
     (if arg = ''--listen'' then
        (case args of
           [] \<Rightarrow> Inl ''--listen needs a value''
         | raw # rest \<Rightarrow>
             (case parse_listen raw of Inl e \<Rightarrow> Inl e | Inr path \<Rightarrow> parse_listen_args rest (Some path) home))
      else if arg = ''--home'' then
        (case args of
           [] \<Rightarrow> Inl ''--home needs a value''
         | raw # rest \<Rightarrow> parse_listen_args rest listen (Some raw))
      else Inl (''unknown argument '' @ arg))"

definition parse_args :: "string list \<Rightarrow> string + listen_config" where
  "parse_args args = parse_listen_args args None None"

datatype bind_error = Occupied | BindOther string

text \<open>\<open>exists\<close> is \<open>Path::exists\<close>, \<open>bind\<close> the system call: an error is whether the address is in use, and its text.\<close>

definition bind_listen :: "(string \<Rightarrow> bool) \<Rightarrow> (string \<Rightarrow> (bool \<times> string) + unit) \<Rightarrow> string \<Rightarrow> bind_error + unit" where
  "bind_listen exists bind path =
     (if exists path then Inl Occupied
      else case bind path of
        Inr _ \<Rightarrow> Inr ()
      | Inl (in_use, text) \<Rightarrow> Inl (if in_use then Occupied else BindOther text))"

text \<open>Standard error and exit code of a failed start, or the home whose connections are accepted.\<close>

definition startup :: "host \<Rightarrow> (string \<Rightarrow> bool) \<Rightarrow> (string \<Rightarrow> (bool \<times> string) + unit) \<Rightarrow> string list \<Rightarrow> (string list \<times> nat) + string" where
  "startup host exists bind args =
     (case parse_args args of
        Inl msg \<Rightarrow> Inl ([''GAMCHI_STARTUP_ERROR INVALID_CONFIG'', msg], 1)
      | Inr cfg \<Rightarrow>
          (case open_home host (listen_home cfg) of
             Inl reason \<Rightarrow> Inl ([''GAMCHI_STARTUP_ERROR INVALID_CONFIG'', reason], 1)
           | Inr home \<Rightarrow>
               (case bind_listen exists bind (socket_path cfg) of
                  Inl Occupied \<Rightarrow> Inl ([''GAMCHI_STARTUP_ERROR OCCUPIED_PATH''], 1)
                | Inl (BindOther msg) \<Rightarrow> Inl ([''GAMCHI_STARTUP_ERROR INVALID_CONFIG'', msg], 1)
                | Inr _ \<Rightarrow> Inr home)))"

section \<open>Replies\<close>

definition USER_AGENT :: string where "USER_AGENT = ''gamchi/app-server-v1''"
definition INVALID_REQUEST :: int where "INVALID_REQUEST = -32600"
definition METHOD_NOT_FOUND :: int where "METHOD_NOT_FOUND = -32602"
definition GROK_RUNTIME_READ :: string where "GROK_RUNTIME_READ = ''grok/runtime/read''"

definition json_int :: "int \<Rightarrow> json" where
  "json_int n = JNum (if n < 0 then NegInt n else PosInt (of_int n))"

definition rpc_ok :: "json \<Rightarrow> json \<Rightarrow> json" where
  "rpc_ok i result = JObj [(''id'', i), (''result'', result)]"

definition rpc_error :: "json \<Rightarrow> int \<Rightarrow> string \<Rightarrow> json" where
  "rpc_error i code message =
     JObj [(''id'', i), (''error'', JObj [(''code'', json_int code), (''message'', JStr message)])]"

definition rpc_result :: "json \<Rightarrow> string + json \<Rightarrow> json" where
  "rpc_result i result =
     (case result of Inr v \<Rightarrow> rpc_ok i v | Inl message \<Rightarrow> rpc_error i METHOD_NOT_FOUND message)"

definition item_obj :: "item \<Rightarrow> json" where
  "item_obj it =
     JObj [(''id'', JStr (item_id it)), (''type'', JStr (item_type it)), (''text'', JStr (item_text it)),
           (''status'', JStr (item_status it))]"

definition items_wire :: "turn \<Rightarrow> json" where
  "items_wire t = JArr (map item_obj (turn_items t))"

definition turn_obj :: "turn \<Rightarrow> json" where
  "turn_obj t =
     JObj [(''id'', JStr (turn_id t)), (''items'', items_wire t), (''status'', JStr (turn_status_as_str (turn_status t)))]"

definition turn_result :: "turn \<Rightarrow> json" where
  "turn_result t = JObj [(''turn'', turn_obj t)]"

definition initialize_result :: json where
  "initialize_result = JObj [(''userAgent'', JStr USER_AGENT)]"

definition grok_runtime_read :: "string \<Rightarrow> json" where
  "grok_runtime_read home =
     JObj [(''runtime'', JStr ''grok''), (''userAgent'', JStr USER_AGENT), (''home'', JStr home)]"

definition model_list_stub :: json where
  "model_list_stub =
     JObj [(''data'', JArr [JObj [(''model'', JStr ''grok''), (''isDefault'', JBool True), (''supportedReasoningEfforts'', JArr [])]]),
           (''nextCursor'', JNull)]"

text \<open>\<open>read\<close> is \<open>fs::read_to_string\<close>.\<close>

definition model_list_result :: "host \<Rightarrow> (string \<Rightarrow> string option) \<Rightarrow> json" where
  "model_list_result host read =
     (case Option.bind (Option.bind (env_var host ''GAMCHI_MODEL_LIST_FIXTURE'') read) (json_of_text host) of
        Some parsed \<Rightarrow> if json_get parsed ''data'' \<noteq> None then parsed else model_list_stub
      | None \<Rightarrow> model_list_stub)"

section \<open>Parameters\<close>

definition opt_out_is_nonempty :: "json \<Rightarrow> bool" where
  "opt_out_is_nonempty params =
     (let top = json_get params ''optOutNotificationMethods'';
          nested = Option.bind (json_get params ''capabilities'') (\<lambda>c. json_get c ''optOutNotificationMethods'') in
      list_ex (\<lambda>v. case as_array v of Some a \<Rightarrow> a \<noteq> [] | None \<Rightarrow> True) (List.map_filter (\<lambda>x. x) [top, nested]))"

fun reject_fields :: "string list \<Rightarrow> json \<Rightarrow> string + unit" where
  "reject_fields [] v = Inr ()"
| "reject_fields (field # rest) v =
     (if json_get v field \<noteq> None then Inl (''unenforceable extra spawn field '' @ field) else reject_fields rest v)"

definition reject_unenforceable_extras :: "json \<Rightarrow> string + unit" where
  "reject_unenforceable_extras v = reject_fields UNENFORCEABLE_EXTRA_FIELD_NAMES v"

definition parse_start_developer_instructions :: "json \<Rightarrow> string + string" where
  "parse_start_developer_instructions params =
     (case json_get params ''developerInstructions'' of
        None \<Rightarrow> Inr []
      | Some JNull \<Rightarrow> Inr []
      | Some (JStr s) \<Rightarrow>
          if s = [] then Inr []
          else if all_whitespace s then Inl ''developerInstructions whitespace-only''
          else Inr s
      | Some _ \<Rightarrow> Inl ''developerInstructions must be a string or null'')"

definition check_resume_developer_instructions :: "json \<Rightarrow> string \<Rightarrow> string + unit" where
  "check_resume_developer_instructions params stored =
     (case json_get params ''developerInstructions'' of
        None \<Rightarrow> Inr ()
      | Some JNull \<Rightarrow> Inr ()
      | Some (JStr s) \<Rightarrow>
          if s = [] \<and> stored = [] then Inr ()
          else if s = [] then Inl ''developerInstructions change refused''
          else if all_whitespace s then Inl ''developerInstructions whitespace-only''
          else if s = stored \<and> stored \<noteq> [] then Inr ()
          else Inl ''developerInstructions change refused''
      | Some _ \<Rightarrow> Inl ''developerInstructions must be a string or null'')"

fun prompt_parts :: "json list \<Rightarrow> string + string list" where
  "prompt_parts [] = Inr []"
| "prompt_parts (el # els) =
     (let ty = (case get_str el ''type'' of Some t \<Rightarrow> t | None \<Rightarrow> []) in
      if ty \<noteq> ''text'' then Inl (''unsupported input type '' @ ty)
      else case get_str el ''text'' of
        None \<Rightarrow> Inl ''text required''
      | Some text \<Rightarrow> (case prompt_parts els of Inl e \<Rightarrow> Inl e | Inr parts \<Rightarrow> Inr (text # parts)))"

definition prompt_from_input :: "json \<Rightarrow> string + string" where
  "prompt_from_input input =
     (case as_array input of
        None \<Rightarrow> Inl ''input required''
      | Some arr \<Rightarrow>
          if arr = [] then Inl ''input required''
          else (case prompt_parts arr of Inl e \<Rightarrow> Inl e | Inr parts \<Rightarrow> Inr (join_with [newline] parts)))"

section \<open>Methods\<close>

definition absolute_cwd :: "host \<Rightarrow> json \<Rightarrow> string + string" where
  "absolute_cwd host params =
     (case get_str params ''cwd'' of
        Some p \<Rightarrow> if is_absolute p then Inr p else Inl ''cwd must be absolute''
      | None \<Rightarrow>
          (case current_dir host of
             Inl e \<Rightarrow> Inl e
           | Inr p \<Rightarrow> if is_absolute p then Inr p else Inl ''cwd must be absolute''))"

definition chosen_sandbox :: "host \<Rightarrow> json \<Rightarrow> string + thread_sandbox" where
  "chosen_sandbox host params =
     (case get_str params ''sandbox'' of
        Some v \<Rightarrow> map_err (display_unsupported host) (parse_thread_sandbox v)
      | None \<Rightarrow> Inr APP_SERVER_DEFAULT_THREAD_SANDBOX)"

definition chosen_policy :: "host \<Rightarrow> json \<Rightarrow> approval_policy \<Rightarrow> string + approval_policy" where
  "chosen_policy host params fallback =
     (case get_str params ''approvalPolicy'' of
        Some v \<Rightarrow> map_err (display_unsupported host) (parse_approval_policy v)
      | None \<Rightarrow> Inr fallback)"

definition open_here :: "host \<Rightarrow> nat \<Rightarrow> string \<Rightarrow> (string, string) sys_action" where
  "open_here host self home = open_ledger host self (Some home)"

definition thread_start :: "host \<Rightarrow> nat \<Rightarrow> json \<Rightarrow> string \<Rightarrow> (string, json) sys_action" where
  "thread_start host self params home =
     and_then (of_result (reject_unenforceable_extras params)) (\<lambda>_.
     and_then (of_result (absolute_cwd host params)) (\<lambda>cwd.
     and_then (of_result (optional_text_field params ''model'')) (\<lambda>model_raw.
     and_then (\<lambda>s. (map_err (display_resolve_error host) (load_home_defaults (configs s home)), s)) (\<lambda>d.
     and_then (of_result (map_err (display_resolve_error host) (resolve_first_turn model_raw [] d))) (\<lambda>(model, _).
     and_then (of_result (chosen_sandbox host params)) (\<lambda>sandbox.
     and_then (of_result (chosen_policy host params APP_SERVER_DEFAULT_APPROVAL_POLICY)) (\<lambda>policy.
     and_then (of_result (parse_start_developer_instructions params)) (\<lambda>instructions.
     with_ledger (open_here host self home) self (\<lambda>h.
       and_then (call host h (create_thread self
           \<lparr>nt_cwd = cwd, nt_model = model, nt_sandbox = sandbox, nt_approval_policy = policy,
            nt_developer_instructions = instructions, nt_acp_session_id = []\<rparr>)) (\<lambda>stored.
       ok (JObj [(''thread'', JObj [(''id'', JStr (thread_id stored)), (''turns'', JArr [])])])))))))))))"

definition turns_for_thread :: "host \<Rightarrow> nat \<Rightarrow> string \<Rightarrow> string \<Rightarrow> (string, json) sys_action" where
  "turns_for_thread host self h i =
     and_then (call host h (list_turns self None)) (\<lambda>ts.
     ok (JArr (map turn_obj (filter (\<lambda>t. turn_thread_id t = i) ts))))"

definition thread_obj :: "wire_thread \<Rightarrow> json \<Rightarrow> json" where
  "thread_obj th turns = JObj [(''thread'', JObj [(''id'', JStr (thread_id th)), (''turns'', turns)])]"

definition thread_resume :: "host \<Rightarrow> nat \<Rightarrow> json \<Rightarrow> string \<Rightarrow> (string, json) sys_action" where
  "thread_resume host self params home =
     and_then (of_result (reject_unenforceable_extras params)) (\<lambda>_.
     and_then (of_result (required_str params ''threadId'' ''threadId required'')) (\<lambda>i.
     with_ledger (open_here host self home) self (\<lambda>h.
       and_then (call host h (read_thread i)) (\<lambda>stored.
       and_then (of_result (check_resume_developer_instructions params (developer_instructions stored))) (\<lambda>_.
       and_then (turns_for_thread host self h (thread_id stored)) (\<lambda>turns.
       ok (thread_obj stored turns)))))))"

datatype thread_read_error = Absent string | OtherError string

definition open_ledger_at :: "host \<Rightarrow> nat \<Rightarrow> string \<Rightarrow> (string, string) sys_action" where
  "open_ledger_at host self home = call host home (open_ledger_home self home)"

definition thread_read_body :: "host \<Rightarrow> nat \<Rightarrow> json \<Rightarrow> string \<Rightarrow> string \<Rightarrow> (thread_read_error, json) sys_action" where
  "thread_read_body host self params i h =
     match_result (in_home h (read_thread i))
       (\<lambda>e. case e of
              ledger_error.NotFound _ _ \<Rightarrow> err (Absent (display_ledger_error host e))
            | _ \<Rightarrow> err (OtherError (display_ledger_error host e)))
       (\<lambda>stored.
          if Option.bind (json_get params ''includeTurns'') as_bool = Some False
          then ok (thread_obj stored (JArr []))
          else and_then (with_err OtherError (turns_for_thread host self h (thread_id stored))) (\<lambda>turns.
               ok (thread_obj stored turns)))"

definition thread_read :: "host \<Rightarrow> nat \<Rightarrow> json \<Rightarrow> string \<Rightarrow> (thread_read_error, json) sys_action" where
  "thread_read host self params home =
     and_then (of_result (map_err OtherError (reject_unenforceable_extras params))) (\<lambda>_.
     and_then (of_result (map_err OtherError (required_str params ''threadId'' ''threadId required''))) (\<lambda>i.
     and_then (with_err OtherError (open_ledger_at host self home)) (\<lambda>h s.
       case thread_read_body host self params i h s of
         (r, s') \<Rightarrow> (r, s'\<lparr>homes := (homes s')(h := drop_ledger self (homes s' h))\<rparr>))))"

text \<open>
  A turn is started on a thread of its own; the caller waits for the admission or an error before
  it, for 30 seconds at most. What the thread does after the admission is \<open>after_admission\<close>.
\<close>

datatype admission_timing = InTime | Late | NoRuntime string

definition admit_request :: "host \<Rightarrow> nat \<Rightarrow> string \<Rightarrow> turn_request \<Rightarrow> admission_timing \<Rightarrow> string \<Rightarrow> (string, turn) sys_action" where
  "admit_request host self h req timing late_message s =
     (case timing of
        NoRuntime text \<Rightarrow> (Inl (display_adapter_error host (Acp text)), s)
      | Late \<Rightarrow> (Inl late_message, snd (prepare_turn self h req s))
      | InTime \<Rightarrow>
          (case prepare_turn self h req s of
             (Inl e, s') \<Rightarrow> (Inl (display_adapter_error host e), s')
           | (Inr (t, _), s') \<Rightarrow> (Inr t, s')))"

definition turn_sandbox :: "host \<Rightarrow> json \<Rightarrow> wire_thread \<Rightarrow> string + thread_sandbox" where
  "turn_sandbox host params stored =
     (case json_get params ''sandboxPolicy'' of
        Some policy \<Rightarrow>
          (case get_str policy ''type'' of
             None \<Rightarrow> Inl ''sandboxPolicy.type required''
           | Some ty \<Rightarrow> map_err (display_unsupported host) (map_sum id to_thread_sandbox (parse_turn_sandbox_type ty)))
      | None \<Rightarrow> Inr (thread_sandbox stored))"

definition turn_start_checks :: "json \<Rightarrow> string + (string \<times> string)" where
  "turn_start_checks params =
     (case reject_unenforceable_extras params of
        Inl e \<Rightarrow> Inl e
      | Inr _ \<Rightarrow>
          if json_get params ''developerInstructions'' \<noteq> None
          then Inl ''developerInstructions is not allowed on turn/start''
          else case (case json_get params ''sandboxPolicy'' of
                       Some policy \<Rightarrow> reject_unenforceable_extras policy
                     | None \<Rightarrow> Inr ()) of
            Inl e \<Rightarrow> Inl e
          | Inr _ \<Rightarrow>
              (case required_str params ''threadId'' ''threadId required'' of
                 Inl e \<Rightarrow> Inl e
               | Inr i \<Rightarrow>
                   (case prompt_from_input (case json_get params ''input'' of Some v \<Rightarrow> v | None \<Rightarrow> JNull) of
                      Inl e \<Rightarrow> Inl e
                    | Inr prompt \<Rightarrow> Inr (i, prompt))))"

definition turn_start_request ::
  "host \<Rightarrow> wire_thread \<Rightarrow> string \<Rightarrow> string \<Rightarrow> approval_policy \<Rightarrow> thread_sandbox \<Rightarrow> string \<Rightarrow> string \<Rightarrow> turn_request" where
  "turn_start_request host stored i prompt approval sandbox model effort =
     \<lparr>tr_cwd = thread_cwd stored, tr_prompt = prompt, tr_approval = approval, tr_sandbox = sandbox,
      tr_extra = no_extra, tr_model = model, tr_effort = effort, tr_command = acp_command host,
      tr_client_request_id = None,
      tr_follow_up_thread_id = (if acp_session_id stored = [] then None else Some i),
      tr_reuse_thread_id = (if acp_session_id stored = [] then Some i else None)\<rparr>"

definition turn_start :: "host \<Rightarrow> nat \<Rightarrow> admission_timing \<Rightarrow> json \<Rightarrow> string \<Rightarrow> (string, json) sys_action" where
  "turn_start host self timing params home =
     and_then (of_result (turn_start_checks params)) (\<lambda>(i, prompt).
     and_then (open_here host self home) (\<lambda>h.
     and_then (call host h (read_thread i)) (\<lambda>stored.
     and_then (of_result (turn_sandbox host params stored)) (\<lambda>sandbox.
     and_then (of_result (chosen_policy host params (thread_approval_policy stored))) (\<lambda>approval.
     and_then (of_result (optional_text_field params ''model'')) (\<lambda>model.
     and_then (of_result (optional_text_field params ''effort'')) (\<lambda>effort.
     and_then (admit_request host self h (turn_start_request host stored i prompt approval sandbox model effort) timing
                 ''turn/start did not admit a turn'') (\<lambda>t.
     ok (turn_result t)))))))))"

definition turn_interrupt :: "host \<Rightarrow> nat \<Rightarrow> json \<Rightarrow> string \<Rightarrow> (string, json) sys_action" where
  "turn_interrupt host self params home =
     and_then (of_result (reject_unenforceable_extras params)) (\<lambda>_.
     and_then (of_result (required_str params ''threadId'' ''threadId required'')) (\<lambda>th.
     and_then (of_result (required_str params ''turnId'' ''turnId required'')) (\<lambda>i.
     with_ledger (open_here host self home) self (\<lambda>h.
       and_then (call host h (read_turn i)) (\<lambda>t.
         if turn_thread_id t \<noteq> th then err ''turn does not belong to thread''
         else and_then (cancel_turn host self h i) (\<lambda>t'. ok (turn_result t')))))))"

section \<open>Dispatch\<close>

definition as_reply :: "json \<Rightarrow> (string, json) sys_action \<Rightarrow> sys \<Rightarrow> json option \<times> sys" where
  "as_reply i m s = (case m s of (r, s') \<Rightarrow> (Some (rpc_result i r), s'))"

definition thread_read_reply :: "json \<Rightarrow> (thread_read_error, json) sys_action \<Rightarrow> sys \<Rightarrow> json option \<times> sys" where
  "thread_read_reply i m s =
     (case m s of
        (Inr v, s') \<Rightarrow> (Some (rpc_ok i v), s')
      | (Inl (Absent message), s') \<Rightarrow> (Some (rpc_error i INVALID_REQUEST message), s')
      | (Inl (OtherError message), s') \<Rightarrow> (Some (rpc_error i METHOD_NOT_FOUND message), s'))"

definition asks_for_ccas :: "string \<Rightarrow> json \<Rightarrow> bool" where
  "asks_for_ccas m params \<longleftrightarrow>
     m = ''capabilities.ccas'' \<or> Option.bind (json_get params ''capabilities'') (\<lambda>c. json_get c ''ccas'') \<noteq> None"

definition dispatch ::
  "host \<Rightarrow> (string \<Rightarrow> string option) \<Rightarrow> nat \<Rightarrow> admission_timing \<Rightarrow> string \<Rightarrow> string \<Rightarrow> json \<Rightarrow> json \<Rightarrow> sys \<Rightarrow> json option \<times> sys" where
  "dispatch host read self timing home m params i s =
     (if asks_for_ccas m params then (Some (rpc_error i METHOD_NOT_FOUND ''capabilities.ccas''), s)
      else if m = ''initialize'' then
        (if opt_out_is_nonempty params
         then (Some (rpc_error i METHOD_NOT_FOUND ''optOutNotificationMethods must be empty''), s)
         else (Some (rpc_ok i initialize_result), s))
      else if m = ''account/read'' then (Some (rpc_ok i (JObj [(''requiresOpenaiAuth'', JBool False)])), s)
      else if m = ''model/list'' then (Some (rpc_ok i (model_list_result host read)), s)
      else if m = GROK_RUNTIME_READ then
        (if (case as_object params of None \<Rightarrow> True | Some kvs \<Rightarrow> kvs \<noteq> [])
         then (Some (rpc_error i METHOD_NOT_FOUND ''grok/runtime/read takes no params''), s)
         else (Some (rpc_ok i (grok_runtime_read home)), s))
      else if m = ''thread/fork'' then (Some (rpc_error i METHOD_NOT_FOUND ''thread/fork''), s)
      else if m = ''thread/start'' then as_reply i (thread_start host self params home) s
      else if m = ''thread/resume'' then as_reply i (thread_resume host self params home) s
      else if m = ''thread/read'' then thread_read_reply i (thread_read host self params home) s
      else if m = ''turn/start'' then as_reply i (turn_start host self timing params home) s
      else if m = ''turn/interrupt'' then as_reply i (turn_interrupt host self params home) s
      else (Some (rpc_error i METHOD_NOT_FOUND m), s))"

definition handle_rpc ::
  "host \<Rightarrow> (string \<Rightarrow> string option) \<Rightarrow> nat \<Rightarrow> admission_timing \<Rightarrow> json \<Rightarrow> string \<Rightarrow> sys \<Rightarrow> json option \<times> sys" where
  "handle_rpc host read self timing msg home s =
     (case get_str msg ''method'' of
        None \<Rightarrow> (None, s)
      | Some m \<Rightarrow>
          (case json_get msg ''id'' of
             None \<Rightarrow> (None, s)
           | Some i \<Rightarrow>
               dispatch host read self timing home m
                 (case json_get msg ''params'' of Some p \<Rightarrow> p | None \<Rightarrow> JObj []) i s))"

end
