(* ===== verification/AppWatch.thy ===== *)
theory AppWatch
  imports AppServer LedgerOps
begin

text \<open>
  \<^verbatim>\<open>crates/gamchi/src/app_server.rs\<close>, after a reply: notifications of a turn's items and of its
  end, approval requests over the socket and the delivery of their answers, and the loop over the
  messages of one connection.

  The writer is the list of messages written so far; \<open>peer_open\<close> says whether writes succeed. A
  pending approval is a one-slot channel named by its request number: it is registered until the
  answer is delivered.
\<close>

record conn_io =
  written :: "json list"
  peer_open :: bool
  registered :: "string list"
  delivered :: "(string \<times> json) list"
  next_id :: "64 word"

definition new_conn_io :: conn_io where
  "new_conn_io = \<lparr>written = [], peer_open = True, registered = [], delivered = [], next_id = 1000\<rparr>"

definition write_locked :: "json \<Rightarrow> conn_io \<Rightarrow> bool \<times> conn_io" where
  "write_locked msg io = (if peer_open io then (True, io\<lparr>written := written io @ [msg]\<rparr>) else (False, io))"

definition deliver_pending :: "host \<Rightarrow> json \<Rightarrow> conn_io \<Rightarrow> conn_io" where
  "deliver_pending host msg io =
     (case json_get msg ''id'' of
        None \<Rightarrow> io
      | Some i \<Rightarrow>
          (let key = json_to_text host i in
           if key \<in> set (registered io)
           then io\<lparr>registered := remove1 key (registered io), delivered := (key, msg) # delivered io\<rparr>
           else io))"

section \<open>Item notifications\<close>

definition item_note :: "string \<Rightarrow> string \<Rightarrow> string \<Rightarrow> turn \<Rightarrow> u64 \<Rightarrow> item \<Rightarrow> json" where
  "item_note notify th stamp t at_ms it =
     JObj [(''method'', JStr notify),
           (''params'', JObj [(''threadId'', JStr th), (''turnId'', JStr (turn_id t)), (stamp, JNum (PosInt at_ms)), (''item'', item_obj it)])]"

definition started_note :: "string \<Rightarrow> turn \<Rightarrow> u64 \<Rightarrow> item \<Rightarrow> json" where
  "started_note th t at_ms it = item_note NOTIFY_ITEM_STARTED th ''startedAtMs'' t at_ms it"

definition completed_note :: "string \<Rightarrow> turn \<Rightarrow> u64 \<Rightarrow> item \<Rightarrow> json" where
  "completed_note th t at_ms it = item_note NOTIFY_ITEM_COMPLETED th ''completedAtMs'' t at_ms it"

record watch =
  w_started :: "string list"
  w_completed :: "string list"

definition item_terminal :: "item \<Rightarrow> bool" where
  "item_terminal it \<longleftrightarrow> item_status it = ''completed'' \<or> item_status it = ''failed''"

type_synonym watching = "watch \<times> conn_io"

text \<open>The identifier goes into the set before the write: a failed write is not tried again.\<close>

definition note_started :: "string \<Rightarrow> turn \<Rightarrow> u64 \<Rightarrow> item \<Rightarrow> watching \<Rightarrow> bool \<times> watching" where
  "note_started th t at_ms it ws =
     (case ws of (w, io) \<Rightarrow>
        if item_id it \<in> set (w_started w) then (True, ws)
        else
          let (sent, io') = write_locked (started_note th t at_ms it) io in
          (sent, w\<lparr>w_started := item_id it # w_started w\<rparr>, io'))"

definition note_completed :: "string \<Rightarrow> turn \<Rightarrow> u64 \<Rightarrow> item \<Rightarrow> watching \<Rightarrow> bool \<times> watching" where
  "note_completed th t at_ms it ws =
     (case ws of (w, io) \<Rightarrow>
        if \<not> item_terminal it \<or> item_id it \<in> set (w_completed w) then (True, ws)
        else
          let (sent, io') = write_locked (completed_note th t at_ms it) io in
          (sent, w\<lparr>w_completed := item_id it # w_completed w\<rparr>, io'))"

fun emit_items :: "string \<Rightarrow> turn \<Rightarrow> u64 \<Rightarrow> item list \<Rightarrow> watching \<Rightarrow> watching" where
  "emit_items th t at_ms [] ws = ws"
| "emit_items th t at_ms (it # its) ws =
     (case note_started th t at_ms it ws of
        (False, ws') \<Rightarrow> ws'
      | (True, ws') \<Rightarrow>
          (case note_completed th t at_ms it ws' of
             (False, ws'') \<Rightarrow> ws''
           | (True, ws'') \<Rightarrow> emit_items th t at_ms its ws''))"

definition emit_item_notifications :: "string \<Rightarrow> u64 \<Rightarrow> turn \<Rightarrow> watching \<Rightarrow> watching" where
  "emit_item_notifications th at_ms t ws = emit_items th t at_ms (turn_items t) ws"

section \<open>Approval requests\<close>

record pending_socket_approval =
  pa_request_id :: string
  pa_rpc_id :: string

definition approval_item :: "turn \<Rightarrow> item option" where
  "approval_item t =
     List.find (\<lambda>it. item_type it = ITEM_COMMAND_EXECUTION \<or> item_type it = ITEM_FILE_CHANGE) (rev (turn_items t))"

definition approval_method :: "turn \<Rightarrow> string" where
  "approval_method t =
     (case approval_item t of
        Some it \<Rightarrow> if item_type it = ITEM_FILE_CHANGE then REQUEST_FILE_CHANGE_APPROVAL else REQUEST_COMMAND_APPROVAL
      | None \<Rightarrow> REQUEST_COMMAND_APPROVAL)"

definition approval_item_id :: "turn \<Rightarrow> string" where
  "approval_item_id t =
     (case approval_item t of
        Some it \<Rightarrow> item_id it
      | None \<Rightarrow> if turn_items t = [] then turn_id t else item_id (last (turn_items t)))"

text \<open>\<open>to_string\<close> of an \<open>i64\<close>.\<close>

definition i64_text :: "64 word \<Rightarrow> string" where
  "i64_text n = (if sint n < 0 then ''-'' @ to_dec (nat (- sint n)) else to_dec (nat (sint n)))"

definition start_socket_approval :: "string \<Rightarrow> u64 \<Rightarrow> turn \<Rightarrow> conn_io \<Rightarrow> pending_socket_approval option \<times> conn_io" where
  "start_socket_approval th at_ms t io =
     (let i = next_id io; rpc_id = i64_text i;
          io1 = io\<lparr>next_id := i + 1, registered := List.insert rpc_id (registered io)\<rparr>;
          req = JObj [(''id'', json_int (sint i)), (''method'', JStr (approval_method t)),
                      (''params'', JObj [(''itemId'', JStr (approval_item_id t)), (''startedAtMs'', JNum (PosInt at_ms)),
                                          (''threadId'', JStr th), (''turnId'', JStr (turn_id t))])];
          (sent, io2) = write_locked req io1 in
      if sent then (Some \<lparr>pa_request_id = pending_request_id t, pa_rpc_id = rpc_id\<rparr>, io2)
      else (None, io2\<lparr>registered := removeAll rpc_id (registered io2)\<rparr>))"

section \<open>The watch of a turn\<close>

datatype recv = Received json | Empty | Disconnected

definition try_recv :: "string \<Rightarrow> conn_io \<Rightarrow> recv \<times> conn_io" where
  "try_recv rpc_id io =
     (case map_of (delivered io) rpc_id of
        Some msg \<Rightarrow> (Received msg, io\<lparr>delivered := AList.delete rpc_id (delivered io)\<rparr>)
      | None \<Rightarrow> (if rpc_id \<in> set (registered io) then Empty else Disconnected, io))"

record watch_state = watch +
  last_request :: string
  waiting :: "pending_socket_approval option"

definition reply_decision :: "json \<Rightarrow> approval_decision option" where
  "reply_decision reply =
     (case Option.bind (Option.bind (json_get reply ''result'') (\<lambda>r. json_get r ''decision'')) as_str of
        None \<Rightarrow> None
      | Some d \<Rightarrow> (case parse_approval_decision d of Inr x \<Rightarrow> Some x | Inl _ \<Rightarrow> None))"

text \<open>One look at the channel of the approval that is waited for.\<close>

definition poll_approval :: "nat \<Rightarrow> watch_state \<times> conn_io \<times> ledger \<Rightarrow> watch_state \<times> conn_io \<times> ledger" where
  "poll_approval self x =
     (case x of (w, io, l) \<Rightarrow>
        case waiting w of
          None \<Rightarrow> x
        | Some ap \<Rightarrow>
            (case try_recv (pa_rpc_id ap) io of
               (Received reply, io') \<Rightarrow>
                 (w\<lparr>waiting := None\<rparr>, io',
                  (case reply_decision reply of
                     Some d \<Rightarrow> snd (respond self (pa_request_id ap) d l)
                   | None \<Rightarrow> l))
             | (Empty, io') \<Rightarrow> (w, io', l)
             | (Disconnected, io') \<Rightarrow>
                 (w\<lparr>waiting := None\<rparr>, io'\<lparr>registered := removeAll (pa_rpc_id ap) (registered io')\<rparr>, l)))"

definition request_approval :: "string \<Rightarrow> u64 \<Rightarrow> turn \<Rightarrow> watch_state \<times> conn_io \<Rightarrow> watch_state \<times> conn_io" where
  "request_approval th at_ms t x =
     (case x of (w, io) \<Rightarrow>
        if pending_approval t \<and> waiting w = None \<and> pending_request_id t \<noteq> last_request w then
          (case start_socket_approval th at_ms t io of
             (Some ap, io') \<Rightarrow> (w\<lparr>last_request := pa_request_id ap, waiting := Some ap\<rparr>, io')
           | (None, io') \<Rightarrow> (w, io'))
        else x)"

definition turn_completed_note :: "string \<Rightarrow> turn \<Rightarrow> json" where
  "turn_completed_note th t =
     JObj [(''method'', JStr NOTIFY_TURN_COMPLETED), (''params'', JObj [(''threadId'', JStr th), (''turn'', turn_obj t)])]"

definition emit_in_watch :: "string \<Rightarrow> u64 \<Rightarrow> turn \<Rightarrow> watch_state \<times> conn_io \<Rightarrow> watch_state \<times> conn_io" where
  "emit_in_watch th at_ms t x =
     (case x of (w, io) \<Rightarrow>
        case emit_item_notifications th at_ms t (\<lparr>w_started = w_started w, w_completed = w_completed w\<rparr>, io) of
          (w', io') \<Rightarrow> (w\<lparr>w_started := w_started w', w_completed := w_completed w'\<rparr>, io'))"

text \<open>One round of the loop: the state, and whether the watch is over.\<close>

definition watch_round :: "nat \<Rightarrow> string \<Rightarrow> string \<Rightarrow> u64 \<Rightarrow> watch_state \<times> conn_io \<times> ledger \<Rightarrow> bool \<times> watch_state \<times> conn_io \<times> ledger" where
  "watch_round self th i at_ms x =
     (case x of (w, io, l) \<Rightarrow>
        case observe self i l of
          (Inl _, l') \<Rightarrow> (False, w, io, l')
        | (Inr t, l') \<Rightarrow>
            (case emit_in_watch th at_ms t (w, io) of
               (w1, io1) \<Rightarrow>
                 if is_terminal (turn_status t) then
                   (case emit_in_watch th at_ms t (w1, io1) of
                      (w2, io2) \<Rightarrow> (True, w2, snd (write_locked (turn_completed_note th t) io2), l'))
                 else
                   (case poll_approval self (w1, io1, l') of
                      (w2, io2, l2) \<Rightarrow>
                        (case request_approval th at_ms t (w2, io2) of (w3, io3) \<Rightarrow> (False, w3, io3, l2)))))"

text \<open>
  The loop, under a schedule of what happens in the sleeps between rounds; \<open>None\<close> when the schedule
  ends and the watch is not over.
\<close>

fun watch_turn ::
  "nat \<Rightarrow> string \<Rightarrow> string \<Rightarrow> (u64 \<times> (conn_io \<times> ledger \<Rightarrow> conn_io \<times> ledger)) list \<Rightarrow>
   watch_state \<times> conn_io \<times> ledger \<Rightarrow> (watch_state \<times> conn_io \<times> ledger) option" where
  "watch_turn self th i [] x = None"
| "watch_turn self th i ((at_ms, env) # sched) x =
     (case watch_round self th i at_ms x of
        (True, x') \<Rightarrow> Some x'
      | (False, (w, io, l)) \<Rightarrow> watch_turn self th i sched (w, env (io, l)))"

text \<open>The thread of a watch: it opens the home of the server, starts with nothing announced and drops its ledger at the end.\<close>

definition new_watch :: watch_state where
  "new_watch = \<lparr>w_started = [], w_completed = [], last_request = [], waiting = None\<rparr>"

definition run_watch ::
  "host \<Rightarrow> nat \<Rightarrow> string \<Rightarrow> string \<Rightarrow> string \<Rightarrow> (u64 \<times> (conn_io \<times> ledger \<Rightarrow> conn_io \<times> ledger)) list \<Rightarrow>
   conn_io \<times> sys \<Rightarrow> (conn_io \<times> sys) option" where
  "run_watch host self home th i sched x =
     (case x of (io, s) \<Rightarrow>
        case open_ledger host self (Some home) s of
          (Inl e, s1) \<Rightarrow> Some (io, s1)
        | (Inr h, s1) \<Rightarrow>
            (case watch_turn self th i sched (new_watch, io, homes s1 h) of
               None \<Rightarrow> None
             | Some (w, io', l) \<Rightarrow> Some (io', s1\<lparr>homes := (homes s1)(h := drop_ledger self l)\<rparr>)))"

section \<open>What follows a reply\<close>

text \<open>The thread that is to be watched, if the request started a turn.\<close>

definition pointer2 :: "json \<Rightarrow> string \<Rightarrow> string \<Rightarrow> string \<Rightarrow> string option" where
  "pointer2 v a b c = Option.bind (Option.bind (Option.bind (json_get v a) (\<lambda>x. json_get x b)) (\<lambda>x. json_get x c)) as_str"

definition after_rpc :: "json \<Rightarrow> json \<Rightarrow> conn_io \<Rightarrow> (string \<times> string) option \<times> conn_io" where
  "after_rpc req reply io =
     (if json_get reply ''error'' \<noteq> None then (None, io)
      else
        let m = (case get_str req ''method'' of Some x \<Rightarrow> x | None \<Rightarrow> []) in
        if m = ''thread/start'' then
          (case pointer2 reply ''result'' ''thread'' ''id'' of
             Some i \<Rightarrow>
               (None, snd (write_locked (JObj [(''method'', JStr NOTIFY_THREAD_STARTED),
                  (''params'', JObj [(''thread'', JObj [(''id'', JStr i)])])]) io))
           | None \<Rightarrow> (None, io))
        else if m = ''turn/start'' then
          (case pointer2 reply ''result'' ''turn'' ''id'' of
             None \<Rightarrow> (None, io)
           | Some i \<Rightarrow>
               (case Option.bind (Option.bind (json_get req ''params'') (\<lambda>p. json_get p ''threadId'')) as_str of
                  None \<Rightarrow> (None, io)
                | Some th \<Rightarrow> (Some (th, i), io)))
        else (None, io))"

text \<open>
  One text message of a connection: an answer to an approval, or a request. The result says
  whether the connection goes on, and the watch to start.
\<close>

definition on_message ::
  "host \<Rightarrow> (string \<Rightarrow> string option) \<Rightarrow> nat \<Rightarrow> admission_timing \<Rightarrow> string \<Rightarrow> string \<Rightarrow> conn_io \<times> sys \<Rightarrow> bool \<times> (string \<times> string) option \<times> conn_io \<times> sys" where
  "on_message host read self timing home text x =
     (case x of (io, s) \<Rightarrow>
        case json_of_text host text of
          None \<Rightarrow> (True, None, x)
        | Some msg \<Rightarrow>
            if get_str msg ''method'' = None then (True, None, deliver_pending host msg io, s)
            else (case handle_rpc host read self timing msg home s of
                    (None, s') \<Rightarrow> (True, None, io, s')
                  | (Some reply, s') \<Rightarrow>
                      (case write_locked reply io of
                         (False, io') \<Rightarrow> (False, None, io', s')
                       | (True, io') \<Rightarrow> (case after_rpc msg reply io' of (watch, io'') \<Rightarrow> (True, watch, io'', s')))))"

text \<open>
  The messages of a connection, each with the number of the \<open>Ledger\<close> value it opens and the timing of an
  admission it asks for. The result lists the watches that were started.
\<close>

fun rpc_loop ::
  "host \<Rightarrow> (string \<Rightarrow> string option) \<Rightarrow> string \<Rightarrow> (nat \<times> admission_timing \<times> string) list \<Rightarrow> conn_io \<times> sys \<Rightarrow> (string \<times> string) list \<times> conn_io \<times> sys" where
  "rpc_loop host read home [] x = ([], x)"
| "rpc_loop host read home ((self, timing, text) # texts) x =
     (case on_message host read self timing home text x of
        (False, watch, x') \<Rightarrow> ([], x')
      | (True, watch, x') \<Rightarrow>
          (case rpc_loop host read home texts x' of
             (ws, x'') \<Rightarrow> ((case watch of None \<Rightarrow> ws | Some w \<Rightarrow> w # ws), x'')))"

end
