(* ===== verification/AppProps.thy ===== *)
theory AppProps
  imports AppWatch RunTurnProps
begin

text \<open>
  What the app server of \<^verbatim>\<open>crates/gamchi/src/app_server.rs\<close> and the shared operations of
  \<^verbatim>\<open>ops.rs\<close> guarantee: the shape of replies, requests that are refused untouched, item notifications
  in order and once, and what cancelling does to the agent's process.
\<close>

section \<open>Replies\<close>

definition well_formed_reply :: "json \<Rightarrow> json \<Rightarrow> bool" where
  "well_formed_reply i reply \<longleftrightarrow>
     (\<exists>v. reply = rpc_ok i v) \<or> (\<exists>c m. c \<in> {INVALID_REQUEST, METHOD_NOT_FOUND} \<and> reply = rpc_error i c m)"

lemma well_formed_simps [simp]:
  "well_formed_reply i (rpc_ok i v)" "well_formed_reply i (rpc_error i METHOD_NOT_FOUND m)"
  "well_formed_reply i (rpc_error i INVALID_REQUEST m)" "well_formed_reply i (rpc_result i r)"
  by (auto simp: well_formed_reply_def rpc_result_def split: sum.split)

lemma as_reply_shape: "\<exists>reply. fst (as_reply i m s) = Some reply \<and> well_formed_reply i reply"
  by (simp add: as_reply_def split: prod.split)

lemma thread_read_reply_shape: "\<exists>reply. fst (thread_read_reply i m s) = Some reply \<and> well_formed_reply i reply"
  by (auto simp: thread_read_reply_def split: prod.split sum.split thread_read_error.split)

lemma dispatch_shape: "\<exists>reply. fst (dispatch host read self timing home m params i s) = Some reply \<and> well_formed_reply i reply"
  unfolding dispatch_def
  using as_reply_shape [of i] thread_read_reply_shape [of i]
  by (simp del: split_paired_Ex)

text \<open>C35: every request with a method and an identifier gets exactly one reply, which repeats the identifier and
  holds either a result or an error with one of the two codes in use; anything else gets none.\<close>

theorem rpc_reply_shape:
  "(case fst (handle_rpc host read self timing msg home s) of
      None \<Rightarrow> get_str msg ''method'' = None \<or> json_get msg ''id'' = None
    | Some reply \<Rightarrow>
        get_str msg ''method'' \<noteq> None \<and>
        (\<exists>i. json_get msg ''id'' = Some i \<and>
          ((\<exists>v. reply = rpc_ok i v) \<or> (\<exists>c m. c \<in> {INVALID_REQUEST, METHOD_NOT_FOUND} \<and> reply = rpc_error i c m))))"
proof (cases "get_str msg ''method''")
  case None
  then show ?thesis by (simp add: handle_rpc_def)
next
  case (Some m)
  show ?thesis
  proof (cases "json_get msg ''id''")
    case None
    then show ?thesis using Some by (simp add: handle_rpc_def)
  next
    case (Some i)
    obtain reply where "fst (handle_rpc host read self timing msg home s) = Some reply" "well_formed_reply i reply"
      using dispatch_shape [of host read self timing home m _ i s] \<open>get_str msg ''method'' = Some m\<close> Some
      by (fastforce simp: handle_rpc_def)
    then show ?thesis using Some \<open>get_str msg ''method'' = Some m\<close> by (simp add: well_formed_reply_def)
  qed
qed

lemma some_error [simp]: "\<exists>msg. rpc_error i c e = rpc_error i c msg"
  by blast

section \<open>Refused before anything happens\<close>

lemma reject_fields_present:
  "field \<in> set fs \<Longrightarrow> json_get v field \<noteq> None \<Longrightarrow> \<exists>e. reject_fields fs v = Inl e"
  by (induction fs) auto

text \<open>Each method that takes a thread or a turn starts with this check.\<close>

lemma refused_thread_start: "reject_unenforceable_extras params = Inl e \<Longrightarrow> thread_start host self params home s = (Inl e, s)"
  by (simp add: thread_start_def and_then_def of_result_def)

lemma refused_thread_resume: "reject_unenforceable_extras params = Inl e \<Longrightarrow> thread_resume host self params home s = (Inl e, s)"
  by (simp add: thread_resume_def and_then_def of_result_def)

lemma refused_thread_read:
  "reject_unenforceable_extras params = Inl e \<Longrightarrow> thread_read host self params home s = (Inl (OtherError e), s)"
  by (simp add: thread_read_def and_then_def of_result_def map_err_def)

lemma refused_turn_start: "reject_unenforceable_extras params = Inl e \<Longrightarrow> turn_start host self timing params home s = (Inl e, s)"
  by (simp add: turn_start_def turn_start_checks_def and_then_def of_result_def)

lemma refused_turn_interrupt: "reject_unenforceable_extras params = Inl e \<Longrightarrow> turn_interrupt host self params home s = (Inl e, s)"
  by (simp add: turn_interrupt_def and_then_def of_result_def)

definition thread_methods :: "string list" where
  "thread_methods = [''thread/start'', ''thread/resume'', ''thread/read'', ''turn/start'', ''turn/interrupt'']"

lemma dispatch_thread_methods:
  assumes "\<not> asks_for_ccas m params"
  shows "m = ''thread/start'' \<Longrightarrow>
      dispatch host read self timing home m params i s = as_reply i (thread_start host self params home) s"
    and "m = ''thread/resume'' \<Longrightarrow>
      dispatch host read self timing home m params i s = as_reply i (thread_resume host self params home) s"
    and "m = ''thread/read'' \<Longrightarrow>
      dispatch host read self timing home m params i s = thread_read_reply i (thread_read host self params home) s"
    and "m = ''turn/start'' \<Longrightarrow>
      dispatch host read self timing home m params i s = as_reply i (turn_start host self timing params home) s"
    and "m = ''turn/interrupt'' \<Longrightarrow>
      dispatch host read self timing home m params i s = as_reply i (turn_interrupt host self params home) s"
  using assms by (simp_all add: dispatch_def GROK_RUNTIME_READ_def)

lemma refused_dispatch:
  assumes "reject_unenforceable_extras params = Inl e" "m \<in> set thread_methods"
  shows "\<exists>msg. dispatch host read self timing home m params i s = (Some (rpc_error i METHOD_NOT_FOUND msg), s)"
proof (cases "asks_for_ccas m params")
  case True
  then show ?thesis by (simp add: dispatch_def)
next
  case False
  note d = dispatch_thread_methods [OF False, where host = host and read = read and self = self and timing = timing
      and home = home and i = i and s = s]
  let ?refusal = "(Some (rpc_error i METHOD_NOT_FOUND e), s)"
  have "as_reply i (thread_start host self params home) s = ?refusal"
    "as_reply i (thread_resume host self params home) s = ?refusal"
    "thread_read_reply i (thread_read host self params home) s = ?refusal"
    "as_reply i (turn_start host self timing params home) s = ?refusal"
    "as_reply i (turn_interrupt host self params home) s = ?refusal"
    using assms(1) by (simp_all add: as_reply_def rpc_result_def thread_read_reply_def refused_thread_start
        refused_thread_resume refused_thread_read refused_turn_start refused_turn_interrupt)
  then have "dispatch host read self timing home m params i s = ?refusal"
    using assms(2) d unfolding thread_methods_def by (metis empty_iff insert_iff list.set)
  then show ?thesis by blast
qed


definition sample_refused :: json where
  "sample_refused = JObj [(''id'', json_int 7), (''method'', JStr ''turn/start''),
     (''params'', JObj [(''threadId'', JStr ''th1''), (''networkAccess'', JBool True)])]"


section \<open>Item notifications\<close>

text \<open>What a notification announces: its method and the item's identifier.\<close>

definition note_key :: "json \<Rightarrow> string \<times> string" where
  "note_key v =
     (case (get_str v ''method'', Option.bind (Option.bind (json_get v ''params'') (\<lambda>p. json_get p ''item'')) (\<lambda>x. get_str x ''id'')) of
        (Some m, Some i) \<Rightarrow> (m, i)
      | _ \<Rightarrow> ([], []))"

lemma note_key_notes [simp]:
  "stamp \<noteq> ''item'' \<Longrightarrow> note_key (item_note m th stamp t at_ms it) = (m, item_id it)"
  "note_key (started_note th t at_ms it) = (NOTIFY_ITEM_STARTED, item_id it)"
  "note_key (completed_note th t at_ms it) = (NOTIFY_ITEM_COMPLETED, item_id it)"
  by (simp_all add: note_key_def started_note_def completed_note_def item_note_def item_obj_def get_str_def)

lemma notify_distinct [simp]: "NOTIFY_ITEM_STARTED \<noteq> NOTIFY_ITEM_COMPLETED" "NOTIFY_ITEM_COMPLETED \<noteq> NOTIFY_ITEM_STARTED"
  by (simp_all add: NOTIFY_ITEM_STARTED_def NOTIFY_ITEM_COMPLETED_def)

definition started_first :: "(string \<times> string) list \<Rightarrow> bool" where
  "started_first ks \<longleftrightarrow>
     (\<forall>pre i post. ks = pre @ (NOTIFY_ITEM_COMPLETED, i) # post \<longrightarrow> (NOTIFY_ITEM_STARTED, i) \<in> set pre)"

lemma started_first_Nil [simp]: "started_first []"
  by (simp add: started_first_def)

lemma started_first_snoc:
  "started_first (ks @ [(m, i)]) \<longleftrightarrow> started_first ks \<and> (m = NOTIFY_ITEM_COMPLETED \<longrightarrow> (NOTIFY_ITEM_STARTED, i) \<in> set ks)"
  (is "?l \<longleftrightarrow> ?r")
proof
  assume ?l
  then show ?r unfolding started_first_def by (metis append.assoc append_Cons)
next
  assume r: ?r
  have "(NOTIFY_ITEM_STARTED, j) \<in> set pre" if "ks @ [(m, i)] = pre @ (NOTIFY_ITEM_COMPLETED, j) # post" for pre j post
  proof (cases post rule: rev_cases)
    case Nil
    then show ?thesis using that r by simp
  next
    case (snoc post' k)
    then have "ks = pre @ (NOTIFY_ITEM_COMPLETED, j) # post'" using that by simp
    then show ?thesis using r by (simp add: started_first_def)
  qed
  then show ?l by (simp add: started_first_def)
qed

text \<open>
  What was announced since a watch began, in step with its two sets: \<open>st\<close> are the items it has
  seen, \<open>fin\<close> those it has seen ended.
\<close>

definition announced :: "conn_io \<Rightarrow> string set \<Rightarrow> string set \<Rightarrow> watching \<Rightarrow> bool" where
  "announced io0 st fin ws \<longleftrightarrow>
     set (w_started (fst ws)) = st \<and> set (w_completed (fst ws)) = fin \<and>
     (\<exists>ns. snd ws = io0\<lparr>written := written io0 @ ns\<rparr> \<and> distinct (map note_key ns) \<and>
       started_first (map note_key ns) \<and>
       set (map note_key ns) = Pair NOTIFY_ITEM_STARTED ` st \<union> Pair NOTIFY_ITEM_COMPLETED ` fin)"

lemma note_started_announced:
  assumes "peer_open io0" "announced io0 st fin ws"
  shows "\<exists>ws'. note_started th t at_ms it ws = (True, ws') \<and> announced io0 (insert (item_id it) st) fin ws'"
proof (cases "item_id it \<in> st")
  case True
  then show ?thesis using assms by (auto simp: note_started_def announced_def insert_absorb split: prod.split)
next
  case False
  obtain w io where ws: "ws = (w, io)" by fastforce
  obtain ns where n: "io = io0\<lparr>written := written io0 @ ns\<rparr>" "distinct (map note_key ns)" "started_first (map note_key ns)"
    "set (map note_key ns) = Pair NOTIFY_ITEM_STARTED ` st \<union> Pair NOTIFY_ITEM_COMPLETED ` fin"
    and w: "set (w_started w) = st" "set (w_completed w) = fin"
    using assms(2) by (auto simp: announced_def ws)
  have "announced io0 (insert (item_id it) st) fin
      (w\<lparr>w_started := item_id it # w_started w\<rparr>, io0\<lparr>written := written io0 @ ns @ [started_note th t at_ms it]\<rparr>)"
    unfolding announced_def
  proof (intro conjI exI [of _ "ns @ [started_note th t at_ms it]"])
    show "distinct (map note_key (ns @ [started_note th t at_ms it]))"
      using n(2) n(4) False by (auto simp del: set_map)
    show "started_first (map note_key (ns @ [started_note th t at_ms it]))"
      using n(3) by (simp add: started_first_snoc)
    show "set (map note_key (ns @ [started_note th t at_ms it]))
      = Pair NOTIFY_ITEM_STARTED ` insert (item_id it) st \<union> Pair NOTIFY_ITEM_COMPLETED ` fin"
      using n(4) by (simp del: set_map)
  qed (simp_all add: w)
  then show ?thesis using False assms(1) by (simp add: note_started_def ws w n(1) write_locked_def)
qed

lemma note_completed_announced:
  assumes "peer_open io0" "announced io0 st fin ws" "item_id it \<in> st"
  shows "\<exists>ws'. note_completed th t at_ms it ws = (True, ws') \<and>
    announced io0 st (if item_terminal it then insert (item_id it) fin else fin) ws'"
proof (cases "\<not> item_terminal it \<or> item_id it \<in> fin")
  case True
  then show ?thesis using assms by (auto simp: note_completed_def announced_def insert_absorb split: prod.split)
next
  case False
  obtain w io where ws: "ws = (w, io)" by fastforce
  obtain ns where n: "io = io0\<lparr>written := written io0 @ ns\<rparr>" "distinct (map note_key ns)" "started_first (map note_key ns)"
    "set (map note_key ns) = Pair NOTIFY_ITEM_STARTED ` st \<union> Pair NOTIFY_ITEM_COMPLETED ` fin"
    and w: "set (w_started w) = st" "set (w_completed w) = fin"
    using assms(2) by (auto simp: announced_def ws)
  have "announced io0 st (insert (item_id it) fin)
      (w\<lparr>w_completed := item_id it # w_completed w\<rparr>, io0\<lparr>written := written io0 @ ns @ [completed_note th t at_ms it]\<rparr>)"
    unfolding announced_def
  proof (intro conjI exI [of _ "ns @ [completed_note th t at_ms it]"])
    show "distinct (map note_key (ns @ [completed_note th t at_ms it]))"
      using n(2) n(4) False by (auto simp del: set_map)
    show "started_first (map note_key (ns @ [completed_note th t at_ms it]))"
      using n(3) n(4) assms(3) by (simp add: started_first_snoc del: set_map)
    show "set (map note_key (ns @ [completed_note th t at_ms it]))
      = Pair NOTIFY_ITEM_STARTED ` st \<union> Pair NOTIFY_ITEM_COMPLETED ` insert (item_id it) fin"
      using n(4) by (simp del: set_map)
  qed (simp_all add: w)
  then show ?thesis using False assms(1) by (simp add: note_completed_def ws w n(1) write_locked_def)
qed

lemma emit_items_announced:
  assumes "peer_open io0" "announced io0 st fin ws"
  shows "announced io0 (st \<union> item_id ` set its) (fin \<union> item_id ` {it \<in> set its. item_terminal it}) (emit_items th t at_ms its ws)"
  using assms(2)
proof (induction its arbitrary: st fin ws)
  case Nil
  then show ?case by simp
next
  case (Cons it its)
  obtain ws1 where 1: "note_started th t at_ms it ws = (True, ws1)" "announced io0 (insert (item_id it) st) fin ws1"
    using note_started_announced [OF assms(1) Cons.prems] by blast
  obtain ws2 where 2: "note_completed th t at_ms it ws1 = (True, ws2)"
    "announced io0 (insert (item_id it) st) (if item_terminal it then insert (item_id it) fin else fin) ws2"
    using note_completed_announced [OF assms(1) 1(2)] by blast
  have "insert (item_id it) st \<union> item_id ` set its = st \<union> item_id ` set (it # its)"
    "(if item_terminal it then insert (item_id it) fin else fin) \<union> item_id ` {x \<in> set its. item_terminal x}
      = fin \<union> item_id ` {x \<in> set (it # its). item_terminal x}"
    by auto
  then show ?case using Cons.IH [OF 2(2)] by (simp add: 1(1) 2(1))
qed

lemma emit_snapshots_announced:
  assumes "peer_open io0" "announced io0 st fin ws"
  shows "announced io0 (st \<union> item_id ` (\<Union>(_, t) \<in> set snaps. set (turn_items t)))
     (fin \<union> item_id ` {it \<in> (\<Union>(_, t) \<in> set snaps. set (turn_items t)). item_terminal it})
     (fold (\<lambda>(at_ms, t). emit_item_notifications th at_ms t) snaps ws)"
  using assms(2)
proof (induction snaps arbitrary: st fin ws)
  case Nil
  then show ?case by simp
next
  case (Cons snap snaps)
  obtain at_ms t where snap: "snap = (at_ms, t)" by fastforce
  have sets: "st \<union> item_id ` set (turn_items t) \<union> item_id ` B = st \<union> item_id ` (set (turn_items t) \<union> B)"
    "fin \<union> item_id ` {it \<in> set (turn_items t). item_terminal it} \<union> item_id ` {it \<in> B. item_terminal it}
      = fin \<union> item_id ` {it \<in> set (turn_items t) \<union> B. item_terminal it}" for B
    by auto
  show ?case
    using Cons.IH [OF emit_items_announced [OF assms(1) Cons.prems, where th = th and t = t and at_ms = at_ms and its = "turn_items t"]]
    by (simp only: sets snap emit_item_notifications_def fold_simps comp_apply prod.case list.set UN_insert)
qed

text \<open>C15: over any sequence of snapshots of a turn, a watch whose peer reads announces every item it sees as started
  exactly once and every item it sees ended as completed exactly once, completed never before started,
  and announces nothing else; earlier messages stay as they are.\<close>

theorem items_announced_once:
  assumes "peer_open io"
  shows "\<exists>ns w. fold (\<lambda>(at_ms, t). emit_item_notifications th at_ms t) snaps (\<lparr>w_started = [], w_completed = []\<rparr>, io)
      = (w, io\<lparr>written := written io @ ns\<rparr>) \<and>
    distinct (map note_key ns) \<and> started_first (map note_key ns) \<and>
    set (map note_key ns) =
      Pair NOTIFY_ITEM_STARTED ` item_id ` (\<Union>(_, t) \<in> set snaps. set (turn_items t)) \<union>
      Pair NOTIFY_ITEM_COMPLETED ` item_id ` {it \<in> (\<Union>(_, t) \<in> set snaps. set (turn_items t)). item_terminal it}"
proof -
  have "announced io {} {} (\<lparr>w_started = [], w_completed = []\<rparr>, io)" by (simp add: announced_def)
  from emit_snapshots_announced [OF assms this, of snaps th] show ?thesis
    by (auto simp: announced_def prod_eq_iff simp del: set_map)
qed

definition sample_io :: conn_io where
  "sample_io = \<lparr>written = [JNull], peer_open = True, registered = [], delivered = [], next_id = 1\<rparr>"

definition sample_item :: "string \<Rightarrow> item" where
  "sample_item status = \<lparr>item_id = ''call1'', item_type = ITEM_COMMAND_EXECUTION, item_text = ''ls'', item_status = status\<rparr>"

theorem items_announced_once_witness:
  "\<exists>ns w. fold (\<lambda>(at_ms, t). emit_item_notifications ''th1'' at_ms t)
       [(5, turn1\<lparr>turn_items := [sample_item ''inProgress'']\<rparr>), (6, turn1\<lparr>turn_items := [sample_item ''completed'']\<rparr>)]
       (\<lparr>w_started = [], w_completed = []\<rparr>, sample_io)
      = (w, sample_io\<lparr>written := written sample_io @ ns\<rparr>) \<and>
    distinct (map note_key ns) \<and> started_first (map note_key ns) \<and>
    set (map note_key ns) = {(NOTIFY_ITEM_STARTED, ''call1''), (NOTIFY_ITEM_COMPLETED, ''call1'')}"
proof -
  let ?snaps = "[(5, turn1\<lparr>turn_items := [sample_item ''inProgress'']\<rparr>), (6, turn1\<lparr>turn_items := [sample_item ''completed'']\<rparr>)]"
  have "(\<Union>(_, t) \<in> set ?snaps. set (turn_items t)) = {sample_item ''inProgress'', sample_item ''completed''}" by auto
  moreover have "{it \<in> {sample_item ''inProgress'', sample_item ''completed''}. item_terminal it} = {sample_item ''completed''}"
    by (auto simp: item_terminal_def sample_item_def)
  moreover have "item_id (sample_item st) = ''call1''" for st by (simp add: sample_item_def)
  moreover have "peer_open sample_io" by (simp add: sample_io_def)
  ultimately show ?thesis using items_announced_once [of sample_io "''th1''" ?snaps] by (simp add: insert_commute)
qed

section \<open>Cancelling\<close>

lemma memory_procs [simp]:
  "procs (release_live self g s) = procs s" "procs (wake self i s) = procs s" "procs (remove_slot self i s) = procs s"
  "procs (wake_and_drop self i s) = procs s"
  by (simp_all add: release_live_def wake_and_drop_def remove_slot_def wake_def notify_all_def Let_def split: option.split)

lemma publish_locked_leaves [simp]:
  "generation_at (snd (publish_terminal_locked self t status stop failure s)) = generation_at s"
  "procs (snd (publish_terminal_locked self t status stop failure s)) = procs s"
  by (simp_all add: publish_terminal_locked_def Let_def wp split: sum.split)

text \<open>What cancelling makes of a turn in progress.\<close>

definition cancelled :: "nat \<Rightarrow> generation \<Rightarrow> ledger \<Rightarrow> turn \<Rightarrow> turn" where
  "cancelled self g s t =
     (if generation_is_dead self g s then worker_gone t
      else t\<lparr>turn_status := Interrupted, stop_reason := ''cancelled'', failure_reason := []\<rparr>)"

lemma cancel_observable:
  assumes "observable s i t g" "\<not> is_terminal (turn_status t)"
  shows "fst (cancel self i s) = Inr (cancelled self g s t)"
    and "turn_at (snd (cancel self i s)) = (turn_at s)(i \<mapsto> cancelled self g s t)"
    and "generation_at (snd (cancel self i s)) = generation_at s" "procs (snd (cancel self i s)) = procs s"
    and "fault (snd (cancel self i s)) = fault s"
proof -
  let ?t = "cancelled self g s t"
  have run: "cancel self i s = publish_terminal_locked self t (turn_status ?t) (stop_reason ?t) (failure_reason ?t) s"
    using assms(2) publish_locked_observable(1) [OF assms, of self Failed "[]" FAILURE_WORKER_GONE]
    by (auto simp: cancel_def with_turn_lock_observable [OF assms(1)] cancel_section_def observe_locked_def wp
        observable_read [OF assms(1)] cancelled_def worker_gone_def prod_eq_iff)
  have "t\<lparr>turn_status := turn_status ?t, stop_reason := stop_reason ?t, failure_reason := failure_reason ?t\<rparr> = ?t"
    by (simp add: cancelled_def worker_gone_def)
  then show "fst (cancel self i s) = Inr ?t" "turn_at (snd (cancel self i s)) = (turn_at s)(i \<mapsto> ?t)"
    "generation_at (snd (cancel self i s)) = generation_at s" "procs (snd (cancel self i s)) = procs s"
    "fault (snd (cancel self i s)) = fault s"
    using publish_locked_observable [OF assms, of self "turn_status ?t" "stop_reason ?t" "failure_reason ?t"]
    by (simp_all add: run)
qed

lemma teardown_recorded_runs:
  assumes "generation_result (homes s h) (turn_generation_id t) = Inr g"
  shows "teardown_recorded_child h t s =
    (Inr (), case child_pid g of
       Some pid \<Rightarrow> if process_alive (procs (homes s h)) pid (child_started_epoch g)
                    then s\<lparr>os := teardown_process_group pid (os s)\<rparr> else s
     | None \<Rightarrow> s)"
  using assms
  by (auto simp: teardown_recorded_child_def in_home_run wp ok_def on_os_def recorded_child_is_alive_def split: option.split)

definition kill_signals :: "u32 option \<Rightarrow> (target \<times> signal) list" where
  "kill_signals child =
     (case child of
        None \<Rightarrow> []
      | Some pid \<Rightarrow>
          if pid = 0 then [] else [(Group pid, SIGTERM), (Leader pid, SIGTERM), (Group pid, SIGKILL), (Leader pid, SIGKILL)])"

text \<open>C7: cancelling a turn in progress, from any facade, returns the settled turn, which is the turn on disk. When the
  owner was alive, its recorded child gets the terminate and the kill signal, group and leader, after
  the turn was settled; when the owner was gone the turn fails as such and no process is signalled.\<close>

theorem cancel_kills_recorded_child:
  assumes "observable (homes s h) i t g" "\<not> is_terminal (turn_status t)"
  shows "let t' = cancelled self g (homes s h) t; s' = snd (cancel_turn host self h i s) in
    fst (cancel_turn host self h i s) = Inr t' \<and> is_terminal (turn_status t') \<and>
    turn_at (homes s' h) = (turn_at (homes s h))(i \<mapsto> t') \<and>
    sent (os s') = sent (os s) @ (if generation_is_dead self g (homes s h) then [] else kill_signals (child_pid g))"
proof (cases "generation_is_dead self g (homes s h)")
  case True
  then show ?thesis
    using cancel_observable [OF assms, of self]
    by (simp add: cancel_turn_def wp cancelled_def worker_gone_def Let_def ok_def)
next
  case False
  define t' where "t' = cancelled self g (homes s h) t"
  define l where "l = snd (cancel self i (homes s h))"
  define s1 where "s1 = s\<lparr>homes := (homes s)(h := l)\<rparr>"
  note c = cancel_observable [OF assms, of self, folded t'_def l_def]
  have t': "turn_status t' = Interrupted" "turn_generation_id t' = turn_generation_id t"
    using False by (simp_all add: t'_def cancelled_def)
  have read: "turn_result_of l i = Inr t'" "generation_result l (turn_generation_id t') = Inr g"
    using assms(1) c t' by (simp_all add: result_Inr observable_def t'_def cancelled_def worker_gone_def)
  have alive: "process_alive (procs l) pid (child_started_epoch g)" if "child_pid g = Some pid" for pid
    using False that c(4) by (simp add: generation_is_dead_def split: if_splits)
  have "cancel_turn host self h i s = (Inr t', case child_pid g of
       Some pid \<Rightarrow> s1\<lparr>os := teardown_process_group pid (os s)\<rparr> | None \<Rightarrow> s1)"
    using teardown_recorded_runs [of s1 h t' g] read alive
    by (auto simp: cancel_turn_def wp c(1) t'(1) l_def [symmetric] s1_def split: option.split)
  then show ?thesis
    using teardown_frame(1) c(2) False t'(1)
    by (auto simp: Let_def t'_def [symmetric] s1_def kill_signals_def teardown_process_group_def split: option.split)
qed

definition child_home :: ledger where
  "child_home = home2
     \<lparr>generations_dir := [(''g713.json'', Body (generation1\<lparr>child_pid := Some 42, child_started_epoch := Some 5\<rparr>))],
      procs := idle_procs\<lparr>is_macos := True, pidinfo := \<lambda>_. Some \<lparr>pbi_status = 2, pbi_start_tvsec = 5\<rparr>\<rparr>\<rparr>"

theorem cancel_kills_recorded_child_witness:
  "sent (os (snd (cancel_turn sample_host 0 ''/h'' ''tu724'' (sample_sys\<lparr>homes := \<lambda>_. child_home\<rparr>)))) = sent (os sample_sys) @
     [(Group 42, SIGTERM), (Leader 42, SIGTERM), (Group 42, SIGKILL), (Leader 42, SIGKILL)]"
proof -
  let ?g = "generation1\<lparr>child_pid := Some 42, child_started_epoch := Some 5\<rparr>"
  let ?s = "sample_sys\<lparr>homes := \<lambda>_. child_home\<rparr>"
  have "observable (homes ?s ''/h'') ''tu724'' turn1 ?g"
    using home2_observable by (simp add: observable_def child_home_def turn_at_def generation_at_def json_name_def turn1_def fresh_turn_def)
  moreover have "\<not> is_terminal (turn_status turn1)" by (simp add: turn1_def fresh_turn_def)
  moreover have "\<not> generation_is_dead 0 ?g child_home"
    by (simp add: generation_is_dead_def owner_instance_alive_def process_holds_live_def child_home_def home2_eq home1_eq
        generation1_def fresh_generation_def blank_ledger_def process_alive_def proc_bsdinfo_def SZOMB_def)
  ultimately show ?thesis
    using cancel_kills_recorded_child [of ?s "''/h''" "''tu724''" turn1 ?g 0 sample_host]
    by (simp add: Let_def kill_signals_def)
qed

end
