(* ===== verification/Mcp.thy ===== *)
theory Mcp
  imports AppServer
begin

text \<open>
  \<^verbatim>\<open>crates/gamchi/src/mcp.rs\<close>: the MCP facade on standard input and output, and
  \<open>admit_in_background\<close> of \<^verbatim>\<open>ops.rs\<close>. A tool is an action on the system that may still be
  waiting when its schedule ends (\<open>None\<close>); \<open>call_env\<close> is what one call takes from its surroundings:
  the number of the \<open>Ledger\<close> value it opens, how an admission goes, the clock at the start of a wait and the
  schedule of its sleeps.
\<close>

record call_env =
  ce_self :: nat
  ce_timing :: admission_timing
  ce_start :: nat
  ce_sched :: schedule

type_synonym 'a tool_run = "sys \<Rightarrow> ((string + 'a) \<times> sys) option"

section \<open>Start-up and fixed replies\<close>

fun parse_home_from :: "string list \<Rightarrow> string option \<Rightarrow> unit + string option" where
  "parse_home_from [] home = Inr home"
| "parse_home_from (arg # args) home =
     (if arg = ''--home'' then
        (case args of [] \<Rightarrow> Inl () | raw # rest \<Rightarrow> parse_home_from rest (Some raw))
      else Inl ())"

definition parse_home :: "string list \<Rightarrow> unit + string option" where
  "parse_home args = parse_home_from args None"

definition PROTOCOL :: string where
  "PROTOCOL = ''2024-11-05''"

text \<open>\<open>CARGO_PKG_NAME\<close> and \<open>CARGO_PKG_VERSION\<close> of \<^verbatim>\<open>crates/gamchi/Cargo.toml\<close>.\<close>

definition NAME :: string where "NAME = ''gamchi''"
definition VERSION :: string where "VERSION = ''0.0.0''"

definition mcp_initialize_result :: json where
  "mcp_initialize_result =
     JObj [(''protocolVersion'', JStr PROTOCOL),
           (''capabilities'', JObj [(''tools'', JObj [(''listChanged'', JBool False)])]),
           (''serverInfo'', JObj [(''name'', JStr NAME), (''version'', JStr VERSION)])]"

definition tool :: "string \<Rightarrow> string \<Rightarrow> json \<Rightarrow> json" where
  "tool name description schema =
     JObj [(''name'', JStr name), (''description'', JStr description), (''inputSchema'', schema)]"

text \<open>The properties of a schema: each with the name of its type.\<close>

definition typed :: "string \<Rightarrow> string \<Rightarrow> string \<times> json" where
  "typed ty key = (key, JObj [(''type'', JStr ty)])"

definition spawn_schema :: json where
  "spawn_schema =
     JObj [(''type'', JStr ''object''),
           (''properties'', JObj (map (typed ''string'')
              [''prompt'', ''cwd'', ''home'', ''approvalPolicy'', ''sandbox'', ''model'', ''effort'', ''client_request_id''])),
           (''required'', JArr [JStr ''prompt''])]"

definition id_schema :: json where
  "id_schema =
     JObj [(''type'', JStr ''object''), (''properties'', JObj (map (typed ''string'') [''turn_id'', ''home''])),
           (''required'', JArr [JStr ''turn_id''])]"

definition wait_schema :: json where
  "wait_schema =
     JObj [(''type'', JStr ''object''),
           (''properties'', JObj [typed ''string'' ''turn_id'', typed ''integer'' ''timeout_ms'', typed ''string'' ''home'']),
           (''required'', JArr [JStr ''turn_id''])]"

definition list_schema :: json where
  "list_schema = JObj [(''type'', JStr ''object''), (''properties'', JObj (map (typed ''string'') [''cwd'', ''home'']))]"

definition respond_schema :: json where
  "respond_schema =
     JObj [(''type'', JStr ''object''), (''properties'', JObj (map (typed ''string'') [''request_id'', ''decision'', ''home''])),
           (''required'', JArr [JStr ''request_id'', JStr ''decision''])]"

definition followup_schema :: json where
  "followup_schema =
     JObj [(''type'', JStr ''object''),
           (''properties'', JObj (map (typed ''string'') [''thread_id'', ''prompt'', ''home'', ''model'', ''effort''])),
           (''required'', JArr [JStr ''thread_id'', JStr ''prompt''])]"

definition tools_list :: json where
  "tools_list =
     JObj [(''tools'', JArr [
       tool ''grok_spawn'' ''Start a Grok turn. Returns ids immediately. Default never + workspace-write.'' spawn_schema,
       tool ''grok_await'' ''Wait until the turn is terminal. Host timeout does not cancel.'' id_schema,
       tool ''grok_wait'' ''Bounded wait. timeout_ms default and max 50000. Does not cancel.'' wait_schema,
       tool ''grok_status'' ''One snapshot of a turn.'' id_schema,
       tool ''grok_result'' ''Terminal envelope, or ready=false.'' id_schema,
       tool ''grok_list'' ''Recent turns from the disk ledger.'' list_schema,
       tool ''grok_cancel''
         ''Tear down the Grok process group. TurnStatus interrupted. Host timeout is not cancel.'' id_schema,
       tool ''grok_followup'' ''New turn on the same ACP session via session/load.'' followup_schema,
       tool ''grok_respond'' ''Answer a pending_approval with request_id. Then grok_await again.'' respond_schema])]"

section \<open>Tools\<close>

text \<open>\<open>args.home\<close>, or else the home of the command line.\<close>

definition home_arg :: "json \<Rightarrow> string option \<Rightarrow> string option" where
  "home_arg args cli_home = (case get_str args ''home'' of Some h \<Rightarrow> Some h | None \<Rightarrow> cli_home)"

definition ledger_from :: "host \<Rightarrow> nat \<Rightarrow> json \<Rightarrow> string option \<Rightarrow> (string, string) sys_action" where
  "ledger_from host self args cli_home = open_ledger host self (home_arg args cli_home)"

definition tool_turn_id :: "json \<Rightarrow> string + string" where
  "tool_turn_id args = required_str args ''turn_id'' ''turn_id required''"

definition admit_in_background :: "host \<Rightarrow> nat \<Rightarrow> string \<Rightarrow> turn_request \<Rightarrow> admission_timing \<Rightarrow> (string, string \<times> string) sys_action" where
  "admit_in_background host self h req timing =
     and_then (admit_request host self h req timing ''spawn did not admit a turn'') (\<lambda>t.
     ok (turn_thread_id t, turn_id t))"

definition ids_json :: "string \<times> string \<Rightarrow> json" where
  "ids_json ids = JObj [(''thread_id'', JStr (fst ids)), (''turn_id'', JStr (snd ids))]"

definition spawn_sandbox :: "host \<Rightarrow> json \<Rightarrow> string + thread_sandbox" where
  "spawn_sandbox host args =
     (case get_str args ''sandbox'' of
        Some v \<Rightarrow> map_err (display_unsupported host) (parse_thread_sandbox v)
      | None \<Rightarrow> Inr WorkspaceWrite)"

definition spawn :: "host \<Rightarrow> call_env \<Rightarrow> json \<Rightarrow> string option \<Rightarrow> (string, json) sys_action" where
  "spawn host env args cli_home =
     and_then (of_result (required_str args ''prompt'' ''prompt required'')) (\<lambda>prompt.
     and_then (of_result (chosen_policy host args Never)) (\<lambda>approval.
     and_then (of_result (spawn_sandbox host args)) (\<lambda>sandbox.
     and_then (of_result (reject_unenforceable_extras args)) (\<lambda>_.
     and_then (of_result (open_home host (home_arg args cli_home))) (\<lambda>home.
     and_then (of_result (absolute_cwd host args)) (\<lambda>cwd.
     and_then (of_result (optional_text_field args ''model'')) (\<lambda>model.
     and_then (of_result (optional_text_field args ''effort'')) (\<lambda>effort.
     and_then (open_ledger host (ce_self env) (Some home)) (\<lambda>h.
     and_then (admit_in_background host (ce_self env) h
         (start_request host cwd prompt approval sandbox model effort (get_str args ''client_request_id'')) (ce_timing env)) (\<lambda>ids.
     ok (ids_json ids)))))))))))"

definition followup :: "host \<Rightarrow> call_env \<Rightarrow> json \<Rightarrow> string option \<Rightarrow> (string, json) sys_action" where
  "followup host env args cli_home =
     and_then (of_result (required_str args ''thread_id'' ''thread_id required'')) (\<lambda>th.
     and_then (of_result (required_str args ''prompt'' ''prompt required'')) (\<lambda>prompt.
     and_then (of_result (open_home host (home_arg args cli_home))) (\<lambda>home.
     and_then (open_ledger host (ce_self env) (Some home)) (\<lambda>h.
     and_then (call host h (read_thread th)) (\<lambda>stored.
     if acp_session_id stored = [] then err ''follow-up requires a stored ACP session id''
     else
       and_then (of_result (optional_text_field args ''model'')) (\<lambda>model.
       and_then (of_result (optional_text_field args ''effort'')) (\<lambda>effort.
       and_then (admit_in_background host (ce_self env) h (followup_request host stored prompt model effort None) (ce_timing env)) (\<lambda>ids.
       ok (ids_json ids)))))))))"

definition ready_json :: "turn \<Rightarrow> json" where
  "ready_json t = JObj [(''ready'', JBool False), (''not_ready'', JBool True), (''turn_id'', JStr (turn_id t))]"

definition status_turn :: "host \<Rightarrow> call_env \<Rightarrow> json \<Rightarrow> string option \<Rightarrow> bool \<Rightarrow> (string, json) sys_action" where
  "status_turn host env args cli_home result =
     and_then (of_result (tool_turn_id args)) (\<lambda>i.
     with_ledger (ledger_from host (ce_self env) args cli_home) (ce_self env) (\<lambda>h.
       and_then (call host h (observe (ce_self env) i)) (\<lambda>t.
         if result \<and> \<not> is_terminal (turn_status t) then ok (ready_json t) else bounded_reply host h t)))"

definition turns_json :: "turn list \<Rightarrow> json" where
  "turns_json ts = JObj [(''turns'', JArr (map turn_json ts))]"

definition list_tool :: "host \<Rightarrow> call_env \<Rightarrow> json \<Rightarrow> string option \<Rightarrow> (string, json) sys_action" where
  "list_tool host env args cli_home =
     with_ledger (ledger_from host (ce_self env) args cli_home) (ce_self env) (\<lambda>h.
       and_then (call host h (list_turns (ce_self env) (get_str args ''cwd''))) (\<lambda>ts. ok (turns_json ts)))"

definition respond_tool :: "host \<Rightarrow> call_env \<Rightarrow> json \<Rightarrow> string option \<Rightarrow> (string, json) sys_action" where
  "respond_tool host env args cli_home =
     and_then (of_result (required_str args ''request_id'' ''request_id required'')) (\<lambda>request.
     and_then (of_result (required_str args ''decision'' ''decision required'')) (\<lambda>raw.
     and_then (of_result (map_err (display_unsupported host) (parse_approval_decision raw))) (\<lambda>d.
     with_ledger (ledger_from host (ce_self env) args cli_home) (ce_self env) (\<lambda>h.
       and_then (call host h (respond (ce_self env) request d)) (\<lambda>t. bounded_reply host h t)))))"

definition cancel_tool :: "host \<Rightarrow> call_env \<Rightarrow> json \<Rightarrow> string option \<Rightarrow> (string, json) sys_action" where
  "cancel_tool host env args cli_home =
     and_then (of_result (tool_turn_id args)) (\<lambda>i.
     with_ledger (ledger_from host (ce_self env) args cli_home) (ce_self env) (\<lambda>h.
       and_then (cancel_turn host (ce_self env) h i) (\<lambda>t. bounded_reply host h t)))"

section \<open>Waiting tools\<close>

text \<open>A wait on an open ledger, with the error as text.\<close>

definition wait_in_home :: "host \<Rightarrow> call_env \<Rightarrow> string \<Rightarrow> string \<Rightarrow> u64 option \<Rightarrow> turn tool_run" where
  "wait_in_home host env h i timeout s =
     (case wait (ce_self env) i (map_option unat timeout) (ce_start env) (ce_sched env) (homes s h) of
        None \<Rightarrow> None
      | Some (r, l) \<Rightarrow> Some (map_err (display_ledger_error host) r, s\<lparr>homes := (homes s)(h := l)\<rparr>))"

definition await_reply :: "host \<Rightarrow> string \<Rightarrow> u64 option \<Rightarrow> turn \<Rightarrow> (string, json) sys_action" where
  "await_reply host h timeout t =
     (if timeout = None \<and> \<not> is_terminal (turn_status t) \<and> \<not> pending_approval t
      then err ''await returned non-terminal'' else bounded_reply host h t)"

definition await_turn :: "host \<Rightarrow> call_env \<Rightarrow> json \<Rightarrow> string option \<Rightarrow> u64 option \<Rightarrow> json tool_run" where
  "await_turn host env args cli_home timeout s =
     (case tool_turn_id args of
        Inl e \<Rightarrow> Some (Inl e, s)
      | Inr i \<Rightarrow>
          (case ledger_from host (ce_self env) args cli_home s of
             (Inl e, s1) \<Rightarrow> Some (Inl e, s1)
           | (Inr h, s1) \<Rightarrow>
               (case wait_in_home host env h i timeout s1 of
                  None \<Rightarrow> None
                | Some (r, s2) \<Rightarrow>
                    (case and_then (of_result r) (await_reply host h timeout) s2 of
                       (v, s3) \<Rightarrow> Some (v, s3\<lparr>homes := (homes s3)(h := drop_ledger (ce_self env) (homes s3 h))\<rparr>)))))"

definition wait_turn :: "host \<Rightarrow> call_env \<Rightarrow> json \<Rightarrow> string option \<Rightarrow> json tool_run" where
  "wait_turn host env args cli_home s =
     (let timeout_ms = (case Option.bind (json_get args ''timeout_ms'') as_u64 of Some n \<Rightarrow> n | None \<Rightarrow> MAX_WAIT_MS) in
      if timeout_ms = 0 \<or> timeout_ms > MAX_WAIT_MS then Some (Inl ''timeout_ms must be 1..=50000'', s)
      else await_turn host env args cli_home (Some timeout_ms) s)"

definition at_once :: "(string, 'a) sys_action \<Rightarrow> 'a tool_run" where
  "at_once m s = Some (m s)"

definition call_tool :: "host \<Rightarrow> call_env \<Rightarrow> json \<Rightarrow> string option \<Rightarrow> json tool_run" where
  "call_tool host env params cli_home =
     (case get_str params ''name'' of
        None \<Rightarrow> at_once (err ''missing tool name'')
      | Some name \<Rightarrow>
          let args = (case json_get params ''arguments'' of Some a \<Rightarrow> a | None \<Rightarrow> JObj []) in
          if name = ''grok_spawn'' then at_once (spawn host env args cli_home)
          else if name = ''grok_await'' then await_turn host env args cli_home None
          else if name = ''grok_wait'' then wait_turn host env args cli_home
          else if name = ''grok_status'' then at_once (status_turn host env args cli_home False)
          else if name = ''grok_result'' then at_once (status_turn host env args cli_home True)
          else if name = ''grok_list'' then at_once (list_tool host env args cli_home)
          else if name = ''grok_cancel'' then at_once (cancel_tool host env args cli_home)
          else if name = ''grok_followup'' then at_once (followup host env args cli_home)
          else if name = ''grok_respond'' then at_once (respond_tool host env args cli_home)
          else at_once (err (''unknown tool '' @ name)))"

section \<open>The loop\<close>

definition tool_text :: "host \<Rightarrow> json \<Rightarrow> bool \<Rightarrow> json" where
  "tool_text host v is_error =
     JObj [(''content'', JArr [JObj [(''type'', JStr ''text''), (''text'', JStr (json_to_text host v))]]),
           (''isError'', JBool is_error)]"

definition mcp_result :: "json \<Rightarrow> json \<Rightarrow> json" where
  "mcp_result i result = JObj [(''jsonrpc'', JStr ''2.0''), (''id'', i), (''result'', result)]"

definition mcp_error :: "json \<Rightarrow> string \<Rightarrow> json" where
  "mcp_error i m =
     JObj [(''jsonrpc'', JStr ''2.0''), (''id'', i),
           (''error'', JObj [(''code'', json_int (- 32601)), (''message'', JStr m)])]"

definition tool_reply :: "host \<Rightarrow> string + json \<Rightarrow> json" where
  "tool_reply host r =
     (case r of Inr v \<Rightarrow> tool_text host v False | Inl e \<Rightarrow> tool_text host (JObj [(''error'', JStr e)]) True)"

definition mcp_request :: "host \<Rightarrow> call_env \<Rightarrow> string option \<Rightarrow> string \<Rightarrow> json \<Rightarrow> json \<Rightarrow> sys \<Rightarrow> (json \<times> sys) option" where
  "mcp_request host env home m params i s =
     (if m = ''initialize'' then Some (mcp_result i mcp_initialize_result, s)
      else if m = ''tools/list'' then Some (mcp_result i tools_list, s)
      else if m = ''ping'' then Some (mcp_result i (JObj []), s)
      else if m = ''tools/call'' then
        map_option (\<lambda>(r, s'). (mcp_result i (tool_reply host r), s')) (call_tool host env params home s)
      else Some (mcp_error i m, s))"

text \<open>One line of the input: the reply if there is one.\<close>

definition mcp_line :: "host \<Rightarrow> call_env \<Rightarrow> string option \<Rightarrow> string \<Rightarrow> sys \<Rightarrow> (json option \<times> sys) option" where
  "mcp_line host env home line s =
     (if trim line = [] then Some (None, s)
      else case json_of_text host line of
        None \<Rightarrow> Some (None, s)
      | Some msg \<Rightarrow>
          if get_str msg ''method'' = Some ''notifications/initialized'' then Some (None, s)
          else case json_get msg ''id'' of
            None \<Rightarrow> Some (None, s)
          | Some i \<Rightarrow>
              map_option (\<lambda>(v, s'). (Some v, s'))
                (mcp_request host env home (case get_str msg ''method'' of Some m \<Rightarrow> m | None \<Rightarrow> [])
                  (case json_get msg ''params'' of Some p \<Rightarrow> p | None \<Rightarrow> JObj []) i s))"

text \<open>
  The input ends in end of file or in a read error; either way the children of the process are torn
  down. The result is what was written, the exit code and the system.
\<close>

datatype input_end = Eof | ReadFailed

fun mcp_loop ::
  "host \<Rightarrow> others \<Rightarrow> string option \<Rightarrow> input_end \<Rightarrow> (call_env \<times> string) list \<Rightarrow> sys \<Rightarrow> (string list \<times> nat \<times> sys) option" where
  "mcp_loop host others home fin [] s =
     Some ([], (case fin of Eof \<Rightarrow> 0 | ReadFailed \<Rightarrow> 1), s\<lparr>os := parent_exit_teardown others (os s)\<rparr>)"
| "mcp_loop host others home fin ((env, line) # rest) s =
     (case mcp_line host env home line s of
        None \<Rightarrow> None
      | Some (reply, s') \<Rightarrow>
          map_option (\<lambda>(out, code, s''). ((case reply of None \<Rightarrow> out | Some v \<Rightarrow> (json_to_text host v @ [newline]) # out), code, s''))
            (mcp_loop host others home fin rest s'))"

text \<open>Standard output, standard error, exit code.\<close>

definition run_mcp ::
  "host \<Rightarrow> others \<Rightarrow> string list \<Rightarrow> input_end \<Rightarrow> (call_env \<times> string) list \<Rightarrow> sys \<Rightarrow> (string list \<times> string list \<times> nat \<times> sys) option" where
  "run_mcp host others args fin input s =
     (case parse_home args of
        Inl _ \<Rightarrow> Some ([], [''GAMCHI_STARTUP_ERROR INVALID_CONFIG'' @ [newline]], 1, s)
      | Inr home \<Rightarrow> map_option (\<lambda>(out, code, s'). (out, [], code, s')) (mcp_loop host others home fin input s))"

end
