(* ===== verification/Worker.thy ===== *)
theory Worker
  imports Mcp
begin

text \<open>
  \<^verbatim>\<open>crates/gamchi/src/worker.rs\<close> and \<open>run\<close> of \<^verbatim>\<open>main.rs\<close>: the command line. A command
  yields its exit code and the texts on standard output and standard error.
\<close>

record cli =
  exit_code :: nat
  out_text :: string
  err_text :: string

definition WORKER_USAGE :: string where
  "WORKER_USAGE = join_with [newline]
     [''Usage:'',
      ''  gamchi worker start --json [--home <absolute-path>] [--cwd <absolute-path>] [--approval-policy <never|untrusted|on-request>] [--model <id>] [--effort <id>] <prompt>'',
      ''  gamchi worker wait --json --turn-id <id> [--home <absolute-path>] [--timeout-ms <1-50000>]'',
      ''  gamchi worker status --json --turn-id <id> [--home <absolute-path>]'',
      ''  gamchi worker result --json --turn-id <id> [--home <absolute-path>]'',
      ''  gamchi worker list --json [--home <absolute-path>] [--cwd <absolute-path>]'',
      ''  gamchi worker cancel --json --turn-id <id> [--home <absolute-path>]'',
      ''  gamchi worker followup --json --thread-id <id> [--home <absolute-path>] [--cwd <absolute-path>] [--model <id>] [--effort <id>] <prompt>'',
      ''  gamchi worker respond --json --request-id <id> --decision <accept|acceptForSession|decline|cancel> [--home <absolute-path>]'',
      []]"

section \<open>Flags\<close>

record cli_flags =
  fl_json :: bool
  fl_home :: "string option"
  fl_cwd :: "string option"
  fl_turn_id :: string
  fl_thread_id :: string
  fl_timeout_ms :: "u64 option"
  fl_prompt :: string
  fl_approval :: approval_policy
  fl_request_id :: string
  fl_decision :: string
  fl_model :: string
  fl_effort :: string

definition no_flags :: cli_flags where
  "no_flags = \<lparr>fl_json = False, fl_home = None, fl_cwd = None, fl_turn_id = [], fl_thread_id = [],
     fl_timeout_ms = None, fl_prompt = [], fl_approval = Never, fl_request_id = [], fl_decision = [],
     fl_model = [], fl_effort = []\<rparr>"

text \<open>The flags that take a value; \<open>None\<close> is the error 1.\<close>

definition set_flag :: "string \<Rightarrow> string \<Rightarrow> cli_flags \<Rightarrow> cli_flags option" where
  "set_flag flag v f =
     (if flag = ''--home'' then Some (f\<lparr>fl_home := Some v\<rparr>)
      else if flag = ''--cwd'' then Some (f\<lparr>fl_cwd := Some v\<rparr>)
      else if flag = ''--turn-id'' then Some (f\<lparr>fl_turn_id := v\<rparr>)
      else if flag = ''--thread-id'' then Some (f\<lparr>fl_thread_id := v\<rparr>)
      else if flag = ''--timeout-ms'' then map_option (\<lambda>n. f\<lparr>fl_timeout_ms := Some n\<rparr>) (parse_u64 v)
      else if flag = ''--approval-policy'' then
        (case parse_approval_policy v of Inl _ \<Rightarrow> None | Inr p \<Rightarrow> Some (f\<lparr>fl_approval := p\<rparr>))
      else if flag = ''--request-id'' then Some (f\<lparr>fl_request_id := v\<rparr>)
      else if flag = ''--decision'' then Some (f\<lparr>fl_decision := v\<rparr>)
      else if flag = ''--model'' then (if trim v = [] then None else Some (f\<lparr>fl_model := v\<rparr>))
      else if flag = ''--effort'' then (if trim v = [] then None else Some (f\<lparr>fl_effort := v\<rparr>))
      else None)"

definition value_flags :: "string list" where
  "value_flags =
     [''--home'', ''--cwd'', ''--turn-id'', ''--thread-id'', ''--timeout-ms'', ''--approval-policy'', ''--request-id'',
      ''--decision'', ''--model'', ''--effort'']"

fun parse_flags_from :: "bool \<Rightarrow> string list \<Rightarrow> string list \<Rightarrow> cli_flags \<Rightarrow> nat + cli_flags" where
  "parse_flags_from take_prompt [] parts f = Inr (f\<lparr>fl_prompt := join_with '' '' parts\<rparr>)"
| "parse_flags_from take_prompt (arg # args) parts f =
     (if arg = ''--json'' then parse_flags_from take_prompt args parts (f\<lparr>fl_json := True\<rparr>)
      else if arg \<in> set value_flags then
        (case args of
           [] \<Rightarrow> Inl 1
         | v # rest \<Rightarrow>
             (case set_flag arg v f of
                None \<Rightarrow> Inl 1
              | Some f' \<Rightarrow> parse_flags_from take_prompt rest parts f'))
      else if arg = ''--'' then Inr (f\<lparr>fl_prompt := join_with '' '' (parts @ args)\<rparr>)
      else if starts_with arg ''-'' then Inl 1
      else if take_prompt then parse_flags_from take_prompt args (parts @ [arg]) f
      else Inl 1)"

definition parse_flags :: "string list \<Rightarrow> bool \<Rightarrow> nat + cli_flags" where
  "parse_flags args take_prompt = parse_flags_from take_prompt args [] no_flags"

section \<open>Output\<close>

definition startup_error :: "string \<Rightarrow> string" where
  "startup_error code = ''GAMCHI_STARTUP_ERROR '' @ code @ [newline]"

definition failed_with :: "nat \<Rightarrow> string \<Rightarrow> cli" where
  "failed_with code text = \<lparr>exit_code = code, out_text = [], err_text = text\<rparr>"

definition usage_error :: "nat \<Rightarrow> cli" where
  "usage_error code = failed_with code (startup_error ''INVALID_CONFIG'' @ WORKER_USAGE)"

definition printed :: "host \<Rightarrow> json \<Rightarrow> cli" where
  "printed host v = \<lparr>exit_code = 0, out_text = json_to_text host v @ [newline], err_text = []\<rparr>"

definition ledger_err :: "host \<Rightarrow> ledger_error \<Rightarrow> cli" where
  "ledger_err host e = failed_with 1 (startup_error (''LEDGER '' @ display_ledger_error host e))"

definition acp_err :: "string \<Rightarrow> cli" where
  "acp_err text = failed_with 1 (startup_error ''ACP'' @ text @ [newline])"

text \<open>An action whose error is already the outcome of the command.\<close>

type_synonym 'a cli_action = "(cli, 'a) sys_action"

definition finish :: "host \<Rightarrow> json cli_action \<Rightarrow> sys \<Rightarrow> cli \<times> sys" where
  "finish host m s = (case m s of (Inl c, s') \<Rightarrow> (c, s') | (Inr v, s') \<Rightarrow> (printed host v, s'))"

definition worker_open_home :: "host \<Rightarrow> string option \<Rightarrow> cli + string" where
  "worker_open_home host explicit =
     map_err (\<lambda>reason. failed_with 1 (startup_error (''INVALID_CONFIG '' @ reason))) (open_home host explicit)"

definition worker_call :: "host \<Rightarrow> string \<Rightarrow> 'a ledger_action \<Rightarrow> 'a cli_action" where
  "worker_call host h m = with_err (ledger_err host) (in_home h m)"

definition worker_open_ledger :: "host \<Rightarrow> nat \<Rightarrow> string option \<Rightarrow> string cli_action" where
  "worker_open_ledger host self explicit =
     and_then (of_result (worker_open_home host explicit)) (\<lambda>h. worker_call host h (open_ledger_home self h))"

definition worker_with_ledger :: "host \<Rightarrow> nat \<Rightarrow> string option \<Rightarrow> (string \<Rightarrow> 'a cli_action) \<Rightarrow> 'a cli_action" where
  "worker_with_ledger host self explicit body =
     and_then (worker_open_ledger host self explicit) (\<lambda>h s.
       case body h s of (r, s') \<Rightarrow> (r, s'\<lparr>homes := (homes s')(h := drop_ledger self (homes s' h))\<rparr>))"

definition worker_reply :: "host \<Rightarrow> string \<Rightarrow> turn \<Rightarrow> json cli_action" where
  "worker_reply host h t s = (case bounded_turn_json host t (Some h) s of (v, s') \<Rightarrow> (Inr v, s'))"

text \<open>The flags of a command, checked for what it needs.\<close>

definition flags_for :: "string list \<Rightarrow> bool \<Rightarrow> (cli_flags \<Rightarrow> bool) \<Rightarrow> cli + cli_flags" where
  "flags_for args take_prompt enough =
     (case parse_flags args take_prompt of
        Inl code \<Rightarrow> Inl (usage_error code)
      | Inr f \<Rightarrow> if \<not> fl_json f \<or> \<not> enough f then Inl (usage_error 1) else Inr f)"

section \<open>Commands on a turn\<close>

definition snapshot :: "host \<Rightarrow> nat \<Rightarrow> string list \<Rightarrow> bool \<Rightarrow> sys \<Rightarrow> cli \<times> sys" where
  "snapshot host self args result =
     finish host
       (and_then (of_result (flags_for args False (\<lambda>f. fl_turn_id f \<noteq> []))) (\<lambda>f.
        worker_with_ledger host self (fl_home f) (\<lambda>h.
          and_then (worker_call host h (observe self (fl_turn_id f))) (\<lambda>t.
            if result \<and> \<not> is_terminal (turn_status t) then ok (ready_json t) else worker_reply host h t))))"

definition cmd_status :: "host \<Rightarrow> nat \<Rightarrow> string list \<Rightarrow> sys \<Rightarrow> cli \<times> sys" where
  "cmd_status host self args = snapshot host self args False"

definition cmd_result :: "host \<Rightarrow> nat \<Rightarrow> string list \<Rightarrow> sys \<Rightarrow> cli \<times> sys" where
  "cmd_result host self args = snapshot host self args True"

definition cmd_list :: "host \<Rightarrow> nat \<Rightarrow> string list \<Rightarrow> sys \<Rightarrow> cli \<times> sys" where
  "cmd_list host self args =
     finish host
       (and_then (of_result (flags_for args False (\<lambda>_. True))) (\<lambda>f.
        worker_with_ledger host self (fl_home f) (\<lambda>h.
          and_then (worker_call host h (list_turns self (fl_cwd f))) (\<lambda>ts. ok (turns_json ts)))))"

definition cmd_cancel :: "host \<Rightarrow> nat \<Rightarrow> string list \<Rightarrow> sys \<Rightarrow> cli \<times> sys" where
  "cmd_cancel host self args =
     finish host
       (and_then (of_result (flags_for args False (\<lambda>f. fl_turn_id f \<noteq> []))) (\<lambda>f.
        worker_with_ledger host self (fl_home f) (\<lambda>h.
          and_then (with_err acp_err (cancel_turn host self h (fl_turn_id f))) (\<lambda>t. worker_reply host h t))))"

definition decision_flag :: "cli_flags \<Rightarrow> cli + approval_decision" where
  "decision_flag f = map_err (\<lambda>_. usage_error 1) (parse_approval_decision (fl_decision f))"

definition cmd_respond :: "host \<Rightarrow> nat \<Rightarrow> string list \<Rightarrow> sys \<Rightarrow> cli \<times> sys" where
  "cmd_respond host self args =
     finish host
       (and_then (of_result (flags_for args False (\<lambda>f. fl_request_id f \<noteq> [] \<and> fl_decision f \<noteq> []))) (\<lambda>f.
        and_then (of_result (decision_flag f)) (\<lambda>d.
        worker_with_ledger host self (fl_home f) (\<lambda>h.
          and_then (with_err (\<lambda>e. acp_err (display_ledger_error host e)) (in_home h (respond self (fl_request_id f) d))) (\<lambda>t.
          worker_reply host h t)))))"

text \<open>The wait is over when the schedule of its sleeps lets it end; the whole turn is printed, whatever its size.\<close>

definition cmd_wait :: "host \<Rightarrow> call_env \<Rightarrow> string list \<Rightarrow> sys \<Rightarrow> (cli \<times> sys) option" where
  "cmd_wait host env args s =
     (case flags_for args False (\<lambda>f. fl_turn_id f \<noteq> []) of
        Inl c \<Rightarrow> Some (c, s)
      | Inr f \<Rightarrow>
          (let timeout = (case fl_timeout_ms f of Some n \<Rightarrow> n | None \<Rightarrow> MAX_WAIT_MS) in
           if timeout = 0 \<or> timeout > MAX_WAIT_MS then Some (failed_with 1 (startup_error ''INVALID_CONFIG''), s)
           else case worker_open_ledger host (ce_self env) (fl_home f) s of
             (Inl c, s1) \<Rightarrow> Some (c, s1)
           | (Inr h, s1) \<Rightarrow>
               (case wait (ce_self env) (fl_turn_id f) (Some (unat timeout)) (ce_start env) (ce_sched env) (homes s1 h) of
                  None \<Rightarrow> None
                | Some (r, l) \<Rightarrow>
                    Some ((case r of Inr t \<Rightarrow> printed host (turn_json t) | Inl e \<Rightarrow> ledger_err host e),
                          s1\<lparr>homes := (homes s1)(h := drop_ledger (ce_self env) l)\<rparr>))))"

section \<open>Commands that run a turn\<close>

text \<open>
  The turn runs to its end in the command's own process. The identifiers are printed at the
  admission, which every successful run has passed; \<open>no_runtime\<close> is the error of a runtime that
  cannot be built.
\<close>

definition run_printing :: "host \<Rightarrow> nat \<Rightarrow> string \<Rightarrow> turn_request \<Rightarrow> string option \<Rightarrow> turn_world \<Rightarrow> sys \<Rightarrow> cli \<times> sys" where
  "run_printing host self h req no_runtime w s =
     (case no_runtime of
        Some text \<Rightarrow> (failed_with 1 (startup_error (''ACP '' @ display_adapter_error host (Acp text))), s)
      | None \<Rightarrow>
          (case prepare_turn self h req s of
             (Inl e, s1) \<Rightarrow> (failed_with 1 (startup_error (''ACP '' @ display_adapter_error host e)), s1)
           | (Inr (t, th, load, plan), s1) \<Rightarrow>
               (let ids = json_to_text host (ids_json (turn_thread_id t, turn_id t)) @ [newline] in
                case after_admission host self h req w t th load s1 of
                  (Inr out, s2) \<Rightarrow> (\<lparr>exit_code = 0, out_text = ids, err_text = []\<rparr>, s2)
                | (Inl e, s2) \<Rightarrow>
                    (\<lparr>exit_code = 1, out_text = ids, err_text = startup_error (''ACP '' @ display_adapter_error host e)\<rparr>, s2))))"

definition dropping :: "nat \<Rightarrow> string \<Rightarrow> cli \<times> sys \<Rightarrow> cli \<times> sys" where
  "dropping self h x = (case x of (c, s) \<Rightarrow> (c, s\<lparr>homes := (homes s)(h := drop_ledger self (homes s h))\<rparr>))"

definition start_cwd :: "host \<Rightarrow> cli_flags \<Rightarrow> cli + string" where
  "start_cwd host f =
     (case fl_cwd f of
        Some p \<Rightarrow> Inr p
      | None \<Rightarrow>
          (case current_dir host of
             Inr p \<Rightarrow> if is_absolute p then Inr p else Inl (failed_with 1 (startup_error ''INVALID_CONFIG''))
           | Inl _ \<Rightarrow> Inl (failed_with 1 (startup_error ''INVALID_CONFIG''))))"

definition cmd_start :: "host \<Rightarrow> nat \<Rightarrow> string option \<Rightarrow> turn_world \<Rightarrow> string list \<Rightarrow> sys \<Rightarrow> cli \<times> sys" where
  "cmd_start host self no_runtime w args s =
     (case and_then (of_result (flags_for args True (\<lambda>f. fl_prompt f \<noteq> []))) (\<lambda>f.
           and_then (of_result (worker_open_home host (fl_home f))) (\<lambda>home.
           and_then (of_result (start_cwd host f)) (\<lambda>cwd.
           and_then (worker_call host home (open_ledger_home self home)) (\<lambda>h. ok (f, cwd, h))))) s of
        (Inl c, s1) \<Rightarrow> (c, s1)
      | (Inr (f, cwd, h), s1) \<Rightarrow>
          dropping self h
            (run_printing host self h
               (start_request host cwd (fl_prompt f) (fl_approval f) WorkspaceWrite (fl_model f) (fl_effort f) None)
               no_runtime w s1))"

definition cmd_followup :: "host \<Rightarrow> nat \<Rightarrow> string option \<Rightarrow> turn_world \<Rightarrow> string list \<Rightarrow> sys \<Rightarrow> cli \<times> sys" where
  "cmd_followup host self no_runtime w args s =
     (case and_then (of_result (flags_for args True (\<lambda>f. fl_thread_id f \<noteq> [] \<and> fl_prompt f \<noteq> []))) (\<lambda>f.
           and_then (worker_open_ledger host self (fl_home f)) (\<lambda>h.
           and_then (worker_call host h (read_thread (fl_thread_id f))) (\<lambda>th.
             if acp_session_id th = [] then err (acp_err ''follow-up requires a stored ACP session id'')
             else ok (f, h, th)))) s of
        (Inl c, s1) \<Rightarrow> (c, s1)
      | (Inr (f, h, th), s1) \<Rightarrow>
          dropping self h
            (run_printing host self h (followup_request host th (fl_prompt f) (fl_model f) (fl_effort f) (fl_cwd f))
               no_runtime w s1))"

section \<open>Dispatch\<close>

record worker_env = call_env +
  we_no_runtime :: "string option"
  we_world :: turn_world

definition run_worker :: "host \<Rightarrow> worker_env \<Rightarrow> string list \<Rightarrow> sys \<Rightarrow> (cli \<times> sys) option" where
  "run_worker host env args s =
     (case args of
        [] \<Rightarrow> Some (usage_error 2, s)
      | verb # rest \<Rightarrow>
          if verb = ''start'' then Some (cmd_start host (ce_self env) (we_no_runtime env) (we_world env) rest s)
          else if verb = ''wait'' then cmd_wait host (call_env.truncate env) rest s
          else if verb = ''status'' then Some (cmd_status host (ce_self env) rest s)
          else if verb = ''result'' then Some (cmd_result host (ce_self env) rest s)
          else if verb = ''list'' then Some (cmd_list host (ce_self env) rest s)
          else if verb = ''cancel'' then Some (cmd_cancel host (ce_self env) rest s)
          else if verb = ''followup'' then Some (cmd_followup host (ce_self env) (we_no_runtime env) (we_world env) rest s)
          else if verb = ''respond'' then Some (cmd_respond host (ce_self env) rest s)
          else Some (usage_error 1, s))"

text \<open>\<open>run\<close> of \<^verbatim>\<open>main.rs\<close>: the whole outcome, or the facade that takes over with its arguments.\<close>

definition USAGE :: string where
  "USAGE = join_with [newline]
     [''Usage:'',
      ''  gamchi version [--json]'',
      ''  gamchi worker <start|wait|status|result|list|cancel|followup|respond> ...'',
      ''  gamchi mcp [--home <absolute-path>]'',
      ''  gamchi app-server --listen unix://<absolute-path> [--home <absolute-path>]'',
      []]"

datatype command = Done cli | ToWorker "string list" | ToMcp "string list" | ToAppServer "string list"

definition quoted :: "string \<Rightarrow> string" where
  "quoted t = CHR 0x22 # t @ [CHR 0x22]"

definition version_json :: string where
  "version_json =
     ''{'' @ quoted ''name'' @ '':'' @ quoted NAME @ '','' @ quoted ''version'' @ '':'' @ quoted (''v'' @ VERSION) @ ''}'' @ [newline]"

definition run :: "string list \<Rightarrow> command" where
  "run args =
     (case args of
        [] \<Rightarrow> Done (failed_with 2 USAGE)
      | cmd # rest \<Rightarrow>
          if rest = [] \<and> (cmd = ''version'' \<or> cmd = ''--version'')
          then Done \<lparr>exit_code = 0, out_text = NAME @ '' v'' @ VERSION @ [newline], err_text = []\<rparr>
          else if cmd = ''version'' \<and> rest = [''--json'']
          then Done \<lparr>exit_code = 0, out_text = version_json, err_text = []\<rparr>
          else if cmd = ''version'' \<or> cmd = ''--version''
          then Done (failed_with 1 (startup_error ''INVALID_CONFIG'' @ USAGE))
          else if cmd = ''worker'' then ToWorker rest
          else if cmd = ''mcp'' then ToMcp rest
          else if cmd = ''app-server'' then ToAppServer rest
          else Done (failed_with 1 (startup_error ''INVALID_CONFIG'' @ (if starts_with cmd ''-'' then [] else USAGE))))"

end
