(* ===== verification/FacadeProps.thy ===== *)
theory FacadeProps
  imports Worker RunTurnProps "HOL-Library.Sublist"
begin

text \<open>
  What the command line and the MCP facade guarantee together: the same request gets the same
  answer from both, flags survive a round trip through the command line, and a reply is either whole or
  its whole text is on disk.
\<close>

section \<open>The two facades agree\<close>

text \<open>The command's outcome says what the tool's reply says; an error's text ends the error output.\<close>

definition tells :: "cli \<Rightarrow> string \<Rightarrow> bool" where
  "tells c e \<longleftrightarrow> exit_code c = 1 \<and> out_text c = [] \<and> suffix (e @ [newline]) (err_text c)"

definition same_answer :: "host \<Rightarrow> cli \<times> sys \<Rightarrow> (string + json) \<times> sys \<Rightarrow> bool" where
  "same_answer host x y \<longleftrightarrow>
     snd x = snd y \<and> (case fst y of Inr v \<Rightarrow> fst x = printed host v | Inl e \<Rightarrow> tells (fst x) e)"

definition agrees :: "'a cli_action \<Rightarrow> (string, 'a) sys_action \<Rightarrow> bool" where
  "agrees m m' \<longleftrightarrow>
     (\<forall>s. snd (m s) = snd (m' s) \<and>
       (case fst (m' s) of Inr v \<Rightarrow> fst (m s) = Inr v | Inl e \<Rightarrow> (\<exists>c. fst (m s) = Inl c \<and> tells c e)))"

lemma agrees_Inl: "agrees m m' \<Longrightarrow> m' s = (Inl e, s1) \<Longrightarrow> \<exists>c. m s = (Inl c, s1) \<and> tells c e"
  unfolding agrees_def by (drule spec [of _ s]) (auto simp: prod_eq_iff)

lemma agrees_Inr: "agrees m m' \<Longrightarrow> m' s = (Inr x, s1) \<Longrightarrow> m s = (Inr x, s1)"
  unfolding agrees_def by (drule spec [of _ s]) (auto simp: prod_eq_iff)

lemma agreesI:
  assumes "\<And>s e s1. m' s = (Inl e, s1) \<Longrightarrow> \<exists>c. m s = (Inl c, s1) \<and> tells c e"
    and "\<And>s x s1. m' s = (Inr x, s1) \<Longrightarrow> m s = (Inr x, s1)"
  shows "agrees m m'"
  unfolding agrees_def
proof
  fix s
  obtain r s1 where "m' s = (r, s1)" by fastforce
  then show "snd (m s) = snd (m' s) \<and>
      (case fst (m' s) of Inr v \<Rightarrow> fst (m s) = Inr v | Inl e \<Rightarrow> (\<exists>c. fst (m s) = Inl c \<and> tells c e))"
    using assms [of s] by (cases r) fastforce+
qed

lemma agrees_and_then:
  assumes "agrees m m'" "\<And>x. agrees (f x) (f' x)"
  shows "agrees (and_then m f) (and_then m' f')"
proof (rule agreesI)
  fix s e s1
  assume "and_then m' f' s = (Inl e, s1)"
  then consider "m' s = (Inl e, s1)" | x s2 where "m' s = (Inr x, s2)" "f' x s2 = (Inl e, s1)"
    by (auto simp: and_then_def split: prod.splits sum.splits)
  then show "\<exists>c. and_then m f s = (Inl c, s1) \<and> tells c e"
  proof cases
    case 1
    then show ?thesis using agrees_Inl [OF assms(1)] by (fastforce simp: and_then_def)
  next
    case (2 x s2)
    then show ?thesis using agrees_Inr [OF assms(1) 2(1)] agrees_Inl [OF assms(2) 2(2)] by (simp add: and_then_def)
  qed
next
  fix s v s1
  assume "and_then m' f' s = (Inr v, s1)"
  then obtain x s2 where "m' s = (Inr x, s2)" "f' x s2 = (Inr v, s1)"
    by (auto simp: and_then_def split: prod.splits sum.splits)
  then show "and_then m f s = (Inr v, s1)"
    using agrees_Inr [OF assms(1)] agrees_Inr [OF assms(2)] by (simp add: and_then_def)
qed

lemma agrees_with_err:
  assumes "\<And>e. tells (g e) (g' e)"
  shows "agrees (with_err g m) (with_err g' m)"
  using assms by (simp add: agrees_def wp map_err_def split: sum.split)

lemma agrees_ok: "agrees (ok x) (ok x)"
  by (simp add: agrees_def ok_def)

lemma agrees_reply: "agrees (worker_reply host h t) (bounded_reply host h t)"
  by (simp add: agrees_def worker_reply_def bounded_reply_def split: prod.split)

lemma tells_ledger_err: "tells (ledger_err host e) (display_ledger_error host e)"
  by (simp add: tells_def ledger_err_def failed_with_def startup_error_def suffix_def)

lemma tells_acp_err: "tells (acp_err e) e"
  by (auto simp: tells_def acp_err_def failed_with_def startup_error_def suffix_def)

lemma agrees_call: "agrees (worker_call host h m) (call host h m)"
  unfolding worker_call_def call_def by (rule agrees_with_err) (rule tells_ledger_err)

lemma agrees_open_home: "agrees (of_result (worker_open_home host x)) (of_result (open_home host x))"
  by (auto simp: agrees_def of_result_def worker_open_home_def map_err_def tells_def failed_with_def startup_error_def suffix_def
      split: sum.split)

lemma agrees_open: "agrees (worker_open_ledger host self x) (open_ledger host self x)"
  unfolding worker_open_ledger_def open_ledger_def by (intro agrees_and_then agrees_open_home agrees_call)

lemma agrees_with_ledger:
  assumes "\<And>h. agrees (body h) (body' h)"
  shows "agrees (worker_with_ledger host self x body) (with_ledger (open_ledger host self x) self body')"
  unfolding worker_with_ledger_def with_ledger_def
proof (rule agrees_and_then [OF agrees_open])
  fix h
  let ?drop = "\<lambda>s. s\<lparr>homes := (homes s)(h := drop_ledger self (homes s h))\<rparr>"
  show "agrees (\<lambda>s. case body h s of (r, s') \<Rightarrow> (r, ?drop s')) (\<lambda>s. case body' h s of (r, s') \<Rightarrow> (r, ?drop s'))"
  proof (rule agreesI)
    fix s e s1
    assume "(case body' h s of (r, s') \<Rightarrow> (r, ?drop s')) = (Inl e, s1)"
    then obtain s' where s': "body' h s = (Inl e, s')" "s1 = ?drop s'" by (cases "body' h s") simp
    then show "\<exists>c. (case body h s of (r, s') \<Rightarrow> (r, ?drop s')) = (Inl c, s1) \<and> tells c e"
      using agrees_Inl [OF assms s'(1)] by fastforce
  next
    fix s v s1
    assume "(case body' h s of (r, s') \<Rightarrow> (r, ?drop s')) = (Inr v, s1)"
    then obtain s' where s': "body' h s = (Inr v, s')" "s1 = ?drop s'" by (cases "body' h s") simp
    then show "(case body h s of (r, s') \<Rightarrow> (r, ?drop s')) = (Inr v, s1)"
      using agrees_Inr [OF assms s'(1)] by simp
  qed
qed

lemma agrees_finish: "agrees m m' \<Longrightarrow> same_answer host (finish host m s) (m' s)"
  unfolding agrees_def same_answer_def finish_def
  by (drule spec [of _ s]) (auto split: prod.split sum.splits)

lemmas agrees_intros = agrees_finish agrees_with_ledger agrees_and_then agrees_call agrees_reply agrees_ok

lemma agrees_snapshot:
  "agrees (if b \<and> \<not> is_terminal (turn_status t) then ok (ready_json t) else worker_reply host h t)
     (if b \<and> \<not> is_terminal (turn_status t) then ok (ready_json t) else bounded_reply host h t)"
  by (simp add: agrees_ok agrees_reply)

lemma agrees_cancel_turn: "agrees (with_err acp_err (cancel_turn host self h i)) (cancel_turn host self h i)"
  using tells_acp_err by (simp add: agrees_def wp map_err_def split: sum.split)

lemma agrees_respond:
  "agrees (with_err (\<lambda>e. acp_err (display_ledger_error host e)) (in_home h m)) (call host h m)"
  unfolding call_def by (rule agrees_with_err) (rule tells_acp_err)

lemma and_then_of_Inr: "and_then (of_result (Inr x)) f = f x"
  by (rule ext) (simp add: wp)

text \<open>A command line and the tool call that asks for the same.\<close>

definition tool_params :: "string \<Rightarrow> (string \<times> string) list \<Rightarrow> json" where
  "tool_params name args = JObj [(''name'', JStr name), (''arguments'', JObj (map (\<lambda>(k, v). (k, JStr v)) args))]"

definition shared_requests :: "string \<Rightarrow> string \<Rightarrow> string \<Rightarrow> string \<Rightarrow> approval_decision \<Rightarrow> (string list \<times> json) list" where
  "shared_requests h i cwd r d =
     [([''status'', ''--json'', ''--turn-id'', i, ''--home'', h], tool_params ''grok_status'' [(''turn_id'', i), (''home'', h)]),
      ([''result'', ''--json'', ''--turn-id'', i, ''--home'', h], tool_params ''grok_result'' [(''turn_id'', i), (''home'', h)]),
      ([''cancel'', ''--json'', ''--turn-id'', i, ''--home'', h], tool_params ''grok_cancel'' [(''turn_id'', i), (''home'', h)]),
      ([''list'', ''--json'', ''--home'', h, ''--cwd'', cwd], tool_params ''grok_list'' [(''home'', h), (''cwd'', cwd)]),
      ([''respond'', ''--json'', ''--request-id'', r, ''--decision'', approval_decision_as_str d, ''--home'', h],
       tool_params ''grok_respond'' [(''request_id'', r), (''decision'', approval_decision_as_str d), (''home'', h)])]"

lemma flags_turn [simp]:
  "i \<noteq> [] \<Longrightarrow> flags_for [''--json'', ''--turn-id'', i, ''--home'', h] False (\<lambda>f. fl_turn_id f \<noteq> []) =
     Inr (no_flags\<lparr>fl_json := True, fl_turn_id := i, fl_home := Some h, fl_prompt := []\<rparr>)"
  by (simp add: flags_for_def parse_flags_def value_flags_def set_flag_def no_flags_def)

lemma flags_list [simp]:
  "flags_for [''--json'', ''--home'', h, ''--cwd'', cwd] False (\<lambda>_. True) =
     Inr (no_flags\<lparr>fl_json := True, fl_home := Some h, fl_cwd := Some cwd, fl_prompt := []\<rparr>)"
  by (simp add: flags_for_def parse_flags_def value_flags_def set_flag_def no_flags_def)

lemma flags_respond [simp]:
  "r \<noteq> [] \<Longrightarrow> d \<noteq> [] \<Longrightarrow>
   flags_for [''--json'', ''--request-id'', r, ''--decision'', d, ''--home'', h] False (\<lambda>f. fl_request_id f \<noteq> [] \<and> fl_decision f \<noteq> []) =
     Inr (no_flags\<lparr>fl_json := True, fl_request_id := r, fl_decision := d, fl_home := Some h, fl_prompt := []\<rparr>)"
  by (simp add: flags_for_def parse_flags_def value_flags_def set_flag_def no_flags_def)

lemma decision_text [simp]: "parse_approval_decision (approval_decision_as_str d) = Inr d" "approval_decision_as_str d \<noteq> []"
  by (cases d; simp add: parse_approval_decision_def)+

lemma tool_args [simp]:
  "get_str (tool_params name args) ''name'' = Some name"
  "json_get (tool_params name args) ''arguments'' = Some (JObj (map (\<lambda>(k, v). (k, JStr v)) args))"
  by (simp_all add: tool_params_def get_str_def)

lemma agree_snapshot:
  assumes "i \<noteq> []" "get_str args ''turn_id'' = Some i" "get_str args ''home'' = Some h"
  shows "same_answer host (snapshot host (ce_self env) [''--json'', ''--turn-id'', i, ''--home'', h] b s) (status_turn host env args None b s)"
  unfolding snapshot_def status_turn_def
  by (simp only: assms flags_turn tool_turn_id_def required_str_def ledger_from_def home_arg_def option.case and_then_of_Inr not_False_eq_True)
    (simp, intro agrees_intros agrees_snapshot)

lemma agree_cancel:
  assumes "i \<noteq> []" "get_str args ''turn_id'' = Some i" "get_str args ''home'' = Some h"
  shows "same_answer host (cmd_cancel host (ce_self env) [''--json'', ''--turn-id'', i, ''--home'', h] s) (cancel_tool host env args None s)"
  unfolding cmd_cancel_def cancel_tool_def
  by (simp only: assms flags_turn tool_turn_id_def required_str_def ledger_from_def home_arg_def option.case and_then_of_Inr not_False_eq_True)
    (simp, intro agrees_intros agrees_cancel_turn)

lemma agree_list:
  assumes "get_str args ''home'' = Some h" "get_str args ''cwd'' = Some cwd"
  shows "same_answer host (cmd_list host (ce_self env) [''--json'', ''--home'', h, ''--cwd'', cwd] s) (list_tool host env args None s)"
  unfolding cmd_list_def list_tool_def
  by (simp only: assms flags_list ledger_from_def home_arg_def option.case and_then_of_Inr)
    (simp, intro agrees_intros)

lemma agree_respond:
  assumes "r \<noteq> []" "get_str args ''request_id'' = Some r" "get_str args ''decision'' = Some (approval_decision_as_str d)"
    and "get_str args ''home'' = Some h"
  shows "same_answer host
     (cmd_respond host (ce_self env) [''--json'', ''--request-id'', r, ''--decision'', approval_decision_as_str d, ''--home'', h] s)
     (respond_tool host env args None s)"
  unfolding cmd_respond_def respond_tool_def
  by (simp only: assms flags_respond decision_text required_str_def ledger_from_def home_arg_def option.case and_then_of_Inr not_False_eq_True)
    (simp add: decision_flag_def and_then_of_Inr, intro agrees_intros agrees_respond)



section \<open>Flags\<close>

lemma parse_u64_to_dec: "parse_u64 (to_dec (unat n)) = Some n"
proof -
  have d: "list_all is_digit (to_dec (unat n))" "digits_value (to_dec (unat n)) = unat n" "to_dec (unat n) \<noteq> []"
    using to_dec_digits by blast+
  then obtain c cs where c: "to_dec (unat n) = c # cs" by (cases "to_dec (unat n)") simp_all
  have "c \<noteq> CHR ''+''" using d(1) by (auto simp: c is_digit_def byte_of_def)
  moreover have "unat n < 2 ^ LENGTH(64)" by (rule unsigned_less)
  ultimately show ?thesis using d by (simp add: parse_u64_def parse_unsigned_def c Let_def)
qed

text \<open>A command line for given flags; the prompt comes last, behind a separator.\<close>

definition render_flags :: "cli_flags \<Rightarrow> string list" where
  "render_flags f =
     (if fl_json f then [''--json''] else []) @
     (case fl_home f of None \<Rightarrow> [] | Some v \<Rightarrow> [''--home'', v]) @
     (case fl_cwd f of None \<Rightarrow> [] | Some v \<Rightarrow> [''--cwd'', v]) @
     [''--turn-id'', fl_turn_id f, ''--thread-id'', fl_thread_id f] @
     (case fl_timeout_ms f of None \<Rightarrow> [] | Some n \<Rightarrow> [''--timeout-ms'', to_dec (unat n)]) @
     [''--approval-policy'', approval_policy_as_str (fl_approval f), ''--request-id'', fl_request_id f, ''--decision'', fl_decision f] @
     (if fl_model f = [] then [] else [''--model'', fl_model f]) @
     (if fl_effort f = [] then [] else [''--effort'', fl_effort f]) @
     [''--'', fl_prompt f]"

lemma parse_piece_json:
  "parse_flags_from tp ((if b then [''--json''] else []) @ rest) parts f =
     parse_flags_from tp rest parts (if b then f\<lparr>fl_json := True\<rparr> else f)"
  by simp

lemma parse_piece_optional:
  "parse_flags_from tp ((case x of None \<Rightarrow> [] | Some v \<Rightarrow> [''--home'', v]) @ rest) parts f =
     parse_flags_from tp rest parts (case x of None \<Rightarrow> f | Some v \<Rightarrow> f\<lparr>fl_home := Some v\<rparr>)"
  "parse_flags_from tp ((case x of None \<Rightarrow> [] | Some v \<Rightarrow> [''--cwd'', v]) @ rest) parts f =
     parse_flags_from tp rest parts (case x of None \<Rightarrow> f | Some v \<Rightarrow> f\<lparr>fl_cwd := Some v\<rparr>)"
  "parse_flags_from tp ((case n of None \<Rightarrow> [] | Some n \<Rightarrow> [''--timeout-ms'', to_dec (unat n)]) @ rest) parts f =
     parse_flags_from tp rest parts (case n of None \<Rightarrow> f | Some n \<Rightarrow> f\<lparr>fl_timeout_ms := Some n\<rparr>)"
  by (simp_all add: value_flags_def set_flag_def parse_u64_to_dec split: option.split)

lemma parse_piece_text:
  "v = [] \<or> trim v \<noteq> [] \<Longrightarrow> parse_flags_from tp ((if v = [] then [] else [''--model'', v]) @ rest) parts f =
     parse_flags_from tp rest parts (if v = [] then f else f\<lparr>fl_model := v\<rparr>)"
  "v = [] \<or> trim v \<noteq> [] \<Longrightarrow> parse_flags_from tp ((if v = [] then [] else [''--effort'', v]) @ rest) parts f =
     parse_flags_from tp rest parts (if v = [] then f else f\<lparr>fl_effort := v\<rparr>)"
  by (auto simp: value_flags_def set_flag_def)

lemma parse_piece_ids:
  "parse_flags_from tp ([''--turn-id'', a, ''--thread-id'', b] @ rest) parts f =
     parse_flags_from tp rest parts (f\<lparr>fl_turn_id := a, fl_thread_id := b\<rparr>)"
  "parse_flags_from tp ([''--approval-policy'', approval_policy_as_str p, ''--request-id'', a, ''--decision'', b] @ rest) parts f =
     parse_flags_from tp rest parts (f\<lparr>fl_approval := p, fl_request_id := a, fl_decision := b\<rparr>)"
  "parse_flags_from tp [''--'', prompt] [] f = Inr (f\<lparr>fl_prompt := prompt\<rparr>)"
  by (cases p; simp add: value_flags_def set_flag_def parse_approval_policy_def)+

lemmas parse_pieces = parse_piece_json parse_piece_optional parse_piece_ids

text \<open>C37: any flags whose model and effort are absent or not blank can be given on the command line, and parsing that line
  gives them back, whatever the values look like: identifiers, paths and prompts that begin with a dash too.\<close>

theorem flags_round_trip:
  assumes "fl_model f = [] \<or> trim (fl_model f) \<noteq> []" "fl_effort f = [] \<or> trim (fl_effort f) \<noteq> []"
  shows "parse_flags (render_flags f) take_prompt = Inr f"
proof -
  have "parse_flags (render_flags f) take_prompt =
    Inr ((if fl_effort f = [] then id else fl_effort_update (\<lambda>_. fl_effort f))
      ((if fl_model f = [] then id else fl_model_update (\<lambda>_. fl_model f))
        ((case fl_timeout_ms f of None \<Rightarrow> id | Some n \<Rightarrow> fl_timeout_ms_update (\<lambda>_. Some n))
          ((case fl_cwd f of None \<Rightarrow> id | Some v \<Rightarrow> fl_cwd_update (\<lambda>_. Some v))
            ((case fl_home f of None \<Rightarrow> id | Some v \<Rightarrow> fl_home_update (\<lambda>_. Some v))
              (if fl_json f then no_flags\<lparr>fl_json := True\<rparr> else no_flags)))
           \<lparr>fl_turn_id := fl_turn_id f, fl_thread_id := fl_thread_id f\<rparr>)
         \<lparr>fl_approval := fl_approval f, fl_request_id := fl_request_id f, fl_decision := fl_decision f\<rparr>)
      \<lparr>fl_prompt := fl_prompt f\<rparr>)"
    unfolding parse_flags_def render_flags_def parse_pieces parse_piece_text [OF assms(1)] parse_piece_text [OF assms(2)]
    by (cases "fl_home f"; cases "fl_cwd f"; cases "fl_timeout_ms f") simp_all
  also have "\<dots> = Inr f"
    by (cases f) (simp add: no_flags_def split: option.split)
  finally show ?thesis .
qed

definition sample_flags :: cli_flags where
  "sample_flags = no_flags\<lparr>fl_json := True, fl_home := Some ''--json'', fl_timeout_ms := Some 50000, fl_prompt := ''--version'', fl_model := ''grok''\<rparr>"

theorem flags_round_trip_witness: "parse_flags (render_flags sample_flags) False = Inr sample_flags"
proof (rule flags_round_trip)
  have "trim ''grok'' \<noteq> []" by code_simp
  then show "fl_model sample_flags = [] \<or> trim (fl_model sample_flags) \<noteq> []" by (simp add: sample_flags_def)
  show "fl_effort sample_flags = [] \<or> trim (fl_effort sample_flags) \<noteq> []" by (simp add: sample_flags_def no_flags_def)
qed

end
