(* ===== verification/Spec2Isabelle.thy ===== *)
theory Spec2Isabelle
  imports RecordFiles LedgerNames LedgerWait Conversation LiveCapture Upgrade AppProps FacadeProps
begin

text \<open>
  Verification of gamchi, a local worker that runs turns of an ACP agent (\<open>grok agent stdio\<close>) and
  keeps them in a durable ledger shared by any number of processes.

  \<^bold>\<open>Parts of the program.\<close> The core crate holds the vocabularies and records
  (\<^verbatim>\<open>source_wire.rs\<close>), the choice of the home directory (\<^verbatim>\<open>home.rs\<close>) and the ledger
  (\<^verbatim>\<open>ledger.rs\<close>): JSON files written by rename, advisory locks per thread and generation, a live lock
  that tells a crashed owner, waiters. The adapter crate maps agent updates to items (\<^verbatim>\<open>map.rs\<close>),
  resolves model and effort (\<^verbatim>\<open>defaults.rs\<close>), plans the launch (\<^verbatim>\<open>launch.rs\<close>), drives a turn
  (\<^verbatim>\<open>turn.rs\<close>) and tears processes down (\<^verbatim>\<open>teardown.rs\<close>). The gamchi crate has three
  facades over one set of operations (\<^verbatim>\<open>ops.rs\<close>): a command line (\<^verbatim>\<open>worker.rs\<close>,
  \<^verbatim>\<open>main.rs\<close>), an MCP server (\<^verbatim>\<open>mcp.rs\<close>) and an app server that speaks JSON-RPC over
  WebSocket on a Unix socket (\<^verbatim>\<open>app_server.rs\<close>). Beside the program are an agent for its tests
  (\<^verbatim>\<open>fake.rs\<close>) and checkers of the repository's own texts (\<^verbatim>\<open>live_capture.rs\<close>,
  \<^verbatim>\<open>docscheck\<close>).

  \<^bold>\<open>Theories and what they model.\<close>
  \<^item> \<open>Prelude\<close>: actions (a state and a result or an error) with their rules in the collection \<open>wp\<close>, frame relations as
    a locale, strings as bytes with the helpers of the standard library.
  \<^item> \<open>SourceWire\<close>, \<open>Home\<close>, \<open>Json\<close>: enums with their strings (instances of \<open>enum\<close>, locale \<open>closed_vocabulary\<close>), records, home
    resolution, JSON values.
  \<^item> \<open>Liveness\<close>, \<open>Store\<close>, \<open>Ledger\<close>: process liveness, the files of a home (locale \<open>record_store\<close>), every ledger
    operation. The record \<open>ledger\<close> is a home with the memory of the processes that use it; \<open>self\<close> numbers
    the \<open>Ledger\<close> values. A file operation fails where \<open>fault\<close> says so. The body of a lock is one
    definition (\<open>..._section\<close>), a step of the relation \<open>ledger_step\<close>.
    \<open>AtomicWrite\<close>, \<open>Codec\<close>, \<open>RecordFiles\<close>: the steps of one record write, the JSON form of the records (locales
    \<open>json_codec\<close> and \<open>derived_record\<close>), and why \<open>Store\<close> may write a record in one piece.
  \<^item> \<open>LedgerSpec\<close>: the abstract contract of the ledger and the simulation; \<open>LedgerInvariants\<close>, \<open>LedgerOps\<close>,
    \<open>LedgerWait\<close>, \<open>LedgerNames\<close>: its properties.
  \<^item> \<open>Mapper\<close>, \<open>MapperProps\<close>, \<open>Launch\<close>: updates to items, defaults, launch planning.
  \<^item> \<open>Teardown\<close>: the table of children, signals and the exit of the parent.
  \<^item> \<open>Agent\<close>, \<open>RunTurn\<close>, \<open>RunTurnProps\<close>: the driver of a turn. \<open>FakeAgent\<close>, \<open>Cooperative\<close>, \<open>Conversation\<close>: the agent of the
    tests, and a whole turn, first or follow-up, with an agent that keeps to the protocol.
  \<^item> \<open>WebSocket\<close>, \<open>Upgrade\<close>: frames and handshake on bytes.
  \<^item> \<open>Facade\<close>: \<^verbatim>\<open>ops.rs\<close> and the record \<open>sys\<close>, the ledgers of all homes with configuration, result files and
    processes. \<open>AppServer\<close>, \<open>AppWatch\<close>, \<open>Mcp\<close>, \<open>Worker\<close>: the facades, each handler an action on \<open>sys\<close>.
    \<open>AppProps\<close>, \<open>FacadeProps\<close>: their properties.
  \<^item> \<open>Docscheck\<close>, \<open>Leftover\<close>, \<open>LiveCapture\<close>: the checkers of the repository's own texts, with the patterns they use.

  \<^bold>\<open>What is shown.\<close> In every home reachable from an empty one, under any interleaving of critical
  sections and crashes, a thread and a client request have at most one turn in progress, terminal outcomes
  are final, item identifiers are unique and thread settings frozen; each section refines the
  contract and the public operations are runs of sections. Observing, cancelling, publishing, admission and
  approvals are settled on every branch; a crashed owner is seen by the next look; waits end with
  their deadline. Every run of a turn that returns has ended its turn, whatever the agent sends, and with an agent that keeps to the protocol a
  first turn or a follow-up runs from the request to its end, with the items of the mapper, and leaves a home the next can start from. Children
  are tracked or killed, and none outlives its parent. Launching fails closed, paths stay below the
  working directory, and the items on disk follow the mapper. Frames and flags survive their round trips, heads are
  bounded, replies have their shape, items are announced once and in order, cancelling signals
  the recorded child, and command line and MCP agree. Records are read back as written, and writers at the same
  time leave the bytes as some order of whole writes leaves the records. The
  checkers accept exactly what they are meant to, and a recording's claims are in its traffic.

  \<^bold>\<open>Parameters.\<close> Code outside the repository is an argument: JSON text, base64, SHA-1, git, the file
  system below the working directory, the protocol crate (the agent is a script of events and replies),
  environment and error texts (record \<open>host\<close>), the pattern engine, clocks, and what other threads do.

  \<^bold>\<open>Bounds and fuel.\<close> Words keep their width: frame lengths, timestamps, pids and request numbers.
  Loops with a deadline (\<open>poll_gone\<close>, \<open>parent_exit_loop\<close>) are total functions, measured by the time that is left, as
  is \<open>read_ws_text\<close>, measured by the bytes that are left. Waits and watches run under a schedule of what happens in
  their sleeps and give \<open>None\<close> when it ends first; \<open>LedgerWait\<close> shows that a schedule past the
  deadline is enough.

  \<^bold>\<open>Not modelled.\<close> Building the async runtime, draining the child's standard error, installing signal
  handlers. The connections of the app server are independent: \<open>accept_loop\<close> only names their threads.
\<close>

end
